(* ===== verification/Prelude.thy ===== *)
theory Prelude
  imports Main "HOL-Library.Word" "HOL-Library.Char_ord" "HOL-Library.List_Lexorder"
begin

unbundle bit_operations_syntax

text \<open>
  Shared vocabulary of the SovelmaOS development: the machine integers of the Rust sources,
  the casts and saturating operations the code uses, little-endian byte encodings
  (\<open>to_le_bytes\<close>), \<open>str::split\<close>, and UTF-8 validation (\<open>core::str::from_utf8\<close>).
  All of these are the language and its standard library; what comes from other crates is a
  parameter of the definitions that use it (see the theories \<open>Array_Queue\<close> and
  \<open>Wasm_Memory\<close>).
\<close>

section \<open>Fact collections\<close>

named_theorems word_facts \<open>facts about the fixed-width integers of the sources\<close>
named_theorems inv_intros \<open>preservation of the well-formedness invariants\<close>
named_theorems frame_simps \<open>fields an operation does not write\<close>

section \<open>Machine integers\<close>

text \<open>
  The target is x86-64, so \<open>usize\<close> has 64 bits. The signed types share the words of their
  unsigned counterparts; \<^const>\<open>sint\<close> reads them as two's complement.
\<close>

type_synonym u8 = "8 word"
type_synonym u16 = "16 word"
type_synonym u32 = "32 word"
type_synonym u64 = "64 word"
type_synonym usize = "64 word"
type_synonym i32 = "32 word"
type_synonym i64 = "64 word"

text \<open>Rust strings are UTF-8 bytes; \<^typ>\<open>char\<close> is a byte.\<close>

type_synonym str = string

text \<open>\<open>x as usize\<close> for an \<open>i32\<close> sign-extends; the length it denotes is the unsigned value.\<close>

definition i32_as_usize :: "i32 \<Rightarrow> nat" where
  "i32_as_usize x = unat (scast x :: usize)"

definition isize_max :: nat where
  "isize_max = 2 ^ 63 - 1"

definition saturating_sub :: "'a::len word \<Rightarrow> 'a word \<Rightarrow> 'a word" where
  "saturating_sub a b = (if a < b then 0 else a - b)"

text \<open>\<open>AtomicU32::fetch_add(1)\<close> and its siblings return the old value and wrap around.\<close>

definition fetch_add_one :: "'a::len word \<Rightarrow> 'a word \<times> 'a word" where
  "fetch_add_one n = (n, n + 1)"

section \<open>Bytes\<close>

primrec le_bytes :: "nat \<Rightarrow> 'a::len word \<Rightarrow> u8 list" where
  "le_bytes 0 w = []"
| "le_bytes (Suc n) w = ucast w # le_bytes n (drop_bit 8 w)"

primrec le_value :: "u8 list \<Rightarrow> 'a::len word" where
  "le_value [] = 0"
| "le_value (b # bs) = ucast b OR push_bit 8 (le_value bs)"

definition byte_of_char :: "char \<Rightarrow> u8" where
  "byte_of_char c = word_of_nat (of_char c)"

definition char_of_byte :: "u8 \<Rightarrow> char" where
  "char_of_byte b = char_of (unat b)"

section \<open>Strings\<close>

text \<open>\<open>str::split\<close> on a one-character pattern: there is always at least one piece.\<close>

fun split_on :: "char \<Rightarrow> str \<Rightarrow> str list" where
  "split_on c [] = [[]]"
| "split_on c (x # xs) =
     (if x = c then [] # split_on c xs
      else case split_on c xs of
             [] \<Rightarrow> [[x]]
           | p # ps \<Rightarrow> (x # p) # ps)"

text \<open>
  \<open>core::str::from_utf8\<close>: well-formed UTF-8 only, that is no overlong forms, no surrogates
  and nothing above U+10FFFF.
\<close>

definition is_cont :: "u8 \<Rightarrow> bool" where
  "is_cont b \<longleftrightarrow> 128 \<le> b \<and> b \<le> 191"

fun utf8_valid :: "u8 list \<Rightarrow> bool" where
  "utf8_valid [] = True"
| "utf8_valid (a # r0) =
     (if a < 128 then utf8_valid r0
      else case r0 of
        [] \<Rightarrow> False
      | b # r1 \<Rightarrow>
          if 194 \<le> a \<and> a \<le> 223 then is_cont b \<and> utf8_valid r1
          else case r1 of
            [] \<Rightarrow> False
          | c # r2 \<Rightarrow>
              if 224 \<le> a \<and> a \<le> 239 then
                is_cont b \<and> (a = 224 \<longrightarrow> 160 \<le> b) \<and> (a = 237 \<longrightarrow> b \<le> 159)
                \<and> is_cont c \<and> utf8_valid r2
              else case r2 of
                [] \<Rightarrow> False
              | d # r3 \<Rightarrow>
                  240 \<le> a \<and> a \<le> 244 \<and> is_cont b \<and> (a = 240 \<longrightarrow> 144 \<le> b)
                  \<and> (a = 244 \<longrightarrow> b \<le> 143) \<and> is_cont c \<and> is_cont d \<and> utf8_valid r3)"

definition from_utf8 :: "u8 list \<Rightarrow> str option" where
  "from_utf8 bs = (if utf8_valid bs then Some (map char_of_byte bs) else None)"

section \<open>Lemmas on integers and bytes\<close>

lemma unat_of_nat_u32 [word_facts]: "n < 2 ^ 32 \<Longrightarrow> unat (of_nat n :: u32) = n"
  by (simp add: unsigned_of_nat take_bit_nat_eq_self)

lemma unat_of_nat_u64 [word_facts]: "n < 2 ^ 64 \<Longrightarrow> unat (of_nat n :: u64) = n"
  by (simp add: unsigned_of_nat take_bit_nat_eq_self)

lemma less_not_max: "x < y \<Longrightarrow> 1 + x \<noteq> 0" for x y :: "'a::len word"
proof
  assume "x < y" and "1 + x = 0"
  then have "x = - 1" by (simp add: add_eq_0_iff)
  with \<open>x < y\<close> show False by simp
qed

lemma unat_inc [word_facts]: "x < y \<Longrightarrow> unat (x + 1) = Suc (unat x)" for x y :: "'a::len word"
  using unatSuc [OF less_not_max, of x y] by (simp add: add.commute)

lemma inc_le_of_less [word_facts]: "x < y \<Longrightarrow> x + 1 \<le> y" for x y :: "'a::len word"
  using unat_inc [of x y] by (simp add: word_le_nat_alt word_less_nat_alt)

lemma unat_dec [word_facts]: "x \<noteq> 0 \<Longrightarrow> Suc (unat (x - 1)) = unat x" for x :: "'a::len word"
  by (simp add: unat_minus_one word_neq_0_conv [symmetric] unat_gt_0)

lemma ucast_u64_u32 [simp]: "(ucast (ucast x :: u64) :: u32) = x"
  by (rule bit_word_eqI) (simp add: bit_simps)

lemma unat_less_31: "unat x < 2 ^ 31 \<longleftrightarrow> uint x < 2 ^ 31" for x :: i32
  using of_nat_less_iff [of "unat x" "2 ^ 31", where 'a = int] by simp

lemma sint_i32: "sint x = (if unat x < 2 ^ 31 then uint x else uint x - 2 ^ 32)" for x :: i32
proof -
  have u: "0 \<le> uint x" "uint x < 2 ^ 32"
    using uint_lt2p [of x] by simp_all
  have s: "sint x = (uint x + 2 ^ 31) mod 2 ^ 32 - 2 ^ 31"
    by (simp add: sint_uint signed_take_bit_eq_take_bit_shift take_bit_eq_mod)
  show ?thesis
  proof (cases "uint x < 2 ^ 31")
    case True
    then have "(uint x + 2 ^ 31) mod 2 ^ 32 = uint x + 2 ^ 31"
      using u by (intro mod_pos_pos_trivial) simp_all
    with True s unat_less_31 [of x] show ?thesis by simp
  next
    case False
    have "(uint x - 2 ^ 31 + 2 ^ 32) mod 2 ^ 32 = (uint x - 2 ^ 31) mod 2 ^ 32"
      by (rule mod_add_self2)
    moreover have "(uint x - 2 ^ 31) mod 2 ^ 32 = uint x - 2 ^ 31"
      using u False by (intro mod_pos_pos_trivial) simp_all
    ultimately show ?thesis using s False unat_less_31 [of x] by (simp add: add.commute)
  qed
qed

lemma i32_as_usize_cases:
  "i32_as_usize x = (if unat x < 2 ^ 31 then unat x else 2 ^ 64 - 2 ^ 32 + unat x)"
proof -
  have i: "int (i32_as_usize x) = sint x mod 2 ^ 64"
  proof -
    have "uint (word_of_int (sint x) :: usize) = sint x mod 2 ^ LENGTH(64)"
      by (rule uint_word_of_int)
    then show ?thesis by (simp add: i32_as_usize_def scast_eq [symmetric])
  qed
  have u: "0 \<le> uint x" "uint x < 2 ^ 32"
    using uint_lt2p [of x] by simp_all
  show ?thesis
  proof (cases "unat x < 2 ^ 31")
    case True
    then have "sint x mod 2 ^ 64 = uint x"
      using u by (simp add: sint_i32 mod_pos_pos_trivial)
    with i have "int (i32_as_usize x) = int (unat x)" by simp
    with True show ?thesis by (simp only: of_nat_eq_iff if_True)
  next
    case False
    have "(uint x - 2 ^ 32 + 2 ^ 64) mod 2 ^ 64 = (uint x - 2 ^ 32) mod 2 ^ 64"
      by (rule mod_add_self2)
    moreover have "(uint x - 2 ^ 32 + 2 ^ 64) mod 2 ^ 64 = uint x - 2 ^ 32 + 2 ^ 64"
      using u by (intro mod_pos_pos_trivial) simp_all
    ultimately have "int (i32_as_usize x) = int (2 ^ 64 - 2 ^ 32 + unat x)"
      using False i sint_i32 [of x] by simp
    with False show ?thesis by (simp only: of_nat_eq_iff if_False)
  qed
qed

lemma i32_as_usize_small: "unat x < 2 ^ 31 \<Longrightarrow> i32_as_usize x = unat x"
  by (simp add: i32_as_usize_cases)

lemma i32_as_usize_negative: "sint x < 0 \<Longrightarrow> isize_max < i32_as_usize x"
  by (simp add: i32_as_usize_cases isize_max_def sint_i32 split: if_splits)

lemma unat_saturating_sub [word_facts]:
  "unat (saturating_sub a b) = unat a - unat b"
  by (auto simp: saturating_sub_def word_less_nat_alt unat_sub_if_size)

lemma saturating_sub_le: "saturating_sub a b \<le> a"
  by (simp add: word_le_nat_alt unat_saturating_sub)

lemma length_le_bytes [simp]: "length (le_bytes n w) = n"
  by (induction n arbitrary: w) auto

lemma bit_le_value_le_bytes:
  "bit (le_value (le_bytes n w) :: 'a::len word) k \<longleftrightarrow> k < 8 * n \<and> bit (w :: 'a word) k"
proof (induction n arbitrary: w k)
  case 0
  then show ?case by simp
next
  case (Suc n)
  show ?case
  proof (cases "k < 8")
    case True
    then show ?thesis
      by (auto simp: bit_simps dest: bit_imp_le_length)
  next
    case False
    then show ?thesis
      using Suc.IH [of "drop_bit 8 w" "k - 8"]
      by (auto simp: bit_simps dest: bit_imp_le_length)
  qed
qed

lemma le_value_le_bytes:
  "LENGTH('a) \<le> 8 * n \<Longrightarrow> le_value (le_bytes n w) = (w :: 'a::len word)"
  by (rule bit_eqI) (auto simp: bit_le_value_le_bytes dest: bit_imp_le_length)

lemma char_of_byte_of_char [simp]: "char_of_byte (byte_of_char c) = c"
proof -
  have "unat (word_of_nat (of_char c) :: u8) = of_char c"
    by (simp add: unat_of_nat)
  then show ?thesis
    by (simp add: char_of_byte_def byte_of_char_def)
qed

lemma split_on_not_Nil [simp]: "split_on c s \<noteq> []"
  by (induction s) (auto split: list.splits)

lemma split_on_no_sep: "p \<in> set (split_on c s) \<Longrightarrow> c \<notin> set p"
  by (induction s arbitrary: p) (auto split: list.splits if_splits)

lemma split_on_id: "c \<notin> set s \<Longrightarrow> split_on c s = [s]"
  by (induction s) auto

lemma split_on_append_sep: "c \<notin> set a \<Longrightarrow> split_on c (a @ c # b) = a # split_on c b"
  by (induction a) auto

section \<open>Loops that may panic\<close>

fun fold_option :: "('a \<Rightarrow> 's \<Rightarrow> 's option) \<Rightarrow> 'a list \<Rightarrow> 's \<Rightarrow> 's option" where
  "fold_option f [] s = Some s"
| "fold_option f (x # xs) s = Option.bind (f x s) (fold_option f xs)"

lemma fold_option_append: "fold_option f (xs @ ys) s = Option.bind (fold_option f xs s) (fold_option f ys)"
  by (induction xs arbitrary: s) (auto simp: Option.bind_eq_Some_conv split: Option.bind_splits)

lemma fold_option_invariant:
  assumes "P s" "fold_option f xs s = Some s'"
    and "\<And>x s s'. P s \<Longrightarrow> f x s = Some s' \<Longrightarrow> P s'"
  shows "P s'"
  using assms(1,2)
  by (induction xs arbitrary: s) (auto simp: Option.bind_eq_Some_conv intro: assms(3))

lemma fold_option_total:
  assumes "P s" and "\<And>x s. P s \<Longrightarrow> \<exists>s'. f x s = Some s' \<and> P s'"
  shows "\<exists>s'. fold_option f xs s = Some s' \<and> P s'"
  using assms(1)
proof (induction xs arbitrary: s)
  case (Cons x xs)
  from assms(2) [OF Cons.prems] obtain s1 where "f x s = Some s1" "P s1"
    by blast
  with Cons.IH [of s1] show ?case
    by simp
qed simp

end
