(* ===== verification/Array_Queue.thy ===== *)
theory Array_Queue
  imports Prelude
begin

text \<open>
  \<open>crossbeam_queue::ArrayQueue\<close> is not part of the repository: it is a parameter of the
  components that use it (the executor's run queues, the waiter queues of the mutex and the
  semaphore, the keyboard's scancode queue). A record holds the operations the kernel calls; the
  locale \<open>array_queue\<close> states the documented behaviour the kernel relies on: a FIFO queue of
  fixed capacity whose \<open>push\<close> fails, leaving the queue as it is, when the queue is full.
  \<open>list_queue_ops\<close> is a queue with this behaviour.
\<close>

record ('q, 'a) queue_ops =
  aq_new :: "nat \<Rightarrow> 'q"
  aq_push :: "'q \<Rightarrow> 'a \<Rightarrow> 'q \<times> bool"
  aq_pop :: "'q \<Rightarrow> 'q \<times> 'a option"
  aq_is_empty :: "'q \<Rightarrow> bool"

definition list_queue_ops :: "(nat \<times> 'a list, 'a) queue_ops" where
  "list_queue_ops = \<lparr>
     aq_new = (\<lambda>n. (n, [])),
     aq_push = (\<lambda>(n, xs) x. if length xs < n then ((n, xs @ [x]), True) else ((n, xs), False)),
     aq_pop = (\<lambda>(n, xs). case xs of [] \<Rightarrow> ((n, []), None) | x # ys \<Rightarrow> ((n, ys), Some x)),
     aq_is_empty = (\<lambda>(n, xs). xs = [])\<rparr>"

locale array_queue =
  fixes Q :: "('q, 'a) queue_ops"
    and items :: "'q \<Rightarrow> 'a list"
    and capacity :: "'q \<Rightarrow> nat"
  assumes items_new: "0 < n \<Longrightarrow> items (aq_new Q n) = []"
    and capacity_new: "0 < n \<Longrightarrow> capacity (aq_new Q n) = n"
    and push_room: "length (items q) < capacity q \<Longrightarrow>
          \<exists>q'. aq_push Q q x = (q', True) \<and> items q' = items q @ [x] \<and> capacity q' = capacity q"
    and push_full: "capacity q \<le> length (items q) \<Longrightarrow> aq_push Q q x = (q, False)"
    and pop_none: "items q = [] \<Longrightarrow> aq_pop Q q = (q, None)"
    and pop_some: "items q = x # xs \<Longrightarrow>
          \<exists>q'. aq_pop Q q = (q', Some x) \<and> items q' = xs \<and> capacity q' = capacity q"
    and is_empty_items: "aq_is_empty Q q \<longleftrightarrow> items q = []"
begin

lemma push_cases [consumes 1, case_names room full]:
  assumes "aq_push Q q x = (q', ok)"
  obtains (room) "ok" "items q' = items q @ [x]" "capacity q' = capacity q"
      "length (items q) < capacity q"
    | (full) "\<not> ok" "q' = q" "capacity q \<le> length (items q)"
proof (cases "length (items q) < capacity q")
  case True
  from push_room [OF True, of x] assms True room show thesis by auto
next
  case False
  with push_full [of q x] assms full show thesis by auto
qed

lemma pop_cases [consumes 1, case_names empty item]:
  assumes "aq_pop Q q = (q', r)"
  obtains (empty) "r = None" "q' = q" "items q = []"
    | (item) x where "r = Some x" "items q = x # items q'" "capacity q' = capacity q"
proof (cases "items q")
  case Nil
  with pop_none [OF Nil] assms empty show thesis by simp
next
  case (Cons x xs)
  from pop_some [OF Cons] assms Cons item show thesis by auto
qed

lemma pop_length:
  "aq_pop Q q = (q', Some x) \<Longrightarrow> length (items q) = Suc (length (items q'))"
  by (auto elim: pop_cases)

lemma push_bounded:
  "aq_push Q q x = (q', ok) \<Longrightarrow> length (items q) \<le> capacity q \<Longrightarrow>
     length (items q') \<le> capacity q'"
  by (auto elim: push_cases)

lemma pop_bounded:
  "aq_pop Q q = (q', r) \<Longrightarrow> length (items q) \<le> capacity q \<Longrightarrow>
     length (items q') \<le> capacity q'"
  by (auto elim: pop_cases)

lemma set_push: "aq_push Q q x = (q', ok) \<Longrightarrow> set (items q') \<subseteq> insert x (set (items q))"
  by (auto elim: push_cases)

lemma set_pop: "aq_pop Q q = (q', r) \<Longrightarrow> set (items q') \<subseteq> set (items q)"
  by (auto elim: pop_cases)

end

interpretation lq: array_queue list_queue_ops snd fst
  by unfold_locales (auto simp: list_queue_ops_def split: list.splits)

end
