(* ===== verification/Sync.thy ===== *)
theory Sync
  imports Array_Queue
begin

text \<open>
  The asynchronous mutex and semaphore of \<open>src/src/kernel/src/sync/mutex.rs\<close> and
  \<open>semaphore.rs\<close>. The waiter queue is the parameter \<open>Q\<close> of theory \<open>Array_Queue\<close>; a call of
  \<open>Waker::wake\<close> is the waker an operation returns. \<open>compare_exchange_weak\<close> may fail although the
  value matches: every such operation takes the outcomes as an argument, a Boolean for a single
  attempt and a list for a loop, in which the attempts after the end of the list do not fail
  spuriously. Arithmetic on \<open>usize\<close> panics on overflow, as in the \<open>dev\<close> profile; \<open>None\<close> is a panic.
\<close>

section \<open>Atomics and polling\<close>

datatype 'a Poll = Ready 'a | Pending

definition compare_exchange :: "'v \<Rightarrow> 'v \<Rightarrow> 'v \<Rightarrow> bool \<times> 'v" where
  "compare_exchange current new v = (if v = current then (True, new) else (False, v))"

definition compare_exchange_weak :: "bool \<Rightarrow> 'v \<Rightarrow> 'v \<Rightarrow> 'v \<Rightarrow> bool \<times> 'v" where
  "compare_exchange_weak spurious current new v =
     (if spurious then (False, v) else compare_exchange current new v)"

definition MAX_WAITERS :: nat where
  "MAX_WAITERS = 100"

section \<open>The mutex\<close>

record ('t, 'q) AsyncMutex =
  mutex_data :: 't
  locked :: bool
  mutex_waiters :: 'q

definition AsyncMutex_new :: "('q, 'w) queue_ops \<Rightarrow> 't \<Rightarrow> ('t, 'q) AsyncMutex" where
  "AsyncMutex_new Q v = \<lparr>mutex_data = v, locked = False, mutex_waiters = aq_new Q MAX_WAITERS\<rparr>"

text \<open>\<open>True\<close> is \<open>Some(guard)\<close>: the caller holds the lock until the guard is dropped.\<close>

definition AsyncMutex_try_lock :: "('t, 'q) AsyncMutex \<Rightarrow> bool \<times> ('t, 'q) AsyncMutex" where
  "AsyncMutex_try_lock m =
     (let (ok, l) = compare_exchange False True (locked m) in (ok, m\<lparr>locked := l\<rparr>))"

definition AsyncMutex_wake_next ::
  "('q, 'w) queue_ops \<Rightarrow> ('t, 'q) AsyncMutex \<Rightarrow> 'w option \<times> ('t, 'q) AsyncMutex" where
  "AsyncMutex_wake_next Q m =
     (let (q, w) = aq_pop Q (mutex_waiters m) in (w, m\<lparr>mutex_waiters := q\<rparr>))"

definition AsyncMutexGuard_deref :: "('t, 'q) AsyncMutex \<Rightarrow> 't" where
  "AsyncMutexGuard_deref m = mutex_data m"

definition AsyncMutexGuard_deref_mut :: "('t, 'q) AsyncMutex \<Rightarrow> ('t \<Rightarrow> 't) \<Rightarrow> ('t, 'q) AsyncMutex" where
  "AsyncMutexGuard_deref_mut m f = m\<lparr>mutex_data := f (mutex_data m)\<rparr>"

definition AsyncMutexGuard_drop ::
  "('q, 'w) queue_ops \<Rightarrow> ('t, 'q) AsyncMutex \<Rightarrow> 'w option \<times> ('t, 'q) AsyncMutex" where
  "AsyncMutexGuard_drop Q m = AsyncMutex_wake_next Q (m\<lparr>locked := False\<rparr>)"

record AsyncMutexLockFuture =
  mutex_registered :: bool

definition AsyncMutex_lock :: AsyncMutexLockFuture where
  "AsyncMutex_lock = \<lparr>mutex_registered = False\<rparr>"

definition AsyncMutexLockFuture_poll ::
  "('q, 'w) queue_ops \<Rightarrow> bool \<Rightarrow> bool \<Rightarrow> 'w \<Rightarrow> AsyncMutexLockFuture \<Rightarrow> ('t, 'q) AsyncMutex
     \<Rightarrow> unit Poll \<times> AsyncMutexLockFuture \<times> ('t, 'q) AsyncMutex" where
  "AsyncMutexLockFuture_poll Q spurious1 spurious2 waker fut m =
     (let (ok, l) = compare_exchange_weak spurious1 False True (locked m);
          m = m\<lparr>locked := l\<rparr>
      in if ok then (Ready (), fut, m)
         else
           let (fut, m) =
                 (if \<not> mutex_registered fut
                  then (fut\<lparr>mutex_registered := True\<rparr>,
                        m\<lparr>mutex_waiters := fst (aq_push Q (mutex_waiters m) waker)\<rparr>)
                  else (fut, m));
               (ok, l) = compare_exchange_weak spurious2 False True (locked m);
               m = m\<lparr>locked := l\<rparr>
           in if ok then (Ready (), fut, m) else (Pending, fut, m))"

section \<open>The semaphore\<close>

record 'q Semaphore =
  permits :: usize
  max_permits :: usize
  sem_waiters :: 'q

definition Semaphore_new :: "('q, 'w) queue_ops \<Rightarrow> usize \<Rightarrow> 'q Semaphore" where
  "Semaphore_new Q n = \<lparr>permits = n, max_permits = n, sem_waiters = aq_new Q MAX_WAITERS\<rparr>"

definition Semaphore_with_max ::
  "('q, 'w) queue_ops \<Rightarrow> usize \<Rightarrow> usize \<Rightarrow> 'q Semaphore option" where
  "Semaphore_with_max Q initial maximum =
     (if initial \<le> maximum
      then Some \<lparr>permits = initial, max_permits = maximum, sem_waiters = aq_new Q MAX_WAITERS\<rparr>
      else None)"

definition available_permits :: "'q Semaphore \<Rightarrow> usize" where
  "available_permits s = permits s"

fun try_acquire :: "bool list \<Rightarrow> 'q Semaphore \<Rightarrow> bool \<times> 'q Semaphore" where
  "try_acquire [] s =
     (let current = permits s
      in if current = 0 then (False, s) else (True, s\<lparr>permits := current - 1\<rparr>))"
| "try_acquire (spurious # rest) s =
     (let current = permits s
      in if current = 0 then (False, s)
         else let (ok, v) = compare_exchange_weak spurious current (current - 1) (permits s)
              in if ok then (True, s\<lparr>permits := v\<rparr>) else try_acquire rest (s\<lparr>permits := v\<rparr>))"

text \<open>The loop of \<open>release\<close>; \<open>None\<close> is the overflow of \<open>current + 1\<close>.\<close>

fun release_permits :: "bool list \<Rightarrow> 'q Semaphore \<Rightarrow> 'q Semaphore option" where
  "release_permits [] s =
     (let current = permits s
      in if current = - 1 then None
         else let new_val = min (current + 1) (max_permits s)
              in if current = new_val then Some s else Some (s\<lparr>permits := new_val\<rparr>))"
| "release_permits (spurious # rest) s =
     (let current = permits s
      in if current = - 1 then None
         else let new_val = min (current + 1) (max_permits s)
              in if current = new_val then Some s
                 else let (ok, v) = compare_exchange_weak spurious current new_val (permits s)
                      in if ok then Some (s\<lparr>permits := v\<rparr>)
                         else release_permits rest (s\<lparr>permits := v\<rparr>))"

definition Semaphore_release ::
  "('q, 'w) queue_ops \<Rightarrow> bool list \<Rightarrow> 'q Semaphore \<Rightarrow> ('w option \<times> 'q Semaphore) option" where
  "Semaphore_release Q spurious s =
     (case release_permits spurious s of
        None \<Rightarrow> None
      | Some s \<Rightarrow>
          let (q, w) = aq_pop Q (sem_waiters s) in Some (w, s\<lparr>sem_waiters := q\<rparr>))"

record SemaphoreAcquireFuture =
  sem_registered :: bool

definition Semaphore_acquire :: SemaphoreAcquireFuture where
  "Semaphore_acquire = \<lparr>sem_registered = False\<rparr>"

definition SemaphoreAcquireFuture_poll ::
  "('q, 'w) queue_ops \<Rightarrow> bool list \<Rightarrow> bool list \<Rightarrow> 'w \<Rightarrow> SemaphoreAcquireFuture \<Rightarrow> 'q Semaphore
     \<Rightarrow> unit Poll \<times> SemaphoreAcquireFuture \<times> 'q Semaphore" where
  "SemaphoreAcquireFuture_poll Q spurious1 spurious2 waker fut s =
     (let (ok, s) = try_acquire spurious1 s
      in if ok then (Ready (), fut, s)
         else
           let (fut, s) =
                 (if \<not> sem_registered fut
                  then (fut\<lparr>sem_registered := True\<rparr>,
                        s\<lparr>sem_waiters := fst (aq_push Q (sem_waiters s) waker)\<rparr>)
                  else (fut, s));
               (ok, s) = try_acquire spurious2 s
           in if ok then (Ready (), fut, s) else (Pending, fut, s))"

definition SemaphorePermit_drop ::
  "('q, 'w) queue_ops \<Rightarrow> bool list \<Rightarrow> 'q Semaphore \<Rightarrow> ('w option \<times> 'q Semaphore) option" where
  "SemaphorePermit_drop Q spurious s = Semaphore_release Q spurious s"

section \<open>The loops\<close>

text \<open>Spurious failures change nothing: the loops compute what one undisturbed attempt does.\<close>

lemma try_acquire_once:
  "try_acquire sp s = (if permits s = 0 then (False, s) else (True, s\<lparr>permits := permits s - 1\<rparr>))"
  by (induction sp arbitrary: s)
    (auto simp: compare_exchange_weak_def compare_exchange_def Let_def)

lemma release_permits_once:
  "release_permits sp s =
     (if permits s = - 1 then None
      else Some (s\<lparr>permits := min (permits s + 1) (max_permits s)\<rparr>))"
  by (induction sp arbitrary: s)
    (auto simp: compare_exchange_weak_def compare_exchange_def Let_def)

end
