(* ===== verification/Sync_Tasks.thy ===== *)
theory Sync_Tasks
  imports Sync
begin

text \<open>
  Tasks that share a mutex or a semaphore, in every order the scheduler may choose. For the mutex
  a step is one call of its interface by one task, and a task that waits is polled only after its
  waker was called, as the executor does. For the semaphore a step is one atomic instruction of one
  task, so that the loads and compare-exchanges of different tasks interleave freely.
\<close>

section \<open>Tasks around a mutex\<close>

datatype mutex_task = MIdle | MWaiting AsyncMutexLockFuture | MHolding

record ('t, 'q) mutex_world =
  the_mutex :: "('t, 'q) AsyncMutex"
  mtasks :: "nat \<Rightarrow> mutex_task"
  woken :: "nat set"

definition mutex_start :: "('q, nat) queue_ops \<Rightarrow> 't \<Rightarrow> ('t, 'q) mutex_world" where
  "mutex_start Q v = \<lparr>the_mutex = AsyncMutex_new Q v, mtasks = (\<lambda>_. MIdle), woken = {}\<rparr>"

fun after_poll :: "unit Poll \<Rightarrow> AsyncMutexLockFuture \<Rightarrow> mutex_task" where
  "after_poll (Ready _) fut = MHolding"
| "after_poll Pending fut = MWaiting fut"

inductive mutex_step ::
  "('q, nat) queue_ops \<Rightarrow> nat \<Rightarrow> ('t, 'q) mutex_world \<Rightarrow> ('t, 'q) mutex_world \<Rightarrow> bool"
  for Q :: "('q, nat) queue_ops" where
  try_lock: "mtasks w t = MIdle \<Longrightarrow> AsyncMutex_try_lock (the_mutex w) = (ok, m) \<Longrightarrow>
     mutex_step Q t w (w\<lparr>the_mutex := m, mtasks := (mtasks w)(t := if ok then MHolding else MIdle)\<rparr>)"
| lock: "mtasks w t = MIdle \<Longrightarrow>
     mutex_step Q t w (w\<lparr>mtasks := (mtasks w)(t := MWaiting AsyncMutex_lock),
                         woken := insert t (woken w)\<rparr>)"
| poll: "mtasks w t = MWaiting fut \<Longrightarrow> t \<in> woken w \<Longrightarrow>
     AsyncMutexLockFuture_poll Q spurious1 spurious2 t fut (the_mutex w) = (r, fut', m) \<Longrightarrow>
     mutex_step Q t w (w\<lparr>the_mutex := m, mtasks := (mtasks w)(t := after_poll r fut'),
                         woken := woken w - {t}\<rparr>)"
| modify: "mtasks w t = MHolding \<Longrightarrow>
     mutex_step Q t w (w\<lparr>the_mutex := AsyncMutexGuard_deref_mut (the_mutex w) f\<rparr>)"
| unlock: "mtasks w t = MHolding \<Longrightarrow> AsyncMutexGuard_drop Q (the_mutex w) = (waker, m) \<Longrightarrow>
     mutex_step Q t w (w\<lparr>the_mutex := m, mtasks := (mtasks w)(t := MIdle),
                         woken := woken w \<union> set_option waker\<rparr>)"

inductive mutex_run :: "('q, nat) queue_ops \<Rightarrow> ('t, 'q) mutex_world \<Rightarrow> ('t, 'q) mutex_world \<Rightarrow> bool"
  for Q :: "('q, nat) queue_ops" where
  refl: "mutex_run Q w w"
| step: "mutex_run Q u w \<Longrightarrow> mutex_step Q t w w' \<Longrightarrow> mutex_run Q u w'"

text \<open>Dropping \<open>n\<close> guards in a row, the lock being taken again in between.\<close>

fun unlock_times ::
  "('q, 'w) queue_ops \<Rightarrow> nat \<Rightarrow> ('t, 'q) AsyncMutex \<Rightarrow> 'w list \<times> ('t, 'q) AsyncMutex" where
  "unlock_times Q 0 m = ([], m)"
| "unlock_times Q (Suc n) m =
     (let (w, m) = AsyncMutexGuard_drop Q m;
          (ws, m) = unlock_times Q n m
      in (case w of None \<Rightarrow> ws | Some x \<Rightarrow> x # ws, m))"

section \<open>Tasks around a semaphore, instruction by instruction\<close>

text \<open>Where a task is in \<open>try_acquire\<close> and \<open>release\<close>: outside, before the load of \<open>current\<close>, between
  that load and the compare-exchange, or before the waker of the next waiter is popped. Any task may call
  either function at any time. For each task the world counts the permits it acquired, the calls of
  \<open>release\<close> that raised the count and those that found it at its maximum. A load of \<open>usize::MAX\<close> in
  \<open>release\<close> panics (\<open>current + 1\<close> overflows), so no step follows it.\<close>

datatype sem_pc = Outside | InAcquire | Acquiring usize | InRelease | Releasing usize | Waking

record 'q sem_world =
  the_sem :: "'q Semaphore"
  pc :: "nat \<Rightarrow> sem_pc"
  acquired :: "nat \<Rightarrow> nat"
  released :: "nat \<Rightarrow> nat"
  dropped :: "nat \<Rightarrow> nat"

inductive sem_micro_step :: "('q, nat) queue_ops \<Rightarrow> nat \<Rightarrow> 'q sem_world \<Rightarrow> 'q sem_world \<Rightarrow> bool"
  for Q :: "('q, nat) queue_ops" where
  acquire_call: "pc w t = Outside \<Longrightarrow> sem_micro_step Q t w (w\<lparr>pc := (pc w)(t := InAcquire)\<rparr>)"
| acquire_load: "pc w t = InAcquire \<Longrightarrow> current = permits (the_sem w) \<Longrightarrow>
     sem_micro_step Q t w (w\<lparr>pc := (pc w)(t := if current = 0 then Outside else Acquiring current)\<rparr>)"
| acquire_cas: "pc w t = Acquiring current \<Longrightarrow>
     compare_exchange_weak spurious current (current - 1) (permits (the_sem w)) = (ok, v) \<Longrightarrow>
     sem_micro_step Q t w (w\<lparr>the_sem := (the_sem w)\<lparr>permits := v\<rparr>,
       pc := (pc w)(t := if ok then Outside else InAcquire),
       acquired := (acquired w)(t := acquired w t + (if ok then 1 else 0))\<rparr>)"
| release_call: "pc w t = Outside \<Longrightarrow> sem_micro_step Q t w (w\<lparr>pc := (pc w)(t := InRelease)\<rparr>)"
| release_max: "pc w t = InRelease \<Longrightarrow> current = permits (the_sem w) \<Longrightarrow> current \<noteq> - 1 \<Longrightarrow>
     current = min (current + 1) (max_permits (the_sem w)) \<Longrightarrow>
     sem_micro_step Q t w (w\<lparr>pc := (pc w)(t := Waking), dropped := (dropped w)(t := dropped w t + 1)\<rparr>)"
| release_load: "pc w t = InRelease \<Longrightarrow> current = permits (the_sem w) \<Longrightarrow> current \<noteq> - 1 \<Longrightarrow>
     current \<noteq> min (current + 1) (max_permits (the_sem w)) \<Longrightarrow>
     sem_micro_step Q t w (w\<lparr>pc := (pc w)(t := Releasing current)\<rparr>)"
| release_cas: "pc w t = Releasing current \<Longrightarrow>
     compare_exchange_weak spurious current (min (current + 1) (max_permits (the_sem w)))
       (permits (the_sem w)) = (ok, v) \<Longrightarrow>
     sem_micro_step Q t w (w\<lparr>the_sem := (the_sem w)\<lparr>permits := v\<rparr>,
       pc := (pc w)(t := if ok then Waking else InRelease),
       released := (released w)(t := released w t + (if ok then 1 else 0))\<rparr>)"
| wake: "pc w t = Waking \<Longrightarrow> aq_pop Q (sem_waiters (the_sem w)) = (q, waker) \<Longrightarrow>
     sem_micro_step Q t w (w\<lparr>the_sem := (the_sem w)\<lparr>sem_waiters := q\<rparr>, pc := (pc w)(t := Outside)\<rparr>)"

definition sem_start :: "'q Semaphore \<Rightarrow> 'q sem_world" where
  "sem_start s = \<lparr>the_sem = s, pc = (\<lambda>_. Outside), acquired = (\<lambda>_. 0), released = (\<lambda>_. 0), dropped = (\<lambda>_. 0)\<rparr>"

text \<open>Runs of the tasks below \<open>N\<close>, and among them the runs in which every task calls \<open>release\<close> only
  while it has acquired more permits than it has released, as a task does that releases by dropping
  its \<open>SemaphorePermit\<close>s.\<close>

inductive sem_run :: "('q, nat) queue_ops \<Rightarrow> nat \<Rightarrow> 'q sem_world \<Rightarrow> 'q sem_world \<Rightarrow> bool"
  for Q :: "('q, nat) queue_ops" and N :: nat where
  refl: "sem_run Q N w w"
| step: "sem_run Q N u w \<Longrightarrow> t < N \<Longrightarrow> sem_micro_step Q t w w' \<Longrightarrow> sem_run Q N u w'"

definition holds_permit :: "'q sem_world \<Rightarrow> nat \<Rightarrow> bool" where
  "holds_permit w t \<longleftrightarrow> released w t + dropped w t < acquired w t"

inductive permit_run :: "('q, nat) queue_ops \<Rightarrow> nat \<Rightarrow> 'q sem_world \<Rightarrow> 'q sem_world \<Rightarrow> bool"
  for Q :: "('q, nat) queue_ops" and N :: nat where
  refl: "permit_run Q N w w"
| step: "permit_run Q N u w \<Longrightarrow> t < N \<Longrightarrow> sem_micro_step Q t w w' \<Longrightarrow>
     (pc w t = Outside \<longrightarrow> pc w' t = InRelease \<longrightarrow> holds_permit w t) \<Longrightarrow> permit_run Q N u w'"

section \<open>Mutual exclusion\<close>

lemmas mutex_defs = AsyncMutex_try_lock_def AsyncMutex_wake_next_def AsyncMutexGuard_deref_mut_def
  AsyncMutexGuard_drop_def compare_exchange_def compare_exchange_weak_def

definition exclusive :: "('t, 'q) mutex_world \<Rightarrow> bool" where
  "exclusive w \<longleftrightarrow>
     (\<forall>i j. mtasks w i = MHolding \<longrightarrow> mtasks w j = MHolding \<longrightarrow> i = j)
     \<and> (\<forall>i. mtasks w i = MHolding \<longrightarrow> locked (the_mutex w))"

lemma exclusive_start: "exclusive (mutex_start Q v)"
  by (simp add: exclusive_def mutex_start_def)

lemma poll_cases:
  assumes "AsyncMutexLockFuture_poll Q s1 s2 t fut m = (r, fut', m')"
  obtains (acquired) "r = Ready ()" "\<not> locked m" "locked m'" "mutex_data m' = mutex_data m"
    "mutex_waiters m' = mutex_waiters m
      \<or> (\<not> mutex_registered fut \<and> mutex_waiters m' = fst (aq_push Q (mutex_waiters m) t))"
  | (again) "r = Pending" "mutex_registered fut" "fut' = fut" "m' = m" "locked m \<or> s1 \<and> s2"
  | (registers) "r = Pending" "\<not> mutex_registered fut" "mutex_registered fut'"
    "m' = m\<lparr>mutex_waiters := fst (aq_push Q (mutex_waiters m) t)\<rparr>" "locked m \<or> s1 \<and> s2"
  using assms
  by (auto simp: AsyncMutexLockFuture_poll_def mutex_defs Let_def split: if_splits)

lemma exclusive_step: "mutex_step Q t w w' \<Longrightarrow> exclusive w \<Longrightarrow> exclusive w'"
proof (induction rule: mutex_step.induct)
  case (try_lock w t ok m)
  then show ?case
    by (auto simp: exclusive_def mutex_defs Let_def split: if_splits)
next
  case (poll w t fut s1 s2 r fut' m)
  from poll.hyps(3) poll.prems poll.hyps(1,2) show ?case
    by (cases rule: poll_cases) (auto simp: exclusive_def)
next
  case (unlock w t waker m)
  then show ?case
    by (auto simp: exclusive_def mutex_defs Let_def split: prod.splits) 
qed (auto simp: exclusive_def mutex_defs)

lemma exclusive_run: "mutex_run Q u w \<Longrightarrow> exclusive u \<Longrightarrow> exclusive w"
  by (induction rule: mutex_run.induct) (auto dest: exclusive_step)

lemma mutex_data_step:
  "mutex_step Q t w w' \<Longrightarrow> mutex_data (the_mutex w') \<noteq> mutex_data (the_mutex w) \<Longrightarrow>
     mtasks w t = MHolding"
  by (induction rule: mutex_step.induct)
    (auto simp: mutex_defs Let_def elim: poll_cases split: prod.splits)

section \<open>Waiters\<close>

context array_queue
begin

lemma unlock_times_wakes:
  "fst (unlock_times Q n m) = take n (items (mutex_waiters m))"
proof (induction n arbitrary: m)
  case (Suc n)
  obtain q w where p: "aq_pop Q (mutex_waiters m) = (q, w)" by fastforce
  have "fst (unlock_times Q (Suc n) m)
      = (case w of None \<Rightarrow> [] | Some x \<Rightarrow> [x]) @ take n (items q)"
    using p Suc.IH [of "m\<lparr>locked := False, mutex_waiters := q\<rparr>"]
    by (auto simp: AsyncMutexGuard_drop_def AsyncMutex_wake_next_def split: prod.splits option.splits)
  with p show ?case
    by (cases rule: pop_cases) auto
qed simp

end

text \<open>A task whose lock future is marked as registered, whose waker is in no queue and was not
  called: nobody will poll it again.\<close>

definition stranded :: "('q \<Rightarrow> nat list) \<Rightarrow> nat \<Rightarrow> ('t, 'q) mutex_world \<Rightarrow> bool" where
  "stranded items t w \<longleftrightarrow>
     (\<exists>fut. mtasks w t = MWaiting fut \<and> mutex_registered fut)
     \<and> t \<notin> woken w \<and> t \<notin> set (items (mutex_waiters (the_mutex w)))"

context array_queue
begin

lemma push_other: "y \<notin> set (items q) \<Longrightarrow> y \<noteq> x \<Longrightarrow> y \<notin> set (items (fst (aq_push Q q x)))"
  using set_push [of q x "fst (aq_push Q q x)" "snd (aq_push Q q x)"] by auto

end

lemma stranded_step:
  assumes "array_queue Q items capacity"
  shows "mutex_step Q i w w' \<Longrightarrow> stranded items t w \<Longrightarrow> stranded items t w'"
proof (induction rule: mutex_step.induct)
  case (poll w i fut s1 s2 r fut' m)
  then have "i \<noteq> t" by (auto simp: stranded_def)
  from poll.hyps(3) show ?case
    by (cases rule: poll_cases)
      (use poll \<open>i \<noteq> t\<close> array_queue.push_other [OF assms] in \<open>auto simp: stranded_def\<close>)
next
  case (unlock w i waker m)
  obtain q where q: "aq_pop Q (mutex_waiters (the_mutex w)) = (q, waker)"
    and m: "m = (the_mutex w)\<lparr>locked := False, mutex_waiters := q\<rparr>"
    using unlock.hyps(2) by (auto simp: mutex_defs split: prod.splits)
  from q unlock.hyps(1) unlock.prems m show ?case
    by (cases rule: array_queue.pop_cases [OF assms, consumes 1]) (auto simp: stranded_def)
qed (auto simp: stranded_def mutex_defs Let_def split: if_splits)

lemma stranded_run:
  assumes "array_queue Q items capacity"
  shows "mutex_run Q u w \<Longrightarrow> stranded items t u \<Longrightarrow> stranded items t w"
  by (induction rule: mutex_run.induct) (auto dest: stranded_step [OF assms])

section \<open>Permits\<close>

text \<open>The invariant of all runs: the count is the initial one plus the releases minus the acquisitions, and
  what the tasks have loaded keeps their compare-exchange from under- and overflowing.\<close>

definition permits_balance :: "nat \<Rightarrow> usize \<Rightarrow> usize \<Rightarrow> 'q sem_world \<Rightarrow> bool" where
  "permits_balance N n m w \<longleftrightarrow>
     max_permits (the_sem w) = m \<and> permits (the_sem w) \<le> m
     \<and> unat (permits (the_sem w)) + (\<Sum>t<N. acquired w t) = unat n + (\<Sum>t<N. released w t)
     \<and> (\<forall>t c. pc w t = Acquiring c \<longrightarrow> c \<noteq> 0)
     \<and> (\<forall>t c. pc w t = Releasing c \<longrightarrow> c < m)"

lemma balance_start: "Semaphore_with_max Q n m = Some s \<Longrightarrow> permits_balance N n m (sem_start s)"
  by (auto simp: permits_balance_def sem_start_def Semaphore_with_max_def split: if_splits)

lemma sum_fun_upd_add:
  "t < N \<Longrightarrow> (\<Sum>i<N. (f(t := f t + d)) i) = (\<Sum>i<N. f i) + d" for N d :: nat
proof -
  assume t: "t < N"
  have "(\<Sum>i<N. (f(t := f t + d)) i) = (\<Sum>i<N. f i + (if i = t then d else 0))"
    by (intro sum.cong) auto
  also have "\<dots> = (\<Sum>i<N. f i) + d"
    using t by (simp add: sum.distrib sum.delta)
  finally show ?thesis .
qed

lemma acquire_cas_cases:
  assumes "compare_exchange_weak spurious current (current - 1) p = (ok, v)"
  obtains "ok" "p = current" "v = p - 1" | "\<not> ok" "v = p"
  using assms by (auto simp: compare_exchange_weak_def compare_exchange_def split: if_splits)

lemma release_cas_cases:
  fixes current m :: usize
  assumes "compare_exchange_weak spurious current (min (current + 1) m) p = (ok, v)" "current < m"
  obtains "ok" "p = current" "v = p + 1" | "\<not> ok" "v = p"
  using assms inc_le_of_less [OF assms(2)]
  by (auto simp: compare_exchange_weak_def compare_exchange_def min_def split: if_splits)

lemma below_max:
  fixes c m :: usize
  assumes "c \<le> m" "c \<noteq> - 1" "c \<noteq> min (c + 1) m"
  shows "c < m"
proof (rule ccontr)
  assume "\<not> c < m"
  then have "c = m"
    using assms(1) by simp
  moreover have "c < - 1"
    using assms(2) by (simp add: order.not_eq_order_implies_strict)
  ultimately show False
    using assms(3) unat_inc [of c "- 1"] by (simp add: min_def word_le_nat_alt)
qed

lemma balance_step:
  "sem_micro_step Q t w w' \<Longrightarrow> t < N \<Longrightarrow> permits_balance N n m w \<Longrightarrow> permits_balance N n m w'"
proof (induction rule: sem_micro_step.induct)
  case (acquire_cas w t current sp ok v)
  from acquire_cas(2) show ?case
  proof (cases rule: acquire_cas_cases)
    case 1
    have p: "permits (the_sem w) \<noteq> 0"
      using acquire_cas 1 by (auto simp: permits_balance_def)
    then have "permits (the_sem w) - 1 \<le> permits (the_sem w)"
      using unat_dec [OF p] by (simp add: word_le_nat_alt)
    with acquire_cas.prems 1 p show ?thesis
      using unat_dec [OF p] sum_fun_upd_add [of t N "acquired w" 1]
      by (auto simp: permits_balance_def simp del: fun_upd_apply) (auto split: if_splits)
  next
    case 2
    with acquire_cas.prems show ?thesis
      by (auto simp: permits_balance_def fun_upd_idem)
  qed
next
  case (release_cas w t current sp ok v)
  then have c: "current < m" "max_permits (the_sem w) = m"
    by (auto simp: permits_balance_def)
  from release_cas(2) [unfolded c(2)] c(1) show ?case
  proof (cases rule: release_cas_cases)
    case 1
    with release_cas.prems c show ?thesis
      using unat_inc [OF c(1)] inc_le_of_less [OF c(1)] sum_fun_upd_add [of t N "released w" 1]
      by (auto simp: permits_balance_def simp del: fun_upd_apply) (auto split: if_splits)
  next
    case 2
    with release_cas.prems show ?thesis
      by (auto simp: permits_balance_def fun_upd_idem)
  qed
next
  case (release_load w t current)
  then show ?case
    by (auto simp: permits_balance_def intro: below_max)
qed (auto simp: permits_balance_def)

lemma balance_run: "sem_run Q N u w \<Longrightarrow> permits_balance N n m u \<Longrightarrow> permits_balance N n m w"
  by (induction rule: sem_run.induct) (auto intro: balance_step)

lemma permit_run_run: "permit_run Q N u w \<Longrightarrow> sem_run Q N u w"
  by (induction rule: permit_run.induct) (auto intro: sem_run.intros)

text \<open>The invariant of the runs of permit holders: a task that is in \<open>release\<close> holds a permit, so the
  count is below its maximum there and no release is dropped.\<close>

fun in_release :: "sem_pc \<Rightarrow> bool" where
  "in_release InRelease = True"
| "in_release (Releasing c) = True"
| "in_release _ = False"

definition releases_held :: "'q sem_world \<Rightarrow> bool" where
  "releases_held w \<longleftrightarrow> (\<forall>t. dropped w t = 0 \<and> released w t \<le> acquired w t
     \<and> (in_release (pc w t) \<longrightarrow> released w t < acquired w t))"

lemma balance_below:
  assumes "permits_balance N n n w" "releases_held w" "t < N" "released w t < acquired w t"
  shows "permits (the_sem w) < n"
proof -
  have "(\<Sum>t<N. released w t) < (\<Sum>t<N. acquired w t)"
    using assms(2-4) by (intro sum_strict_mono_ex1) (auto simp: releases_held_def)
  with assms(1) show ?thesis
    by (auto simp: permits_balance_def word_less_nat_alt)
qed

lemma releases_held_step:
  assumes "sem_micro_step Q t w w'" "t < N" "permits_balance N n n w" "releases_held w"
    and "pc w t = Outside \<longrightarrow> pc w' t = InRelease \<longrightarrow> holds_permit w t"
  shows "releases_held w'"
  using assms
proof (induction rule: sem_micro_step.induct)
  case (release_max w t current)
  have "released w t < acquired w t"
    using release_max(1,7) by (auto simp: releases_held_def)
  then have "current < n"
    using balance_below release_max by blast
  with release_max(2,4,6) show ?case
    using inc_le_of_less [of current n] unat_inc [of current n] by (auto simp: permits_balance_def min_def)
next
  case (release_cas w t current sp ok v)
  then have "released w t < acquired w t"
    by (auto simp: releases_held_def)
  then show ?case
    using release_cas(5) by (simp add: releases_held_def)
qed (auto simp: releases_held_def holds_permit_def le_SucI)

lemma releases_held_run:
  "permit_run Q N u w \<Longrightarrow> permits_balance N n n u \<Longrightarrow> releases_held u \<Longrightarrow> releases_held w"
proof (induction rule: permit_run.induct)
  case (step u w t w')
  have "permits_balance N n n w"
    using balance_run [OF permit_run_run [OF step(1)]] step by blast
  with step show ?case
    by (intro releases_held_step [OF step(3)]) auto
qed auto

section \<open>A schedule that strands a waiter\<close>

text \<open>The states of the schedule: task 0 holds the lock, task 1 registers, task 0 drops its guard and
  wakes task 1, task 2 takes the lock first, task 1 is polled in vain, task 2 drops its guard.\<close>

abbreviation mworld :: "'t \<Rightarrow> bool \<Rightarrow> 'q \<Rightarrow> (nat \<Rightarrow> mutex_task) \<Rightarrow> nat set \<Rightarrow> ('t, 'q) mutex_world" where
  "mworld v l q ts ws \<equiv>
     \<lparr>the_mutex = \<lparr>mutex_data = v, locked = l, mutex_waiters = q\<rparr>, mtasks = ts, woken = ws\<rparr>"

lemma step_try_lock:
  "ts t = MIdle \<Longrightarrow> mutex_step Q t (mworld v False q ts ws) (mworld v True q (ts(t := MHolding)) ws)"
  using mutex_step.try_lock [of "mworld v False q ts ws" t True "\<lparr>mutex_data = v, locked = True, mutex_waiters = q\<rparr>" Q]
  by (simp add: mutex_defs)

lemma step_lock:
  "ts t = MIdle \<Longrightarrow> mutex_step Q t (mworld v l q ts ws)
     (mworld v l q (ts(t := MWaiting \<lparr>mutex_registered = False\<rparr>)) (insert t ws))"
  using mutex_step.lock [of "mworld v l q ts ws" t Q] by (simp add: AsyncMutex_lock_def)

lemma step_register:
  "ts t = MWaiting \<lparr>mutex_registered = False\<rparr> \<Longrightarrow> t \<in> ws \<Longrightarrow>
     mutex_step Q t (mworld v True q ts ws)
       (mworld v True (fst (aq_push Q q t)) (ts(t := MWaiting \<lparr>mutex_registered = True\<rparr>)) (ws - {t}))"
  using mutex_step.poll [of "mworld v True q ts ws" t "\<lparr>mutex_registered = False\<rparr>" Q False False Pending
      "\<lparr>mutex_registered = True\<rparr>" "\<lparr>mutex_data = v, locked = True, mutex_waiters = fst (aq_push Q q t)\<rparr>"]
  by (simp add: AsyncMutexLockFuture_poll_def mutex_defs)

lemma step_poll_in_vain:
  "ts t = MWaiting \<lparr>mutex_registered = True\<rparr> \<Longrightarrow> t \<in> ws \<Longrightarrow>
     mutex_step Q t (mworld v True q ts ws)
       (mworld v True q (ts(t := MWaiting \<lparr>mutex_registered = True\<rparr>)) (ws - {t}))"
  using mutex_step.poll [of "mworld v True q ts ws" t "\<lparr>mutex_registered = True\<rparr>" Q False False Pending
      "\<lparr>mutex_registered = True\<rparr>" "\<lparr>mutex_data = v, locked = True, mutex_waiters = q\<rparr>"]
  by (simp add: AsyncMutexLockFuture_poll_def mutex_defs)

lemma step_unlock:
  "ts t = MHolding \<Longrightarrow> aq_pop Q q = (q', w) \<Longrightarrow>
     mutex_step Q t (mworld v True q ts ws) (mworld v False q' (ts(t := MIdle)) (ws \<union> set_option w))"
  using mutex_step.unlock [of "mworld v True q ts ws" t Q w "\<lparr>mutex_data = v, locked = False, mutex_waiters = q'\<rparr>"]
  by (simp add: mutex_defs)

lemma stranding_run:
  assumes q: "array_queue Q items capacity"
  shows "\<exists>w. mutex_run Q (mutex_start Q v) w \<and> \<not> locked (the_mutex w) \<and> stranded items 1 w"
proof -
  define q0 where "q0 = aq_new Q MAX_WAITERS"
  have "items q0 = []" "length (items q0) < capacity q0"
    using array_queue.items_new [OF q, of MAX_WAITERS] array_queue.capacity_new [OF q, of MAX_WAITERS]
    by (simp_all add: q0_def MAX_WAITERS_def)
  with array_queue.push_room [OF q this(2), of 1] obtain q1
    where q1: "aq_push Q q0 1 = (q1, True)" "items q1 = [1]" by auto
  with array_queue.pop_some [OF q this(2)] obtain q2
    where q2: "aq_pop Q q1 = (q2, Some 1)" "items q2 = []" by auto
  have q3: "aq_pop Q q2 = (q2, None)"
    using array_queue.pop_none [OF q q2(2)] .
  let ?F = "MWaiting \<lparr>mutex_registered = False\<rparr>" and ?T = "MWaiting \<lparr>mutex_registered = True\<rparr>"
  have "mutex_run Q (mutex_start Q v) (mworld v False q0 (\<lambda>_. MIdle) {})"
    unfolding mutex_start_def AsyncMutex_new_def q0_def by (rule mutex_run.refl)
  then have "mutex_run Q (mutex_start Q v) (mworld v True q0 ((\<lambda>_. MIdle)(0 := MHolding)) {})"
    by (rule mutex_run.step [OF _ step_try_lock]) simp
  then have "mutex_run Q (mutex_start Q v) (mworld v True q0 ((\<lambda>_. MIdle)(0 := MHolding, 1 := ?F)) {1})"
    by (rule mutex_run.step [OF _ step_lock]) simp
  from mutex_run.step [OF this step_register [where t = 1]]
  have "mutex_run Q (mutex_start Q v) (mworld v True q1 ((\<lambda>_. MIdle)(0 := MHolding, 1 := ?T)) {})"
    using q1(1) by simp
  from mutex_run.step [OF this step_unlock [where t = 0, OF _ q2(1)]]
  have "mutex_run Q (mutex_start Q v) (mworld v False q2 ((\<lambda>_. MIdle)(1 := ?T)) {1})"
    by (simp add: fun_upd_twist fun_upd_idem)
  from mutex_run.step [OF this step_try_lock [where t = 2]]
  have "mutex_run Q (mutex_start Q v) (mworld v True q2 ((\<lambda>_. MIdle)(1 := ?T, 2 := MHolding)) {1})"
    by simp
  from mutex_run.step [OF this step_poll_in_vain [where t = 1]]
  have "mutex_run Q (mutex_start Q v) (mworld v True q2 ((\<lambda>_. MIdle)(1 := ?T, 2 := MHolding)) {})"
    by (simp add: fun_upd_idem)
  from mutex_run.step [OF this step_unlock [where t = 2, OF _ q3]]
  have "mutex_run Q (mutex_start Q v) (mworld v False q2 ((\<lambda>_. MIdle)(1 := ?T)) {})"
    by (simp add: fun_upd_idem)
  moreover have "stranded items 1 (mworld v False q2 ((\<lambda>_. MIdle)(1 := ?T)) {})"
    using q2(2) by (simp add: stranded_def)
  ultimately show ?thesis by force
qed

section \<open>Properties\<close>

text \<open>C13: The mutex excludes: in every schedule of any number of tasks, whenever a step of a task changes
  the protected data, that task holds the lock and no other task does.\<close>

theorem mutex_exclusive:
  assumes "mutex_run Q (mutex_start Q v) w" and "mutex_step Q t w w'"
    and "mutex_data (the_mutex w') \<noteq> mutex_data (the_mutex w)"
  shows "locked (the_mutex w) \<and> mtasks w t = MHolding \<and> (\<forall>j. mtasks w j = MHolding \<longrightarrow> j = t)"
  using mutex_data_step [OF assms(2,3)] exclusive_run [OF assms(1) exclusive_start]
  by (auto simp: exclusive_def)

theorem mutex_exclusive_witness:
  "\<exists>w. mutex_run list_queue_ops (mutex_start list_queue_ops (0::nat)) w
     \<and> mtasks w 5 = MHolding \<and> (\<forall>j. mtasks w j = MHolding \<longrightarrow> j = 5)"
proof -
  let ?q = "aq_new list_queue_ops MAX_WAITERS :: nat \<times> nat list"
  let ?w = "mworld (0::nat) True ?q ((\<lambda>_. MIdle)(5 := MHolding)) {}"
  have run: "mutex_run list_queue_ops (mutex_start list_queue_ops (0::nat)) ?w"
    unfolding mutex_start_def AsyncMutex_new_def
    by (rule mutex_run.step [OF mutex_run.refl step_try_lock]) simp
  have step: "mutex_step list_queue_ops 5 ?w
      (?w\<lparr>the_mutex := AsyncMutexGuard_deref_mut (the_mutex ?w) Suc\<rparr>)"
    by (rule mutex_step.modify) simp
  have "locked (the_mutex ?w) \<and> mtasks ?w 5 = MHolding \<and> (\<forall>j. mtasks ?w j = MHolding \<longrightarrow> j = 5)"
    by (rule mutex_exclusive [OF run step]) (simp add: AsyncMutexGuard_deref_mut_def)
  with run show ?thesis by blast
qed

text \<open>Waiters are woken first come, first served: the guards dropped from some moment on wake the tasks
  of the waiter queue one by one in the order in which they registered.\<close>

theorem waiters_woken_in_order:
  assumes "array_queue Q items capacity"
  shows "fst (unlock_times Q n m) = take n (items (mutex_waiters m))"
  using assms by (rule array_queue.unlock_times_wakes)

theorem waiters_woken_in_order_witness:
  "fst (unlock_times list_queue_ops 2
     \<lparr>mutex_data = (), locked = True, mutex_waiters = (100, [4, 7, 5 :: nat])\<rparr>) = [4, 7]"
  using waiters_woken_in_order [OF lq.array_queue_axioms, of 2
      "\<lparr>mutex_data = (), locked = True, mutex_waiters = (100, [4, 7, 5 :: nat])\<rparr>"]
  by simp

text \<open>C31: The lock future loses wake-ups: it registers its waker once and never again, so there is a
  schedule after which the lock is free while a task waits for it whose waker is in no queue, and
  whatever the tasks do from then on, that task is never polled again.\<close>

theorem lock_wakeup_lost:
  assumes "array_queue Q items capacity"
  shows "\<exists>w. mutex_run Q (mutex_start Q v) w \<and> \<not> locked (the_mutex w)
    \<and> (\<forall>w'. mutex_run Q w w' \<longrightarrow> (\<exists>fut. mtasks w' 1 = MWaiting fut) \<and> 1 \<notin> woken w')"
proof -
  obtain w where w: "mutex_run Q (mutex_start Q v) w" "\<not> locked (the_mutex w)" "stranded items 1 w"
    using stranding_run [OF assms, of v] by (elim exE conjE) (rule that)
  have "(\<exists>fut. mtasks w' 1 = MWaiting fut) \<and> 1 \<notin> woken w'" if "mutex_run Q w w'" for w'
    using stranded_run [OF assms that w(3)] by (auto simp: stranded_def)
  then show ?thesis
    using w(1,2) by (intro exI [of _ w]) simp
qed

theorem lock_wakeup_lost_witness:
  "\<exists>w. mutex_run list_queue_ops (mutex_start list_queue_ops ()) w \<and> \<not> locked (the_mutex w)
    \<and> (\<forall>w'. mutex_run list_queue_ops w w' \<longrightarrow> (\<exists>fut. mtasks w' 1 = MWaiting fut) \<and> 1 \<notin> woken w')"
  by (rule lock_wakeup_lost [OF lq.array_queue_axioms])

text \<open>C14: Permits are conserved: however the atomic instructions of the tasks interleave, however often
  compare-exchange fails and whoever calls \<open>release\<close>, the count of available permits is the initial
  one plus the calls of \<open>release\<close> that raised it minus the permits acquired, and it never exceeds the
  maximum.\<close>

theorem permits_conserved:
  assumes "Semaphore_with_max Q n m = Some s" "sem_run Q N (sem_start s) w"
  shows "unat (available_permits (the_sem w)) + (\<Sum>t<N. acquired w t) = unat n + (\<Sum>t<N. released w t)
    \<and> available_permits (the_sem w) \<le> m"
  using balance_run [OF assms(2) balance_start [OF assms(1)]]
  by (simp add: permits_balance_def available_permits_def)

definition demo_sem :: "(nat \<times> nat list) Semaphore" where
  "demo_sem = \<lparr>permits = 1, max_permits = 3, sem_waiters = aq_new list_queue_ops MAX_WAITERS\<rparr>"

lemma demo_sem_new: "Semaphore_with_max list_queue_ops 1 3 = Some demo_sem"
  by (simp add: Semaphore_with_max_def demo_sem_def)

lemma min_two_three: "min (1 + 1) 3 = (2 :: usize)"
  by (simp add: min_def)

text \<open>A task releases without having acquired anything.\<close>

theorem permits_conserved_witness:
  "\<exists>w. sem_run list_queue_ops 2 (sem_start demo_sem) w \<and> released w 1 = 1
     \<and> unat (available_permits (the_sem w)) + (\<Sum>t<2. acquired w t) = unat (1 :: usize) + (\<Sum>t<2. released w t)"
proof -
  let ?w = "sem_start demo_sem"
  let ?w1 = "?w\<lparr>pc := (pc ?w)(1 := InRelease)\<rparr>"
  let ?w2 = "?w1\<lparr>pc := (pc ?w1)(1 := Releasing 1)\<rparr>"
  let ?w3 = "?w2\<lparr>the_sem := (the_sem ?w2)\<lparr>permits := 2\<rparr>, pc := (pc ?w2)(1 := if True then Waking else InRelease),
       released := (released ?w2)(1 := released ?w2 1 + (if True then 1 else 0))\<rparr>"
  have s1: "sem_micro_step list_queue_ops 1 ?w ?w1"
    by (rule sem_micro_step.release_call) (simp add: sem_start_def)
  have s2: "sem_micro_step list_queue_ops 1 ?w1 ?w2"
    by (rule sem_micro_step.release_load) (simp_all add: sem_start_def demo_sem_def min_two_three)
  have s3: "sem_micro_step list_queue_ops 1 ?w2 ?w3"
    by (rule sem_micro_step.release_cas [where spurious = False and current = 1])
      (simp_all add: sem_start_def demo_sem_def min_two_three compare_exchange_weak_def compare_exchange_def)
  have run: "sem_run list_queue_ops 2 ?w ?w3"
    by (rule sem_run.step [OF sem_run.step [OF sem_run.step [OF sem_run.refl _ s1] _ s2] _ s3]) simp_all
  moreover have "released ?w3 1 = 1"
    by (simp add: sem_start_def)
  ultimately show ?thesis
    using permits_conserved [OF demo_sem_new run] by blast
qed

text \<open>C16: Tasks that release only the permits they acquired lose none: no call of \<open>release\<close> finds the count
  at its maximum, and the permits available and those held always add up to the number the semaphore was
  created with.\<close>

theorem permit_holders_lose_none:
  assumes "permit_run Q N (sem_start (Semaphore_new Q n)) w"
  shows "unat (available_permits (the_sem w)) + (\<Sum>t<N. acquired w t - released w t) = unat n
    \<and> (\<forall>t. released w t \<le> acquired w t \<and> dropped w t = 0)"
proof -
  have new: "Semaphore_with_max Q n n = Some (Semaphore_new Q n)"
    by (simp add: Semaphore_with_max_def Semaphore_new_def)
  have "releases_held (sem_start (Semaphore_new Q n))"
    by (simp add: releases_held_def sem_start_def)
  then have h: "releases_held w"
    using releases_held_run [OF assms balance_start [OF new]] by blast
  have "(\<Sum>t<N. acquired w t - released w t) = (\<Sum>t<N. acquired w t) - (\<Sum>t<N. released w t)"
    using h by (intro sum_subtractf_nat) (auto simp: releases_held_def)
  moreover have "(\<Sum>t<N. released w t) \<le> (\<Sum>t<N. acquired w t)"
    using h by (intro sum_mono) (auto simp: releases_held_def)
  ultimately show ?thesis
    using balance_run [OF permit_run_run [OF assms] balance_start [OF new]] h
    by (auto simp: permits_balance_def available_permits_def releases_held_def)
qed

theorem permit_holders_lose_none_witness:
  "\<exists>w. permit_run list_queue_ops 2 (sem_start (Semaphore_new list_queue_ops 3)) w \<and> acquired w 1 = 1
     \<and> unat (available_permits (the_sem w)) + (\<Sum>t<2. acquired w t - released w t) = unat (3 :: usize)"
proof -
  let ?w = "sem_start (Semaphore_new list_queue_ops 3) :: (nat \<times> nat list) sem_world"
  let ?w1 = "?w\<lparr>pc := (pc ?w)(1 := InAcquire)\<rparr>"
  let ?w2 = "?w1\<lparr>pc := (pc ?w1)(1 := if (3 :: usize) = 0 then Outside else Acquiring 3)\<rparr>"
  let ?w3 = "?w2\<lparr>the_sem := (the_sem ?w2)\<lparr>permits := 2\<rparr>, pc := (pc ?w2)(1 := if True then Outside else InAcquire),
       acquired := (acquired ?w2)(1 := acquired ?w2 1 + (if True then 1 else 0))\<rparr>"
  have s1: "sem_micro_step list_queue_ops 1 ?w ?w1"
    by (rule sem_micro_step.acquire_call) (simp add: sem_start_def)
  have s2: "sem_micro_step list_queue_ops 1 ?w1 ?w2"
    by (rule sem_micro_step.acquire_load) (simp_all add: sem_start_def Semaphore_new_def)
  have s3: "sem_micro_step list_queue_ops 1 ?w2 ?w3"
    by (rule sem_micro_step.acquire_cas [where spurious = False])
      (simp_all add: sem_start_def Semaphore_new_def compare_exchange_weak_def compare_exchange_def)
  have run: "permit_run list_queue_ops 2 ?w ?w3"
    by (rule permit_run.step [OF permit_run.step [OF permit_run.step [OF permit_run.refl _ s1] _ s2] _ s3])
      (simp_all add: sem_start_def)
  moreover have "acquired ?w3 1 = 1"
    by (simp add: sem_start_def)
  ultimately show ?thesis
    using permit_holders_lose_none [OF run] by blast
qed

end
