(* ===== verification/BTree_Map.thy ===== *)
theory BTree_Map
  imports Prelude
begin

text \<open>
  \<open>alloc::collections::BTreeMap\<close>: the ordered map the kernel keeps its tables in. The model
  is the list of entries in ascending key order, which is what iteration over the map yields.
  The interface the other components rely on is the locale \<open>ordered_map\<close>; the list
  implementation is its instance \<open>bt\<close>.
\<close>

type_synonym ('k, 'v) btreemap = "('k \<times> 'v) list"

abbreviation bt_get :: "('k, 'v) btreemap \<Rightarrow> 'k \<Rightarrow> 'v option" where
  "bt_get m k \<equiv> map_of m k"

fun bt_insert :: "'k::linorder \<Rightarrow> 'v \<Rightarrow> ('k, 'v) btreemap \<Rightarrow> ('k, 'v) btreemap" where
  "bt_insert k v [] = [(k, v)]"
| "bt_insert k v (e # m) =
     (if fst e < k then e # bt_insert k v m
      else if fst e = k then (k, v) # m
      else (k, v) # e # m)"

definition bt_remove :: "'k \<Rightarrow> ('k, 'v) btreemap \<Rightarrow> ('k, 'v) btreemap" where
  "bt_remove k m = filter (\<lambda>e. fst e \<noteq> k) m"

definition bt_contains_key :: "('k, 'v) btreemap \<Rightarrow> 'k \<Rightarrow> bool" where
  "bt_contains_key m k \<longleftrightarrow> bt_get m k \<noteq> None"

definition bt_values :: "('k, 'v) btreemap \<Rightarrow> 'v list" where
  "bt_values m = map snd m"

definition bt_sorted :: "('k::linorder, 'v) btreemap \<Rightarrow> bool" where
  "bt_sorted m \<longleftrightarrow> sorted_wrt (<) (map fst m)"

section \<open>The list implementation\<close>

lemma bt_get_insert: "bt_get (bt_insert k v m) = (map_of m)(k \<mapsto> v)"
  by (induction m) (auto simp: fun_eq_iff)

lemma bt_get_remove: "bt_get (bt_remove k m) = (map_of m)(k := None)"
  by (induction m) (auto simp: bt_remove_def fun_eq_iff)

lemma set_keys_bt_insert: "fst ` set (bt_insert k v m) = insert k (fst ` set m)"
  by (induction m) auto

lemma bt_sorted_Nil: "bt_sorted []"
  by (simp add: bt_sorted_def)

lemma bt_sorted_insert: "bt_sorted m \<Longrightarrow> bt_sorted (bt_insert k v m)"
proof (induction m)
  case Nil
  then show ?case by (simp add: bt_sorted_def)
next
  case (Cons e m)
  have keys: "set (map fst (bt_insert k v m)) = insert k (set (map fst m))"
    using set_keys_bt_insert [of k v m] by simp
  from Cons show ?case
    by (cases "fst e" k rule: linorder_cases) (auto simp: bt_sorted_def keys [simplified])
qed

lemma bt_sorted_remove: "bt_sorted m \<Longrightarrow> bt_sorted (bt_remove k m)"
  by (induction m) (auto simp: bt_sorted_def bt_remove_def)

lemma bt_sorted_distinct: "bt_sorted m \<Longrightarrow> distinct (map fst m)"
  by (simp add: bt_sorted_def strict_sorted_iff)

section \<open>The interface\<close>

locale ordered_map =
  fixes empty :: 'm
    and get :: "'m \<Rightarrow> 'k::linorder \<Rightarrow> 'v option"
    and insert :: "'k \<Rightarrow> 'v \<Rightarrow> 'm \<Rightarrow> 'm"
    and remove :: "'k \<Rightarrow> 'm \<Rightarrow> 'm"
    and entries :: "'m \<Rightarrow> ('k \<times> 'v) list"
    and invar :: "'m \<Rightarrow> bool"
  assumes get_empty: "get empty k = None"
    and get_insert: "get (insert k v m) = (get m)(k \<mapsto> v)"
    and get_remove: "get (remove k m) = (get m)(k := None)"
    and entries_get: "invar m \<Longrightarrow> (k, v) \<in> set (entries m) \<longleftrightarrow> get m k = Some v"
    and entries_sorted: "invar m \<Longrightarrow> sorted_wrt (<) (map fst (entries m))"
    and invar_empty: "invar empty"
    and invar_insert: "invar m \<Longrightarrow> invar (insert k v m)"
    and invar_remove: "invar m \<Longrightarrow> invar (remove k m)"
begin

lemma get_insert_same: "get (insert k v m) k = Some v"
  by (simp add: get_insert)

lemma get_insert_other: "k' \<noteq> k \<Longrightarrow> get (insert k v m) k' = get m k'"
  by (simp add: get_insert)

lemma get_remove_same: "get (remove k m) k = None"
  by (simp add: get_remove)

lemma get_remove_other: "k' \<noteq> k \<Longrightarrow> get (remove k m) k' = get m k'"
  by (simp add: get_remove)

lemma keys_entries: "invar m \<Longrightarrow> set (map fst (entries m)) = dom (get m)"
proof (rule set_eqI)
  fix k
  assume "invar m"
  moreover have "k \<in> set (map fst (entries m)) \<longleftrightarrow> (\<exists>v. (k, v) \<in> set (entries m))"
    by force
  ultimately show "k \<in> set (map fst (entries m)) \<longleftrightarrow> k \<in> dom (get m)"
    by (simp add: entries_get dom_def)
qed

lemma distinct_keys: "invar m \<Longrightarrow> distinct (map fst (entries m))"
  using entries_sorted [of m] by (simp add: strict_sorted_iff)

lemma length_entries: "invar m \<Longrightarrow> length (entries m) = card (dom (get m))"
  using distinct_card [OF distinct_keys] keys_entries by (metis length_map)

lemma finite_dom: "invar m \<Longrightarrow> finite (dom (get m))"
  using keys_entries by (metis List.finite_set)

lemma length_insert_fresh:
  assumes "invar m" and "get m k = None"
  shows "length (entries (insert k v m)) = Suc (length (entries m))"
proof -
  have "dom (get (insert k v m)) = Set.insert k (dom (get m))"
    by (simp add: get_insert)
  moreover have "k \<notin> dom (get m)"
    using assms(2) by (simp add: domIff)
  ultimately show ?thesis
    using assms(1) by (simp add: length_entries invar_insert finite_dom)
qed

lemma length_remove_present:
  assumes "invar m" and "get m k \<noteq> None"
  shows "Suc (length (entries (remove k m))) = length (entries m)"
proof -
  have "dom (get (remove k m)) = dom (get m) - {k}"
    by (auto simp: get_remove)
  moreover have "k \<in> dom (get m)"
    using assms(2) by (simp add: domIff)
  ultimately show ?thesis
    using assms(1) card.remove [OF finite_dom [OF assms(1)], of k]
    by (simp add: length_entries invar_remove)
qed

lemma insert_remove_fresh:
  "get m k = None \<Longrightarrow> get (remove k (insert k v m)) = get m"
  by (simp add: get_insert get_remove fun_upd_idem)

end

interpretation bt: ordered_map "[]" map_of bt_insert bt_remove "\<lambda>m. m" bt_sorted
proof unfold_locales
  show "(k, v) \<in> set m \<longleftrightarrow> map_of m k = Some v" if "bt_sorted m"
    for m :: "('a \<times> 'b) list" and k v
    using bt_sorted_distinct [OF that] by simp
qed (simp_all add: bt_get_insert bt_get_remove bt_sorted_Nil bt_sorted_insert bt_sorted_remove,
     simp_all add: bt_sorted_def)

lemmas bt_simps [simp] =
  bt_get_insert bt_get_remove bt_sorted_Nil

lemmas [intro, inv_intros] = bt_sorted_insert bt_sorted_remove

lemma bt_contains_key_insert [simp]:
  "bt_contains_key (bt_insert k v m) k' \<longleftrightarrow> k' = k \<or> bt_contains_key m k'"
  by (simp add: bt_contains_key_def)

lemma bt_insert_same_twice: "bt_insert k v (bt_insert k w m) = bt_insert k v m"
  by (induction m) auto

end
