(* ===== verification/Capabilities.thy ===== *)
theory Capabilities
  imports BTree_Map
begin

text \<open>
  The capability vocabulary of \<open>src/src/common/src/capability.rs\<close> and the kernel's system-wide
  table of \<open>src/src/kernel/src/capability/mod.rs\<close>. The two static atomic counters that number
  capabilities are explicit state: each operation that draws an identifier takes the counter's
  value and returns the next one, wrapping at 32 bits as \<open>fetch_add\<close> does.
\<close>

section \<open>Identifiers\<close>

datatype CapId = CapId (cap_index: u32) (cap_generation: u32)

definition CapId_from_u64 :: "u64 \<Rightarrow> CapId" where
  "CapId_from_u64 val = CapId (ucast (val AND 0xFFFFFFFF)) (ucast (drop_bit 32 val))"

definition CapId_as_u64 :: "CapId \<Rightarrow> u64" where
  "CapId_as_u64 c = push_bit 32 (ucast (cap_generation c)) OR ucast (cap_index c)"

definition CapId_next :: "u32 \<Rightarrow> CapId \<times> u32" where
  "CapId_next next_index = (let (n, next_index') = fetch_add_one next_index in (CapId n 0, next_index'))"

definition CAP_ID_FIRST_INDEX :: u32 where
  "CAP_ID_FIRST_INDEX = 100"

text \<open>The derived \<open>Ord\<close>: lexicographic in the order of the fields.\<close>

instantiation CapId :: linorder
begin

definition less_eq_CapId :: "CapId \<Rightarrow> CapId \<Rightarrow> bool" where
  "a \<le> b \<longleftrightarrow> cap_index a < cap_index b
     \<or> cap_index a = cap_index b \<and> cap_generation a \<le> cap_generation b"

definition less_CapId :: "CapId \<Rightarrow> CapId \<Rightarrow> bool" where
  "a < b \<longleftrightarrow> cap_index a < cap_index b
     \<or> cap_index a = cap_index b \<and> cap_generation a < cap_generation b"

instance
  by standard (auto simp: less_eq_CapId_def less_CapId_def CapId.expand)

end

section \<open>Rights and capabilities\<close>

text \<open>The \<open>bitflags!\<close> type is its 32 bits; union, intersection and \<open>contains\<close> are bitwise.\<close>

type_synonym CapabilityRights = u32

definition READ :: CapabilityRights where "READ = push_bit 0 1"
definition WRITE :: CapabilityRights where "WRITE = push_bit 1 1"
definition EXECUTE :: CapabilityRights where "EXECUTE = push_bit 2 1"
definition GRANT :: CapabilityRights where "GRANT = push_bit 3 1"
definition CALL :: CapabilityRights where "CALL = push_bit 4 1"

definition rights_contains :: "CapabilityRights \<Rightarrow> CapabilityRights \<Rightarrow> bool" where
  "rights_contains r s \<longleftrightarrow> r AND s = s"

datatype CapabilityType =
    Memory (mem_start: usize) (mem_size: usize)
  | Serial (serial_port: u16)
  | Timer
  | Interrupt (irq: u8)
  | Network u32
  | Directory u64
  | File u64
  | Mutex u64
  | Semaphore u64

record Capability =
  cap_id :: CapId
  cap_rights :: CapabilityRights
  cap_object :: CapabilityType
  cap_gen :: u64

definition Capability_new ::
  "u32 \<Rightarrow> CapabilityType \<Rightarrow> CapabilityRights \<Rightarrow> Capability \<times> u32" where
  "Capability_new next_index object rights =
     (let (n, next_index') = fetch_add_one next_index
      in (\<lparr>cap_id = CapId n 0, cap_rights = rights, cap_object = object, cap_gen = 0\<rparr>,
          next_index'))"

section \<open>The kernel's capability table\<close>

record CapToken =
  tok_id :: CapId
  resource :: CapabilityType
  owner_task_id :: "u64 option"

datatype CapError = CapNotFound | CapPermissionDenied

record CapabilityTable =
  caps :: "(CapId, CapToken) btreemap"

definition CapabilityTable_new :: CapabilityTable where
  "CapabilityTable_new = \<lparr>caps = []\<rparr>"

definition grant ::
  "u32 \<Rightarrow> CapabilityTable \<Rightarrow> CapabilityType \<Rightarrow> u64 option \<Rightarrow> CapId \<times> CapabilityTable \<times> u32" where
  "grant next_index t res owner =
     (let (i, next_index') = CapId_next next_index;
          cap = \<lparr>tok_id = i, resource = res, owner_task_id = owner\<rparr>
      in (i, t\<lparr>caps := bt_insert i cap (caps t)\<rparr>, next_index'))"

definition revoke :: "CapabilityTable \<Rightarrow> CapId \<Rightarrow> (CapError + unit) \<times> CapabilityTable" where
  "revoke t i =
     (let t' = t\<lparr>caps := bt_remove i (caps t)\<rparr>
      in if bt_get (caps t) i \<noteq> None then (Inr (), t') else (Inl CapNotFound, t'))"

definition has_access :: "CapabilityTable \<Rightarrow> u64 \<Rightarrow> CapId \<Rightarrow> bool" where
  "has_access t task i =
     (case bt_get (caps t) i of
        Some cap \<Rightarrow> owner_task_id cap = Some task
      | None \<Rightarrow> False)"

text \<open>
  A history of the table: the calls it has served, latest first, with the identifier each
  \<open>grant\<close> returned. \<open>table_after\<close> runs the calls; \<open>granted_to\<close> is the specification of access
  that mentions the history only.
\<close>

datatype table_call = Grant CapabilityType "u64 option" | Revoke CapId

fun table_after :: "table_call list \<Rightarrow> CapabilityTable \<times> u32" where
  "table_after [] = (CapabilityTable_new, CAP_ID_FIRST_INDEX)"
| "table_after (Grant res owner # h) =
     (let (t, n) = table_after h; (i, t', n') = grant n t res owner in (t', n'))"
| "table_after (Revoke i # h) =
     (let (t, n) = table_after h in (snd (revoke t i), n))"

fun grant_count :: "table_call list \<Rightarrow> nat" where
  "grant_count [] = 0"
| "grant_count (Grant res owner # h) = Suc (grant_count h)"
| "grant_count (Revoke i # h) = grant_count h"

text \<open>The owner the history gives to an identifier: numbered by its grant, lost by a revocation.\<close>

fun granted_to :: "table_call list \<Rightarrow> CapId \<Rightarrow> u64 option" where
  "granted_to [] i = None"
| "granted_to (Grant res owner # h) i =
     (if i = CapId (CAP_ID_FIRST_INDEX + word_of_nat (grant_count h)) 0 then owner
      else granted_to h i)"
| "granted_to (Revoke j # h) i = (if i = j then None else granted_to h i)"

section \<open>Lemmas on identifiers and rights\<close>

lemma low_word_mask: "(0xFFFFFFFF :: u64) = mask 32"
  by (simp add: mask_eq_exp_minus_1)

lemma bit_CapId_as_u64:
  "bit (CapId_as_u64 c) k \<longleftrightarrow>
     (if k < 32 then bit (cap_index c) k else bit (cap_generation c) (k - 32))"
  unfolding CapId_as_u64_def
  by (auto simp: bit_simps dest: bit_imp_le_length)

lemma CapId_from_as_u64 [simp]: "CapId_from_u64 (CapId_as_u64 c) = c"
proof -
  have "ucast (CapId_as_u64 c AND 0xFFFFFFFF) = cap_index c"
    unfolding low_word_mask by (rule bit_eqI) (auto simp: bit_simps bit_CapId_as_u64)
  moreover have "ucast (drop_bit 32 (CapId_as_u64 c)) = cap_generation c"
    by (rule bit_eqI) (auto simp: bit_simps bit_CapId_as_u64)
  ultimately show ?thesis
    by (simp add: CapId_from_u64_def)
qed

lemma CapId_as_from_u64 [simp]: "CapId_as_u64 (CapId_from_u64 v) = v"
proof (rule bit_eqI)
  fix k
  show "bit (CapId_as_u64 (CapId_from_u64 v)) k \<longleftrightarrow> bit v k"
    unfolding bit_CapId_as_u64 CapId_from_u64_def low_word_mask
    by (auto simp: bit_simps dest: bit_imp_le_length)
qed

lemma rights_contains_iff: "rights_contains r s \<longleftrightarrow> (\<forall>k. bit s k \<longrightarrow> bit r k)"
proof -
  have "rights_contains r s \<longleftrightarrow> (\<forall>k. bit (r AND s) k \<longleftrightarrow> bit s k)"
    unfolding rights_contains_def by (auto intro: bit_eqI)
  then show ?thesis
    by (auto simp: bit_and_iff)
qed

lemma rights_contains_refl [simp]: "rights_contains r r"
  by (simp add: rights_contains_iff)

lemma rights_contains_trans:
  "rights_contains r s \<Longrightarrow> rights_contains s t \<Longrightarrow> rights_contains r t"
  by (simp add: rights_contains_iff)

lemma rights_contains_and [simp]: "rights_contains r (r AND s)"
  by (auto simp: rights_contains_iff bit_and_iff)

lemma rights_contains_and_right [simp]: "rights_contains s (r AND s)"
  by (auto simp: rights_contains_iff bit_and_iff)

lemma Capability_new_simps [simp]:
  "cap_id (fst (Capability_new n obj r)) = CapId n 0"
  "cap_rights (fst (Capability_new n obj r)) = r"
  "cap_object (fst (Capability_new n obj r)) = obj"
  "cap_gen (fst (Capability_new n obj r)) = 0"
  "snd (Capability_new n obj r) = n + 1"
  by (simp_all add: Capability_new_def fetch_add_one_def)

section \<open>The table follows its history\<close>

lemma grant_simps:
  "grant n t res owner =
     (CapId n 0,
      t\<lparr>caps := bt_insert (CapId n 0) \<lparr>tok_id = CapId n 0, resource = res, owner_task_id = owner\<rparr>
          (caps t)\<rparr>,
      n + 1)"
  by (simp add: grant_def CapId_next_def fetch_add_one_def)

lemma caps_revoke [simp]: "caps (snd (revoke t i)) = bt_remove i (caps t)"
  by (simp add: revoke_def Let_def)

lemma table_after_counter:
  "snd (table_after h) = CAP_ID_FIRST_INDEX + word_of_nat (grant_count h)"
  by (induction h rule: table_after.induct)
    (auto simp: grant_simps split: prod.splits)

lemma table_after_sorted: "bt_sorted (caps (fst (table_after h)))"
  by (induction h rule: table_after.induct)
    (auto simp: grant_simps CapabilityTable_new_def split: prod.splits)

lemma table_after_owner:
  "granted_to h i = (case bt_get (caps (fst (table_after h))) i of
      None \<Rightarrow> None | Some cap \<Rightarrow> owner_task_id cap)"
proof (induction h arbitrary: i rule: table_after.induct)
  case 1
  then show ?case by (simp add: CapabilityTable_new_def)
next
  case (2 res owner h)
  then show ?case
    using table_after_counter [of h] by (auto simp: grant_simps split: prod.splits)
next
  case (3 j h)
  then show ?case by (auto split: prod.splits)
qed

text \<open>Every live identifier was drawn from the counter before; so the next one is fresh.\<close>

lemma table_after_indices:
  "bt_get (caps (fst (table_after h))) i \<noteq> None \<Longrightarrow>
     \<exists>k < grant_count h. i = CapId (CAP_ID_FIRST_INDEX + word_of_nat k) 0"
proof (induction h rule: table_after.induct)
  case 1
  then show ?case by (simp add: CapabilityTable_new_def)
next
  case (2 res owner h)
  then show ?case
    using table_after_counter [of h]
    by (auto simp: grant_simps less_Suc_eq split: prod.splits if_splits)
next
  case (3 j h)
  then show ?case by (auto split: prod.splits if_splits)
qed

lemma word_of_nat_u32_inject:
  "a < 2 ^ 32 \<Longrightarrow> b < 2 ^ 32 \<Longrightarrow> (word_of_nat a :: u32) = word_of_nat b \<longleftrightarrow> a = b"
  by (simp add: word_of_nat_eq_iff take_bit_nat_eq_self)

lemma next_id_fresh:
  assumes "grant_count h < 2 ^ 32"
  shows "bt_get (caps (fst (table_after h))) (CapId (snd (table_after h)) 0) = None"
proof (rule ccontr)
  assume live: "bt_get (caps (fst (table_after h))) (CapId (snd (table_after h)) 0) \<noteq> None"
  obtain k where "k < grant_count h"
    and "(word_of_nat (grant_count h) :: u32) = word_of_nat k"
    using table_after_indices [OF live] by (auto simp: table_after_counter)
  with assms show False
    by (simp add: word_of_nat_u32_inject)
qed

section \<open>Properties\<close>

text \<open>The 64-bit form of a capability identifier that crosses the WASM boundary loses
  nothing: \<open>from_u64\<close> and \<open>as_u64\<close> are inverse to each other on all identifiers and on all
  64-bit values.\<close>

theorem capid_u64_roundtrip:
  "CapId_from_u64 (CapId_as_u64 c) = c \<and> CapId_as_u64 (CapId_from_u64 v) = v"
  by simp

text \<open>C26: after any history of grants and revocations, a task has access to an identifier
  exactly if the history's latest word on that identifier is a grant to this task.\<close>

theorem table_access_exact:
  "has_access (fst (table_after h)) task i \<longleftrightarrow> granted_to h i = Some task"
  by (simp add: has_access_def table_after_owner split: option.splits)

text \<open>For the first \<open>2 ^ 32\<close> grants the identifier that \<open>grant\<close> returns names no live
  capability, every other identifier keeps its meaning, and the table gains exactly one entry.\<close>

theorem grant_is_fresh:
  assumes "grant_count h < 2 ^ 32"
  shows "case table_after h of (t, n) \<Rightarrow> case grant n t res owner of (i, t', n') \<Rightarrow>
     bt_get (caps t) i = None \<and> length (caps t') = Suc (length (caps t))
     \<and> (\<forall>j. j \<noteq> i \<longrightarrow> bt_get (caps t') j = bt_get (caps t) j)"
proof (cases "table_after h")
  case (Pair t n)
  then have t: "t = fst (table_after h)" and fresh: "bt_get (caps t) (CapId n 0) = None"
    using next_id_fresh [OF assms] by simp_all
  have "bt_sorted (caps t)"
    using table_after_sorted t by simp
  from bt.length_insert_fresh [OF this fresh] show ?thesis
    using fresh by (simp add: Pair grant_simps)
qed

theorem grant_is_fresh_witness:
  "grant_count [Revoke (CapId 100 0), Grant Timer (Some 7), Grant Timer (Some 7)] < 2 ^ 32
   \<and> (case table_after [Revoke (CapId 100 0), Grant Timer (Some 7), Grant Timer (Some 7)] of
        (t, n) \<Rightarrow> case grant n t (Serial 0x3F8) (Some 9) of (i, t', n') \<Rightarrow>
          bt_get (caps t) i = None \<and> length (caps t') = Suc (length (caps t))
          \<and> (\<forall>j. j \<noteq> i \<longrightarrow> bt_get (caps t') j = bt_get (caps t) j))"
  using grant_is_fresh [of "[Revoke (CapId 100 0), Grant Timer (Some 7), Grant Timer (Some 7)]"]
  by (simp only: grant_count.simps) simp

end
