(* ===== verification/Ram_Fs.thy ===== *)
theory Ram_Fs
  imports BTree_Map "HOL-Library.Sublist"
begin

text \<open>
  The filesystem of \<open>src/src/kernel/src/fs/mod.rs\<close> and \<open>ramfs.rs\<close>. Nodes are shared through
  \<open>Arc<RwLock<Node>>\<close>, and an open handle keeps its node alive after the name is rebound, so
  the model has an explicit store: the arena lists the nodes in order of their creation and an
  \<open>Arc\<close> is an index into it. The locks are uncontended in the cooperative kernel and leave no
  trace. The function-local statics \<open>NEXT_HANDLE\<close> and \<open>NEXT_HANDLE_AT\<close> are fields.
\<close>

section \<open>State\<close>

datatype FsError = NotFound | PermissionDenied | InvalidHandle

type_synonym FileHandle = u32

datatype Node = NFile "u8 list" | NDirectory "(str, nat) btreemap"

record RamFs =
  arena :: "Node list"
  root :: nat
  open_handles :: "(FileHandle, nat) btreemap"
  next_handle :: u32
  next_handle_at :: u32

definition RamFs_new :: RamFs where
  "RamFs_new = \<lparr>arena = [NDirectory []], root = 0, open_handles = [],
     next_handle = 1, next_handle_at = 10000\<rparr>"

section \<open>Operations\<close>

definition path_parts :: "str \<Rightarrow> str list" where
  "path_parts path = filter (\<lambda>s. s \<noteq> []) (split_on CHR ''/'' path)"

text \<open>The loop that follows a path from a node; it is written out in \<open>resolve_path\<close>,
  \<open>open_at\<close> and \<open>mkdir_at\<close>.\<close>

fun walk :: "Node list \<Rightarrow> nat \<Rightarrow> str list \<Rightarrow> FsError + nat" where
  "walk ns current [] = Inr current"
| "walk ns current (part # parts) =
     (case ns ! current of
        NDirectory m \<Rightarrow>
          (case bt_get m part of
             Some node \<Rightarrow> walk ns node parts
           | None \<Rightarrow> Inl NotFound)
      | NFile _ \<Rightarrow> Inl NotFound)"

definition resolve_path :: "RamFs \<Rightarrow> str \<Rightarrow> FsError + nat" where
  "resolve_path fs path = walk (arena fs) (root fs) (path_parts path)"

text \<open>The traverse-or-create loop of \<open>add_file\<close>; \<open>None\<close> is its early return at a component
  that is not a directory.\<close>

fun make_dirs :: "Node list \<Rightarrow> nat \<Rightarrow> str list \<Rightarrow> Node list \<times> nat option" where
  "make_dirs ns current [] = (ns, Some current)"
| "make_dirs ns current (part # parts) =
     (case ns ! current of
        NDirectory m \<Rightarrow>
          (case bt_get m part of
             Some node \<Rightarrow> make_dirs ns node parts
           | None \<Rightarrow>
               make_dirs (ns[current := NDirectory (bt_insert part (length ns) m)] @ [NDirectory []])
                 (length ns) parts)
      | NFile _ \<Rightarrow> (ns, None))"

definition RamFs_add_file :: "RamFs \<Rightarrow> str \<Rightarrow> u8 list \<Rightarrow> RamFs" where
  "RamFs_add_file fs path content =
     (let parts = path_parts path
      in if parts = [] then fs
         else case make_dirs (arena fs) (root fs) (butlast parts) of
                (ns, None) \<Rightarrow> fs\<lparr>arena := ns\<rparr>
              | (ns, Some current) \<Rightarrow>
                  (case ns ! current of
                     NDirectory m \<Rightarrow>
                       fs\<lparr>arena := ns[current := NDirectory (bt_insert (last parts) (length ns) m)]
                           @ [NFile content]\<rparr>
                   | NFile _ \<Rightarrow> fs\<lparr>arena := ns\<rparr>))"

definition RamFs_open :: "RamFs \<Rightarrow> str \<Rightarrow> FsError + (FileHandle \<times> RamFs)" where
  "RamFs_open fs path =
     (case resolve_path fs path of
        Inl e \<Rightarrow> Inl e
      | Inr node \<Rightarrow>
          let (handle, next) = fetch_add_one (next_handle fs)
          in Inr (handle, fs\<lparr>next_handle := next,
                             open_handles := bt_insert handle node (open_handles fs)\<rparr>))"

definition RamFs_open_at :: "RamFs \<Rightarrow> FileHandle \<Rightarrow> str \<Rightarrow> FsError + (FileHandle \<times> RamFs)" where
  "RamFs_open_at fs base path =
     (case bt_get (open_handles fs) base of
        None \<Rightarrow> Inl InvalidHandle
      | Some base_node \<Rightarrow>
          (case walk (arena fs) base_node (path_parts path) of
             Inl e \<Rightarrow> Inl e
           | Inr current \<Rightarrow>
               let (handle, next) = fetch_add_one (next_handle_at fs)
               in Inr (handle, fs\<lparr>next_handle_at := next,
                                  open_handles := bt_insert handle current (open_handles fs)\<rparr>)))"

definition RamFs_mkdir_at :: "RamFs \<Rightarrow> FileHandle \<Rightarrow> str \<Rightarrow> FsError + RamFs" where
  "RamFs_mkdir_at fs base path =
     (let parts = path_parts path
      in if parts = [] then Inl PermissionDenied
         else case (if base = 0 then Some (root fs) else bt_get (open_handles fs) base) of
                None \<Rightarrow> Inl InvalidHandle
              | Some start \<Rightarrow>
                  (case walk (arena fs) start (butlast parts) of
                     Inl e \<Rightarrow> Inl e
                   | Inr current \<Rightarrow>
                       (case arena fs ! current of
                          NDirectory m \<Rightarrow>
                            if bt_contains_key m (last parts) then Inl PermissionDenied
                            else Inr (fs\<lparr>arena :=
                              (arena fs)[current :=
                                 NDirectory (bt_insert (last parts) (length (arena fs)) m)]
                              @ [NDirectory []]\<rparr>)
                        | NFile _ \<Rightarrow> Inl InvalidHandle)))"

definition RamFs_mkdir :: "RamFs \<Rightarrow> str \<Rightarrow> FsError + RamFs" where
  "RamFs_mkdir fs path = RamFs_mkdir_at fs 0 path"

text \<open>
  \<open>read\<close> returns the number of bytes and the caller's buffer after the copy. The sum
  \<open>offset + buffer.len()\<close> cannot overflow where it is computed: \<open>offset\<close> is below the length
  of a vector there, and no vector or buffer is longer than \<open>isize::MAX\<close>.
\<close>

definition RamFs_read ::
  "RamFs \<Rightarrow> FileHandle \<Rightarrow> u8 list \<Rightarrow> nat \<Rightarrow> FsError + (nat \<times> u8 list)" where
  "RamFs_read fs handle buffer offset =
     (case bt_get (open_handles fs) handle of
        None \<Rightarrow> Inl InvalidHandle
      | Some node \<Rightarrow>
          (case arena fs ! node of
             NFile content \<Rightarrow>
               if length content \<le> offset then Inr (0, buffer)
               else let end = min (offset + length buffer) (length content);
                        bytes_read = end - offset
                    in Inr (bytes_read,
                            take bytes_read (drop offset content) @ drop bytes_read buffer)
           | NDirectory _ \<Rightarrow> Inl InvalidHandle))"

definition RamFs_size :: "RamFs \<Rightarrow> FileHandle \<Rightarrow> FsError + nat" where
  "RamFs_size fs handle =
     (case bt_get (open_handles fs) handle of
        None \<Rightarrow> Inl InvalidHandle
      | Some node \<Rightarrow>
          (case arena fs ! node of
             NFile content \<Rightarrow> Inr (length content)
           | NDirectory _ \<Rightarrow> Inr 0))"

definition RamFs_is_dir :: "RamFs \<Rightarrow> FileHandle \<Rightarrow> bool" where
  "RamFs_is_dir fs handle =
     (case bt_get (open_handles fs) handle of
        None \<Rightarrow> False
      | Some node \<Rightarrow> (case arena fs ! node of NDirectory _ \<Rightarrow> True | NFile _ \<Rightarrow> False))"

definition RamFs_close :: "RamFs \<Rightarrow> FileHandle \<Rightarrow> RamFs" where
  "RamFs_close fs handle = fs\<lparr>open_handles := bt_remove handle (open_handles fs)\<rparr>"

section \<open>The invariant\<close>

definition child :: "Node list \<Rightarrow> nat \<Rightarrow> str \<Rightarrow> nat option" where
  "child ns i p = (case ns ! i of NDirectory m \<Rightarrow> bt_get m p | NFile _ \<Rightarrow> None)"

text \<open>The nodes form a forest: links point to later nodes and a node has at most one link.\<close>

definition wf_arena :: "Node list \<Rightarrow> bool" where
  "wf_arena ns \<longleftrightarrow>
     (\<forall>i p c. i < length ns \<longrightarrow> child ns i p = Some c \<longrightarrow> i < c \<and> c < length ns) \<and>
     (\<forall>i j p q c. i < length ns \<longrightarrow> j < length ns \<longrightarrow>
        child ns i p = Some c \<longrightarrow> child ns j q = Some c \<longrightarrow> i = j \<and> p = q)"

definition fs_wf :: "RamFs \<Rightarrow> bool" where
  "fs_wf fs \<longleftrightarrow>
     wf_arena (arena fs) \<and> root fs < length (arena fs)
     \<and> (\<exists>m. arena fs ! root fs = NDirectory m)
     \<and> (\<forall>h n. bt_get (open_handles fs) h = Some n \<longrightarrow> n < length (arena fs))
     \<and> bt_sorted (open_handles fs)"

text \<open>One call of the filesystem's interface, and the states a boot of it can reach.\<close>

inductive fs_step :: "RamFs \<Rightarrow> RamFs \<Rightarrow> bool" where
  add_file: "fs_step fs (RamFs_add_file fs path content)"
| open_path: "RamFs_open fs path = Inr (h, fs') \<Longrightarrow> fs_step fs fs'"
| open_at: "RamFs_open_at fs base path = Inr (h, fs') \<Longrightarrow> fs_step fs fs'"
| mkdir_at: "RamFs_mkdir_at fs base path = Inr fs' \<Longrightarrow> fs_step fs fs'"
| close: "fs_step fs (RamFs_close fs h)"

text \<open>\<open>fs_run n m fs\<close>: a boot can reach \<open>fs\<close> with \<open>n\<close> calls of \<open>open\<close> and \<open>m\<close> of \<open>open_at\<close>
  that succeeded.\<close>

inductive fs_run :: "nat \<Rightarrow> nat \<Rightarrow> RamFs \<Rightarrow> bool" where
  start: "fs_run 0 0 RamFs_new"
| add_file: "fs_run n m fs \<Longrightarrow> fs_run n m (RamFs_add_file fs path content)"
| open_path: "fs_run n m fs \<Longrightarrow> RamFs_open fs path = Inr (h, fs') \<Longrightarrow> fs_run (Suc n) m fs'"
| open_at: "fs_run n m fs \<Longrightarrow> RamFs_open_at fs base path = Inr (h, fs') \<Longrightarrow> fs_run n (Suc m) fs'"
| mkdir_at: "fs_run n m fs \<Longrightarrow> RamFs_mkdir_at fs base path = Inr fs' \<Longrightarrow> fs_run n m fs'"
| close: "fs_run n m fs \<Longrightarrow> fs_run n m (RamFs_close fs h)"

text \<open>Calls that follow, counted in the same way, among which none closes the handle \<open>h\<close>.\<close>

inductive counted_call :: "FileHandle \<Rightarrow> nat \<Rightarrow> nat \<Rightarrow> RamFs \<Rightarrow> nat \<Rightarrow> nat \<Rightarrow> RamFs \<Rightarrow> bool" for h :: FileHandle where
  add_file: "counted_call h n m fs n m (RamFs_add_file fs path content)"
| open_path: "RamFs_open fs path = Inr (g, fs') \<Longrightarrow> counted_call h n m fs (Suc n) m fs'"
| open_at: "RamFs_open_at fs base path = Inr (g, fs') \<Longrightarrow> counted_call h n m fs n (Suc m) fs'"
| mkdir_at: "RamFs_mkdir_at fs base path = Inr fs' \<Longrightarrow> counted_call h n m fs n m fs'"
| close: "g \<noteq> h \<Longrightarrow> counted_call h n m fs n m (RamFs_close fs g)"

inductive handle_kept_run :: "FileHandle \<Rightarrow> nat \<Rightarrow> nat \<Rightarrow> RamFs \<Rightarrow> nat \<Rightarrow> nat \<Rightarrow> RamFs \<Rightarrow> bool" for h :: FileHandle where
  start: "handle_kept_run h n m fs n m fs"
| step: "handle_kept_run h n m fs n' m' fs' \<Longrightarrow> counted_call h n' m' fs' n'' m'' fs'' \<Longrightarrow>
     handle_kept_run h n m fs n'' m'' fs''"

text \<open>How \<open>add_file\<close> and \<open>mkdir_at\<close> extend the arena: a new node, linked once.\<close>

definition link_node :: "Node list \<Rightarrow> nat \<Rightarrow> str \<Rightarrow> Node \<Rightarrow> Node list" where
  "link_node ns current name node =
     (case ns ! current of
        NDirectory m \<Rightarrow> ns[current := NDirectory (bt_insert name (length ns) m)] @ [node]
      | NFile _ \<Rightarrow> ns)"

definition is_leaf :: "Node \<Rightarrow> bool" where
  "is_leaf n = (case n of NFile _ \<Rightarrow> True | NDirectory m \<Rightarrow> m = [])"

section \<open>The abstract filesystem\<close>

text \<open>
  What a client sees: a partial map from paths to entries. The specifications of \<open>mkdir\<close> and
  \<open>add_file\<close> are functions on this map, with no nodes, links or handles.
\<close>

datatype Entry = AFile "u8 list" | ADir

fun entry_of :: "Node \<Rightarrow> Entry" where
  "entry_of (NFile content) = AFile content"
| "entry_of (NDirectory m) = ADir"

definition view :: "Node list \<Rightarrow> nat \<Rightarrow> str list \<rightharpoonup> Entry" where
  "view ns b ps = (case walk ns b ps of Inl e \<Rightarrow> None | Inr c \<Rightarrow> Some (entry_of (ns ! c)))"

definition fs_view :: "RamFs \<Rightarrow> str list \<rightharpoonup> Entry" where
  "fs_view fs = view (arena fs) (root fs)"

definition spec_mkdir :: "(str list \<rightharpoonup> Entry) \<Rightarrow> str list \<Rightarrow> FsError + (str list \<rightharpoonup> Entry)" where
  "spec_mkdir v ps =
     (if ps = [] then Inl PermissionDenied
      else case v (butlast ps) of
             None \<Rightarrow> Inl NotFound
           | Some (AFile c) \<Rightarrow> Inl InvalidHandle
           | Some ADir \<Rightarrow> if v ps \<noteq> None then Inl PermissionDenied else Inr (v(ps \<mapsto> ADir)))"

definition file_above :: "(str list \<rightharpoonup> Entry) \<Rightarrow> str list \<Rightarrow> bool" where
  "file_above v ps \<longleftrightarrow> (\<exists>qs c. strict_prefix qs ps \<and> v qs = Some (AFile c))"

definition spec_add_file ::
  "(str list \<rightharpoonup> Entry) \<Rightarrow> str list \<Rightarrow> u8 list \<Rightarrow> (str list \<rightharpoonup> Entry)" where
  "spec_add_file v ps content =
     (if ps = [] \<or> file_above v ps then v
      else (\<lambda>qs. if qs = ps then Some (AFile content)
                 else if prefix ps qs then None
                 else if prefix qs ps then Some ADir
                 else v qs))"

section \<open>Walking a well-formed arena\<close>

lemma walk_child:
  "walk ns b (p # ps) = (case child ns b p of Some c \<Rightarrow> walk ns c ps | None \<Rightarrow> Inl NotFound)"
  by (simp add: child_def split: Node.splits option.splits)

declare walk.simps(2) [simp del]

lemma walk_append:
  "walk ns b (ps @ qs) = (case walk ns b ps of Inl e \<Rightarrow> Inl e | Inr c \<Rightarrow> walk ns c qs)"
  by (induction ps arbitrary: b) (auto simp: walk_child split: option.splits)

lemma walk_error: "walk ns b ps = Inl e \<Longrightarrow> e = NotFound"
  by (induction ps arbitrary: b) (auto simp: walk_child split: option.splits)

lemma wf_arena_child:
  "wf_arena ns \<Longrightarrow> i < length ns \<Longrightarrow> child ns i p = Some c \<Longrightarrow> i < c \<and> c < length ns"
  unfolding wf_arena_def by blast

lemma wf_arena_parent:
  "wf_arena ns \<Longrightarrow> i < length ns \<Longrightarrow> j < length ns \<Longrightarrow>
     child ns i p = Some c \<Longrightarrow> child ns j q = Some c \<Longrightarrow> i = j \<and> p = q"
  unfolding wf_arena_def by blast

lemma walk_bounds:
  assumes "wf_arena ns"
  shows "b < length ns \<Longrightarrow> walk ns b ps = Inr c \<Longrightarrow> b \<le> c \<and> c < length ns \<and> (ps \<noteq> [] \<longrightarrow> b < c)"
proof (induction ps arbitrary: b)
  case Nil
  then show ?case by simp
next
  case (Cons p ps)
  from Cons.prems obtain d where d: "child ns b p = Some d" "walk ns d ps = Inr c"
    by (auto simp: walk_child split: option.splits)
  with wf_arena_child [OF assms Cons.prems(1) d(1)] Cons.IH [of d] show ?case
    by auto
qed

text \<open>A node of a forest is reached from another along at most one path.\<close>

lemma walk_inj:
  assumes wf: "wf_arena ns" and b: "b < length ns"
  shows "walk ns b ps = Inr c \<Longrightarrow> walk ns b qs = Inr c \<Longrightarrow> ps = qs"
proof (induction ps arbitrary: c qs rule: rev_induct)
  case Nil
  then have "walk ns b qs = Inr b" by simp
  with walk_bounds [OF wf b this] show ?case by auto
next
  case (snoc p ps)
  from snoc.prems(1) obtain d where d: "walk ns b ps = Inr d" "child ns d p = Some c"
    by (auto simp: walk_append walk_child split: sum.splits option.splits)
  have "b < c"
    using walk_bounds [OF wf b snoc.prems(1)] by simp
  with snoc.prems(2) have "qs \<noteq> []" by auto
  then obtain rs r where qs: "qs = rs @ [r]"
    by (metis append_butlast_last_id)
  from snoc.prems(2) qs obtain e where e: "walk ns b rs = Inr e" "child ns e r = Some c"
    by (auto simp: walk_append walk_child split: sum.splits option.splits)
  have "d < length ns" "e < length ns"
    using walk_bounds [OF wf b] d(1) e(1) by auto
  from wf_arena_parent [OF wf this d(2) e(2)] have "d = e" "p = r" by auto
  with snoc.IH [OF d(1)] e(1) qs show ?case by simp
qed

section \<open>Extending the arena\<close>

lemma length_link_node [simp]:
  "ns ! cur = NDirectory m \<Longrightarrow> length (link_node ns cur p x) = Suc (length ns)"
  by (simp add: link_node_def)

lemma child_link_node:
  assumes "ns ! cur = NDirectory m" "cur < length ns" "i < length ns"
  shows "child (link_node ns cur p x) i q =
     (if i = cur \<and> q = p then Some (length ns) else child ns i q)"
  using assms by (auto simp: link_node_def child_def nth_append nth_list_update)

lemma child_link_node_new:
  assumes "ns ! cur = NDirectory m" "is_leaf x"
  shows "child (link_node ns cur p x) (length ns) q = None"
  using assms by (auto simp: link_node_def child_def nth_append is_leaf_def split: Node.splits)

lemma nth_link_node_new:
  "ns ! cur = NDirectory m \<Longrightarrow> link_node ns cur p x ! length ns = x"
  by (simp add: link_node_def nth_append)

lemma entry_link_node:
  assumes "ns ! cur = NDirectory m" "i < length ns"
  shows "entry_of (link_node ns cur p x ! i) = entry_of (ns ! i)"
  using assms by (cases "i = cur") (auto simp: link_node_def nth_append)

lemma file_link_node:
  assumes "ns ! cur = NDirectory m" "i < length ns" "ns ! i = NFile c"
  shows "link_node ns cur p x ! i = NFile c"
  using assms by (cases "i = cur") (auto simp: link_node_def nth_append)

lemma wf_arena_link_node:
  assumes wf: "wf_arena ns" and m: "ns ! cur = NDirectory m" and cur: "cur < length ns"
    and leaf: "is_leaf x"
  shows "wf_arena (link_node ns cur p x)"
proof -
  let ?ns = "link_node ns cur p x"
  have ch: "(i = cur \<and> q = p \<and> c = length ns) \<or> (child ns i q = Some c \<and> i < length ns)"
    if "i < Suc (length ns)" "child ?ns i q = Some c" for i q c
    using that child_link_node [OF m cur, of i p x q] child_link_node_new [OF m leaf, of p q]
    by (cases "i = length ns") (auto split: if_splits)
  show ?thesis
    unfolding wf_arena_def length_link_node [OF m]
  proof (intro conjI allI impI)
    fix i q c
    assume "i < Suc (length ns)" "child ?ns i q = Some c"
    from ch [OF this] wf_arena_child [OF wf, of i q c] cur show "i < c" "c < Suc (length ns)"
      by auto
  next
    fix i j q r c
    assume i: "i < Suc (length ns)" "child ?ns i q = Some c"
      and j: "j < Suc (length ns)" "child ?ns j r = Some c"
    from ch [OF i] ch [OF j] wf_arena_parent [OF wf, of i j q c r]
      wf_arena_child [OF wf, of i q c] wf_arena_child [OF wf, of j r c]
    show "i = j" "q = r" by auto
  qed
qed

lemma view_Nil [simp]: "view ns b [] = Some (entry_of (ns ! b))"
  by (simp add: view_def)

lemma view_Cons: "view ns b (p # ps) = (case child ns b p of None \<Rightarrow> None | Some c \<Rightarrow> view ns c ps)"
  by (simp add: view_def walk_child split: option.splits)

lemma view_append: "walk ns b ps = Inr c \<Longrightarrow> view ns b (ps @ qs) = view ns c qs"
  by (simp add: view_def walk_append)

lemma view_append_None: "view ns b ps = None \<Longrightarrow> view ns b (ps @ qs) = None"
  by (auto simp: view_def walk_append split: sum.splits)

lemma view_below_file: "ns ! b = NFile c \<Longrightarrow> qs \<noteq> [] \<Longrightarrow> view ns b qs = None"
  by (cases qs) (auto simp: view_Cons child_def)

lemma walk_link_node:
  assumes wf: "wf_arena ns" and m: "ns ! cur = NDirectory m" and cur: "cur < length ns"
  shows "b < length ns \<Longrightarrow> walk ns b us = Inr cur \<Longrightarrow> walk (link_node ns cur p x) b us = Inr cur"
proof (induction us arbitrary: b)
  case Nil
  then show ?case by simp
next
  case (Cons u us)
  from Cons.prems(2) obtain c where c: "child ns b u = Some c" "walk ns c us = Inr cur"
    by (auto simp: walk_child split: option.splits)
  have "b < cur"
    using walk_bounds [OF wf Cons.prems] by simp
  then have "child (link_node ns cur p x) b u = Some c"
    using child_link_node [OF m cur Cons.prems(1), of p x u] c(1) by simp
  moreover have "c < length ns"
    using wf_arena_child [OF wf Cons.prems(1) c(1)] by simp
  ultimately show ?case
    using Cons.IH [OF _ c(2)] by (simp add: walk_child)
qed

text \<open>Linking a node is invisible from where the extended directory cannot be reached.\<close>

lemma view_link_unreachable:
  assumes wf: "wf_arena ns" and m: "ns ! cur = NDirectory m" and cur: "cur < length ns"
  shows "b < length ns \<Longrightarrow> (\<And>us. walk ns b us \<noteq> Inr cur) \<Longrightarrow>
     view (link_node ns cur p x) b qs = view ns b qs"
proof (induction qs arbitrary: b)
  case Nil
  then show ?case by (simp add: entry_link_node [OF m])
next
  case (Cons q qs)
  have "b \<noteq> cur"
    using Cons.prems(2) [of "[]"] by simp
  then have same: "child (link_node ns cur p x) b q = child ns b q"
    using child_link_node [OF m cur Cons.prems(1)] by simp
  show ?case
  proof (cases "child ns b q")
    case None
    with same show ?thesis by (simp add: view_Cons)
  next
    case (Some c)
    have "walk ns c us \<noteq> Inr cur" for us
      using Cons.prems(2) [of "q # us"] Some by (simp add: walk_child)
    with Cons.IH [of c] wf_arena_child [OF wf Cons.prems(1) Some] Some same show ?thesis
      by (simp add: view_Cons)
  qed
qed

text \<open>From where it can be reached, exactly the new name and what was below it change.\<close>

lemma view_link_node:
  assumes wf: "wf_arena ns" and m: "ns ! cur = NDirectory m" and cur: "cur < length ns"
    and leaf: "is_leaf x"
  shows "b < length ns \<Longrightarrow> walk ns b us = Inr cur \<Longrightarrow>
     view (link_node ns cur p x) b qs =
       (if qs = us @ [p] then Some (entry_of x)
        else if prefix (us @ [p]) qs then None
        else view ns b qs)"
proof (induction qs arbitrary: b us)
  case Nil
  then show ?case by (simp add: entry_link_node [OF m])
next
  case (Cons q qs)
  let ?ns = "link_node ns cur p x"
  note ch = child_link_node [OF m cur Cons.prems(1), of p x q]
  show ?case
  proof (cases "b = cur \<and> q = p")
    case True
    with Cons.prems walk_inj [OF wf, of b us cur "[]"] have us: "us = []" by simp
    have "view ?ns (length ns) qs = (if qs = [] then Some (entry_of x) else None)"
      using child_link_node_new [OF m leaf] nth_link_node_new [OF m]
      by (cases qs) (auto simp: view_Cons)
    with True us ch show ?thesis by (auto simp: view_Cons)
  next
    case False
    then have same: "child ?ns b q = child ns b q" using ch by auto
    show ?thesis
    proof (cases "us \<noteq> [] \<and> q = hd us")
      case True
      then obtain vs where us: "us = q # vs" by (cases us) auto
      with Cons.prems(2) obtain c where c: "child ns b q = Some c" "walk ns c vs = Inr cur"
        by (auto simp: walk_child split: option.splits)
      with Cons.IH [OF _ c(2)] wf_arena_child [OF wf Cons.prems(1) c(1)] same us show ?thesis
        by (simp add: view_Cons)
    next
      case other: False
      have npre: "\<not> prefix (us @ [p]) (q # qs)"
        using other False Cons.prems(2) by (cases us) auto
      then have neq: "q # qs \<noteq> us @ [p]" by (metis prefix_order.refl)
      have "walk ns c ws \<noteq> Inr cur" if "child ns b q = Some c" for c ws
        using that other walk_inj [OF wf Cons.prems(1,2), of "q # ws"]
        by (auto simp: walk_child)
      with view_link_unreachable [OF wf m cur] wf_arena_child [OF wf Cons.prems(1)] same npre neq
      show ?thesis
        by (auto simp: view_Cons split: option.splits)
    qed
  qed
qed

section \<open>The operations in terms of links\<close>

lemma make_dirs_Cons:
  "make_dirs ns cur (p # ps) =
     (case ns ! cur of
        NFile c \<Rightarrow> (ns, None)
      | NDirectory m \<Rightarrow>
          (case child ns cur p of
             Some node \<Rightarrow> make_dirs ns node ps
           | None \<Rightarrow> make_dirs (link_node ns cur p (NDirectory [])) (length ns) ps))"
  by (auto simp: child_def link_node_def split: Node.splits option.splits)

declare make_dirs.simps(2) [simp del]

lemma add_file_link_node:
  "RamFs_add_file fs path content =
     (let parts = path_parts path
      in if parts = [] then fs
         else case make_dirs (arena fs) (root fs) (butlast parts) of
                (ns, None) \<Rightarrow> fs\<lparr>arena := ns\<rparr>
              | (ns, Some cur) \<Rightarrow> fs\<lparr>arena := link_node ns cur (last parts) (NFile content)\<rparr>)"
  by (simp add: RamFs_add_file_def link_node_def Let_def split: option.splits Node.splits prod.splits)

lemma mkdir_at_cases:
  assumes "RamFs_mkdir_at fs base path = Inr fs'"
  obtains start cur m where
    "path_parts path \<noteq> []"
    "(if base = 0 then Some (root fs) else bt_get (open_handles fs) base) = Some start"
    "walk (arena fs) start (butlast (path_parts path)) = Inr cur"
    "arena fs ! cur = NDirectory m" "child (arena fs) cur (last (path_parts path)) = None"
    "fs' = fs\<lparr>arena := link_node (arena fs) cur (last (path_parts path)) (NDirectory [])\<rparr>"
  using assms
  by (auto simp: RamFs_mkdir_at_def Let_def link_node_def child_def bt_contains_key_def
      split: if_splits option.splits sum.splits Node.splits)

lemma make_dirs_wf:
  assumes "make_dirs ns cur ps = (ns', r)" and "wf_arena ns" and "cur < length ns"
  shows "wf_arena ns' \<and> length ns \<le> length ns' \<and> (\<forall>c. r = Some c \<longrightarrow> c < length ns')"
  using assms
proof (induction ps arbitrary: ns cur)
  case Nil
  then show ?case by auto
next
  case (Cons p ps)
  show ?case
  proof (cases "ns ! cur")
    case (NFile c)
    with Cons.prems show ?thesis by (simp add: make_dirs_Cons)
  next
    case (NDirectory m)
    show ?thesis
    proof (cases "child ns cur p")
      case None
      with Cons.prems NDirectory
      have "make_dirs (link_node ns cur p (NDirectory [])) (length ns) ps = (ns', r)"
        by (simp add: make_dirs_Cons)
      from Cons.IH [OF this wf_arena_link_node [OF Cons.prems(2) NDirectory Cons.prems(3)]]
      show ?thesis by (simp add: NDirectory is_leaf_def)
    next
      case (Some c)
      with Cons.prems NDirectory have "make_dirs ns c ps = (ns', r)"
        by (simp add: make_dirs_Cons)
      from Cons.IH [OF this Cons.prems(2)] wf_arena_child [OF Cons.prems(2,3) Some]
      show ?thesis by simp
    qed
  qed
qed

text \<open>Files never change: every operation leaves the nodes that are files as they are.\<close>

lemma make_dirs_files:
  assumes "make_dirs ns cur ps = (ns', r)" and "i < length ns" and "ns ! i = NFile c"
  shows "ns' ! i = NFile c"
  using assms
proof (induction ps arbitrary: ns cur)
  case Nil
  then show ?case by simp
next
  case (Cons p ps)
  then show ?case
    by (cases "ns ! cur"; cases "child ns cur p")
      (auto simp: make_dirs_Cons file_link_node)
qed

lemma make_dirs_entry:
  assumes "make_dirs ns cur ps = (ns', r)" and "i < length ns"
  shows "entry_of (ns' ! i) = entry_of (ns ! i)"
  using assms
proof (induction ps arbitrary: ns cur)
  case Nil
  then show ?case by simp
next
  case (Cons p ps)
  then show ?case
    by (cases "ns ! cur"; cases "child ns cur p")
      (auto simp: make_dirs_Cons entry_link_node)
qed

lemma entry_of_ADir: "entry_of n = ADir \<longleftrightarrow> (\<exists>m. n = NDirectory m)"
  by (cases n) auto

lemma entry_of_AFile: "entry_of n = AFile c \<longleftrightarrow> n = NFile c"
  by (cases n) auto

section \<open>The invariant is kept\<close>

lemma fs_wf_RamFs_new [intro, inv_intros]: "fs_wf RamFs_new"
  by (auto simp: fs_wf_def RamFs_new_def wf_arena_def child_def)

lemma fs_wf_arena_update:
  assumes "fs_wf fs" and "wf_arena ns" and "length (arena fs) \<le> length ns"
    and "\<And>i. i < length (arena fs) \<Longrightarrow> entry_of (ns ! i) = entry_of (arena fs ! i)"
  shows "fs_wf (fs\<lparr>arena := ns\<rparr>)"
proof -
  have "\<exists>m. ns ! root fs = NDirectory m"
    using assms(1) assms(4) [of "root fs"] by (auto simp: fs_wf_def entry_of_ADir [symmetric])
  with assms show ?thesis
    by (auto simp: fs_wf_def) (meson order_less_le_trans)
qed

lemma link_node_file_noop: "ns ! cur = NFile c \<Longrightarrow> link_node ns cur p x = ns"
  by (simp add: link_node_def)

lemma fs_wf_link_node:
  assumes wf: "fs_wf fs" and cur: "cur < length (arena fs)" and leaf: "is_leaf x"
  shows "fs_wf (fs\<lparr>arena := link_node (arena fs) cur p x\<rparr>)"
proof (cases "arena fs ! cur")
  case (NFile c)
  with wf show ?thesis by (simp add: link_node_file_noop)
next
  case (NDirectory m)
  have "wf_arena (arena fs)"
    using wf by (simp add: fs_wf_def)
  then show ?thesis
    using wf wf_arena_link_node [OF _ NDirectory cur leaf] entry_link_node [OF NDirectory]
    by (intro fs_wf_arena_update) (simp_all add: NDirectory)
qed

lemma fs_wf_make_dirs:
  assumes wf: "fs_wf fs" and md: "make_dirs (arena fs) (root fs) ps = (ns, r)"
  shows "fs_wf (fs\<lparr>arena := ns\<rparr>)" and "r = Some cur \<Longrightarrow> cur < length ns"
proof -
  have "wf_arena (arena fs)" "root fs < length (arena fs)"
    using wf by (simp_all add: fs_wf_def)
  note * = make_dirs_wf [OF md this]
  show "fs_wf (fs\<lparr>arena := ns\<rparr>)"
    using wf * make_dirs_entry [OF md] by (intro fs_wf_arena_update) simp_all
  show "r = Some cur \<Longrightarrow> cur < length ns"
    using * by simp
qed

lemma fs_wf_add_file [intro, inv_intros]:
  assumes wf: "fs_wf fs"
  shows "fs_wf (RamFs_add_file fs path content)"
proof -
  obtain ns r where md: "make_dirs (arena fs) (root fs) (butlast (path_parts path)) = (ns, r)"
    by fastforce
  note wfns = fs_wf_make_dirs [OF wf md]
  show ?thesis
  proof (cases r)
    case None
    with wf wfns(1) md show ?thesis by (simp add: add_file_link_node Let_def)
  next
    case (Some cur)
    from fs_wf_link_node [OF wfns(1), of cur "NFile content" "last (path_parts path)"]
    have "fs_wf (fs\<lparr>arena := link_node ns cur (last (path_parts path)) (NFile content)\<rparr>)"
      using wfns(2) [OF Some] by (simp add: is_leaf_def)
    with wf md Some show ?thesis by (simp add: add_file_link_node Let_def)
  qed
qed

lemma mkdir_at_start:
  assumes "fs_wf fs"
    and "(if base = 0 then Some (root fs) else bt_get (open_handles fs) base) = Some start"
  shows "start < length (arena fs)"
  using assms unfolding fs_wf_def by (metis option.inject)

lemma fs_wf_mkdir_at [inv_intros]:
  assumes wf: "fs_wf fs" and mk: "RamFs_mkdir_at fs base path = Inr fs'"
  shows "fs_wf fs'"
  using mk
proof (cases rule: mkdir_at_cases)
  case (1 start cur m)
  have "wf_arena (arena fs)"
    using wf by (simp add: fs_wf_def)
  from walk_bounds [OF this mkdir_at_start [OF wf 1(2)] 1(3)] show ?thesis
    unfolding 1(6) using wf by (simp add: fs_wf_link_node is_leaf_def)
qed

lemma RamFs_open_cases:
  assumes "RamFs_open fs path = Inr (h, fs')"
  obtains n where "resolve_path fs path = Inr n" "h = next_handle fs"
    "fs' = fs\<lparr>next_handle := next_handle fs + 1, open_handles := bt_insert h n (open_handles fs)\<rparr>"
  using assms by (auto simp: RamFs_open_def fetch_add_one_def split: sum.splits)

lemma RamFs_open_at_cases:
  assumes "RamFs_open_at fs base path = Inr (h, fs')"
  obtains b n where "bt_get (open_handles fs) base = Some b"
    "walk (arena fs) b (path_parts path) = Inr n" "h = next_handle_at fs"
    "fs' = fs\<lparr>next_handle_at := next_handle_at fs + 1,
              open_handles := bt_insert h n (open_handles fs)\<rparr>"
  using assms by (auto simp: RamFs_open_at_def fetch_add_one_def split: sum.splits option.splits)

lemma fs_wf_handles:
  assumes "fs_wf fs" and "arena fs' = arena fs" and "root fs' = root fs"
    and "bt_sorted (open_handles fs')"
    and "\<And>h n. bt_get (open_handles fs') h = Some n \<Longrightarrow> n < length (arena fs)"
  shows "fs_wf fs'"
  using assms by (simp add: fs_wf_def)

lemma fs_wf_insert_handle:
  assumes wf: "fs_wf fs" and n: "n < length (arena fs)"
    and "arena fs' = arena fs" "root fs' = root fs"
    and "open_handles fs' = bt_insert h n (open_handles fs)"
  shows "fs_wf fs'"
proof (rule fs_wf_handles [OF wf assms(3,4)])
  show "bt_sorted (open_handles fs')"
    using wf assms(5) by (auto simp: fs_wf_def)
  show "k < length (arena fs)" if "bt_get (open_handles fs') j = Some k" for j k
    using that n wf assms(5) by (simp add: fs_wf_def split: if_splits)
qed

lemma resolve_path_bound: "fs_wf fs \<Longrightarrow> resolve_path fs path = Inr n \<Longrightarrow> n < length (arena fs)"
  using walk_bounds by (auto simp: resolve_path_def fs_wf_def)

lemma walk_handle_bound:
  assumes "fs_wf fs" and "bt_get (open_handles fs) base = Some b" and "walk (arena fs) b ps = Inr n"
  shows "n < length (arena fs)"
proof -
  have "wf_arena (arena fs)" "b < length (arena fs)"
    using assms(1,2) by (simp_all add: fs_wf_def)
  from walk_bounds [OF this assms(3)] show ?thesis by simp
qed

lemma fs_wf_open [inv_intros]:
  assumes wf: "fs_wf fs" and op: "RamFs_open fs path = Inr (h, fs')"
  shows "fs_wf fs'"
  using op by (cases rule: RamFs_open_cases)
    (rule fs_wf_insert_handle [OF wf resolve_path_bound [OF wf]], auto)

lemma fs_wf_open_at [inv_intros]:
  assumes wf: "fs_wf fs" and op: "RamFs_open_at fs base path = Inr (h, fs')"
  shows "fs_wf fs'"
  using op by (cases rule: RamFs_open_at_cases)
    (rule fs_wf_insert_handle [OF wf walk_handle_bound [OF wf]], auto)

lemma fs_wf_close [intro, inv_intros]: "fs_wf fs \<Longrightarrow> fs_wf (RamFs_close fs h)"
  by (auto simp: fs_wf_def RamFs_close_def split: if_splits)

lemma fs_step_wf: "fs_step fs fs' \<Longrightarrow> fs_wf fs \<Longrightarrow> fs_wf fs'"
  by (induction rule: fs_step.induct) (auto dest: fs_wf_open fs_wf_open_at fs_wf_mkdir_at)

lemma fs_run_wf: "fs_run n m fs \<Longrightarrow> fs_wf fs"
  by (induction rule: fs_run.induct) (auto dest: fs_wf_open fs_wf_open_at fs_wf_mkdir_at)

end
