(* ===== verification/Sync_Registry.thy ===== *)
theory Sync_Registry
  imports Sync BTree_Map
begin

text \<open>
  The registries of \<open>src/src/kernel/src/sync/registry.rs\<close> through which processes reach mutexes and
  semaphores. The two \<open>Once\<close> cells and the spin locks around the maps leave no trace in the
  model; the static counters are fields.
\<close>

section \<open>State and operations\<close>

record 'q Registry =
  mutex_registry :: "(u64, (unit, 'q) AsyncMutex) btreemap"
  sem_registry :: "(u64, 'q Semaphore) btreemap"
  next_mutex_id :: u64
  next_sem_id :: u64

definition init_registries :: "'q Registry" where
  "init_registries =
     \<lparr>mutex_registry = [], sem_registry = [], next_mutex_id = 1, next_sem_id = 1\<rparr>"

definition create_mutex :: "('q, 'w) queue_ops \<Rightarrow> 'q Registry \<Rightarrow> u64 \<times> 'q Registry" where
  "create_mutex Q r =
     (let (handle, next) = fetch_add_one (next_mutex_id r)
      in (handle, r\<lparr>next_mutex_id := next,
            mutex_registry := bt_insert handle (AsyncMutex_new Q ()) (mutex_registry r)\<rparr>))"

definition get_mutex :: "'q Registry \<Rightarrow> u64 \<Rightarrow> (unit, 'q) AsyncMutex option" where
  "get_mutex r handle = bt_get (mutex_registry r) handle"

definition destroy_mutex :: "'q Registry \<Rightarrow> u64 \<Rightarrow> bool \<times> 'q Registry" where
  "destroy_mutex r handle =
     (bt_get (mutex_registry r) handle \<noteq> None,
      r\<lparr>mutex_registry := bt_remove handle (mutex_registry r)\<rparr>)"

definition create_semaphore :: "('q, 'w) queue_ops \<Rightarrow> usize \<Rightarrow> 'q Registry \<Rightarrow> u64 \<times> 'q Registry" where
  "create_semaphore Q n r =
     (let (handle, next) = fetch_add_one (next_sem_id r)
      in (handle, r\<lparr>next_sem_id := next,
            sem_registry := bt_insert handle (Semaphore_new Q n) (sem_registry r)\<rparr>))"

definition get_semaphore :: "'q Registry \<Rightarrow> u64 \<Rightarrow> 'q Semaphore option" where
  "get_semaphore r handle = bt_get (sem_registry r) handle"

definition destroy_semaphore :: "'q Registry \<Rightarrow> u64 \<Rightarrow> bool \<times> 'q Registry" where
  "destroy_semaphore r handle =
     (bt_get (sem_registry r) handle \<noteq> None,
      r\<lparr>sem_registry := bt_remove handle (sem_registry r)\<rparr>)"

text \<open>An operation on an object obtained from a registry changes the object the registry holds: both
  are the same \<open>Arc\<close>.\<close>

definition put_mutex :: "'q Registry \<Rightarrow> u64 \<Rightarrow> (unit, 'q) AsyncMutex \<Rightarrow> 'q Registry" where
  "put_mutex r handle m = r\<lparr>mutex_registry := bt_insert handle m (mutex_registry r)\<rparr>"

definition put_semaphore :: "'q Registry \<Rightarrow> u64 \<Rightarrow> 'q Semaphore \<Rightarrow> 'q Registry" where
  "put_semaphore r handle s = r\<lparr>sem_registry := bt_insert handle s (sem_registry r)\<rparr>"

section \<open>Laws\<close>

lemma get_put_mutex [simp]: "get_mutex (put_mutex r h m) g = (if g = h then Some m else get_mutex r g)"
  by (simp add: get_mutex_def put_mutex_def)

lemma get_put_semaphore [simp]:
  "get_semaphore (put_semaphore r h s) g = (if g = h then Some s else get_semaphore r g)"
  by (simp add: get_semaphore_def put_semaphore_def)

lemma get_mutex_put_semaphore [simp]: "get_mutex (put_semaphore r h s) g = get_mutex r g"
  by (simp add: get_mutex_def put_semaphore_def)

lemma get_semaphore_put_mutex [simp]: "get_semaphore (put_mutex r h m) g = get_semaphore r g"
  by (simp add: get_semaphore_def put_mutex_def)

lemma create_mutex_get:
  "create_mutex Q r = (h, r') \<Longrightarrow>
     get_mutex r' g = (if g = h then Some (AsyncMutex_new Q ()) else get_mutex r g)
     \<and> get_semaphore r' g = get_semaphore r g"
  by (auto simp: create_mutex_def fetch_add_one_def get_mutex_def get_semaphore_def)

lemma create_semaphore_get:
  "create_semaphore Q n r = (h, r') \<Longrightarrow>
     get_semaphore r' g = (if g = h then Some (Semaphore_new Q n) else get_semaphore r g)
     \<and> get_mutex r' g = get_mutex r g"
  by (auto simp: create_semaphore_def fetch_add_one_def get_mutex_def get_semaphore_def)

lemma destroy_mutex_get:
  "destroy_mutex r h = (ok, r') \<Longrightarrow> ok = (get_mutex r h \<noteq> None)
     \<and> get_mutex r' g = (if g = h then None else get_mutex r g)"
  by (auto simp: destroy_mutex_def get_mutex_def)

lemma destroy_semaphore_get:
  "destroy_semaphore r h = (ok, r') \<Longrightarrow> ok = (get_semaphore r h \<noteq> None)
     \<and> get_semaphore r' g = (if g = h then None else get_semaphore r g)"
  by (auto simp: destroy_semaphore_def get_semaphore_def)

end
