(* ===== verification/Wasm_Memory.thy ===== *)
theory Wasm_Memory
  imports Prelude
begin

text \<open>
  The linear memory of a WebAssembly instance belongs to the interpreter \<open>wasmi\<close>, which is not
  part of the repository: it is a parameter of the host functions. A record holds the two
  operations they call; the locale \<open>linear_memory\<close> states their documented behaviour: an access
  fails exactly when it leaves the memory, and otherwise reads or replaces the bytes of its range.
  \<open>list_memory_ops\<close> is a memory with this behaviour.
\<close>

record 'm memory_ops =
  mem_read :: "'m \<Rightarrow> nat \<Rightarrow> nat \<Rightarrow> u8 list option"
  mem_write :: "'m \<Rightarrow> nat \<Rightarrow> u8 list \<Rightarrow> 'm option"

definition list_memory_ops :: "u8 list memory_ops" where
  "list_memory_ops = \<lparr>
     mem_read = (\<lambda>m off n. if off + n \<le> length m then Some (take n (drop off m)) else None),
     mem_write = (\<lambda>m off bs. if off + length bs \<le> length m
                    then Some (take off m @ bs @ drop (off + length bs) m) else None)\<rparr>"

locale linear_memory =
  fixes M :: "'m memory_ops"
    and bytes :: "'m \<Rightarrow> u8 list"
  assumes read_bytes: "mem_read M m off n =
      (if off + n \<le> length (bytes m) then Some (take n (drop off (bytes m))) else None)"
    and write_ok: "off + length bs \<le> length (bytes m) \<Longrightarrow> \<exists>m'. mem_write M m off bs = Some m'
      \<and> bytes m' = take off (bytes m) @ bs @ drop (off + length bs) (bytes m)"
    and write_out: "length (bytes m) < off + length bs \<Longrightarrow> mem_write M m off bs = None"
begin

lemma write_cases:
  assumes "mem_write M m off bs = Some m'"
  shows "off + length bs \<le> length (bytes m)"
    and "bytes m' = take off (bytes m) @ bs @ drop (off + length bs) (bytes m)"
  using assms write_out [of m off bs] write_ok [of off bs m] by (auto simp: not_less [symmetric])

lemma write_length: "mem_write M m off bs = Some m' \<Longrightarrow> length (bytes m') = length (bytes m)"
  using write_cases [of m off bs m'] by simp

lemma write_iff: "(\<exists>m'. mem_write M m off bs = Some m') \<longleftrightarrow> off + length bs \<le> length (bytes m)"
  using write_cases(1) write_ok by blast

lemma write_read:
  "mem_write M m off bs = Some m' \<Longrightarrow> mem_read M m' off (length bs) = Some bs"
  using write_cases [of m off bs m'] by (simp add: read_bytes)

lemma write_append:
  assumes "mem_write M m off bs = Some m'" and "mem_write M m' (off + length bs) cs = Some m''"
  shows "off + length (bs @ cs) \<le> length (bytes m) \<and>
    bytes m'' = take off (bytes m) @ (bs @ cs) @ drop (off + length (bs @ cs)) (bytes m)"
  using write_cases [OF assms(1)] write_cases [OF assms(2)] by (simp add: ac_simps)

lemma write_read_other:
  assumes "mem_write M m off bs = Some m'" and "k + n \<le> off \<or> off + length bs \<le> k"
  shows "mem_read M m' k n = mem_read M m k n"
proof -
  note w = write_cases [OF assms(1)]
  from assms(2) show ?thesis
  proof
    assume "k + n \<le> off"
    with w show ?thesis by (auto simp: read_bytes take_drop min_def)
  next
    assume "off + length bs \<le> k"
    with w show ?thesis by (simp add: read_bytes)
  qed
qed

end

interpretation lm: linear_memory list_memory_ops "\<lambda>m. m"
  by unfold_locales (auto simp: list_memory_ops_def)

end
