(* ===== verification/Host.thy ===== *)
theory Host
  imports Capabilities Ram_Fs Sync_Registry Wasm_Memory
begin

text \<open>
  The host functions of \<open>src/src/kernel/src/wasm/host.rs\<close>: the calls a WebAssembly process makes
  into the kernel. Each of them takes the calling process (its \<open>HostState\<close> and its exported
  memory) and the kernel's global state, and returns an outcome with both: a value, a trap that
  suspends the process, or a panic of the kernel. The interpreter's memory, the waiter queues and
  the kernel's heap are parameters, gathered in \<open>host_env\<close>.
\<close>

section \<open>Error codes and costs\<close>

definition CAP_NOT_FOUND :: i64 where "CAP_NOT_FOUND = - 1"
definition NO_MEMORY_EXPORT :: i64 where "NO_MEMORY_EXPORT = - 2"
definition MEMORY_READ_FAILED :: i64 where "MEMORY_READ_FAILED = - 3"
definition INVALID_UTF8 :: i64 where "INVALID_UTF8 = - 4"
definition PERMISSION_DENIED :: i64 where "PERMISSION_DENIED = - 5"
definition NOT_A_DIRECTORY :: i64 where "NOT_A_DIRECTORY = - 6"
definition FS_ERROR :: i64 where "FS_ERROR = - 7"
definition BUFFER_TOO_SMALL :: i64 where "BUFFER_TOO_SMALL = - 8"
definition MEMORY_WRITE_FAILED :: i64 where "MEMORY_WRITE_FAILED = - 9"
definition NOT_A_FILE :: i64 where "NOT_A_FILE = - 10"
definition MUTEX_LOCKED :: i64 where "MUTEX_LOCKED = - 11"
definition SEM_NO_PERMITS :: i64 where "SEM_NO_PERMITS = - 12"
definition INVALID_HANDLE :: i64 where "INVALID_HANDLE = - 13"

definition CAP_LOOKUP :: u64 where "CAP_LOOKUP = 10"
definition FS_OPERATION :: u64 where "FS_OPERATION = 100"
definition MEMORY_IO :: u64 where "MEMORY_IO = 50"
definition YIELD_THRESHOLD :: u64 where "YIELD_THRESHOLD = 500"
definition SYNC_CREATE :: u64 where "SYNC_CREATE = 50"
definition SYNC_OPERATION :: u64 where "SYNC_OPERATION = 20"

definition as_i32 :: "i64 \<Rightarrow> i32" where
  "as_i32 x = ucast x"

section \<open>State\<close>

datatype HostTrap = Yield | Sleep u64 | MutexWait u64 | SemWait u64

datatype 'a outcome = Ret 'a | Trap HostTrap | Panic

record HostState =
  capabilities :: "(CapId, Capability) btreemap"
  fuel_remaining :: u64

record 'm Caller =
  host :: HostState
  export_memory :: "'m option"

record ('q, 'w) Kernel =
  root_fs :: RamFs
  registry :: "'q Registry"
  next_cap_index :: u32
  console :: "str list"
  wakes :: "'w list"

record ('q, 'w, 'm) host_env =
  queue :: "('q, 'w) queue_ops"
  memory :: "'m memory_ops"
  heap_fits :: "nat \<Rightarrow> bool"

type_synonym ('a, 'm, 'q, 'w) host_result = "'a outcome \<times> 'm Caller \<times> ('q, 'w) Kernel"

definition HostState_new :: HostState where
  "HostState_new = \<lparr>capabilities = [], fuel_remaining = 0\<rparr>"

definition add_capability :: "HostState \<Rightarrow> Capability \<Rightarrow> CapId \<times> HostState" where
  "add_capability h cap =
     (cap_id cap, h\<lparr>capabilities := bt_insert (cap_id cap) cap (capabilities h)\<rparr>)"

definition with_capabilities :: "Capability list \<Rightarrow> HostState" where
  "with_capabilities initial_caps =
     fold (\<lambda>cap state. state\<lparr>capabilities := bt_insert (cap_id cap) cap (capabilities state)\<rparr>)
       initial_caps HostState_new"

definition get_capability :: "HostState \<Rightarrow> CapId \<Rightarrow> Capability option" where
  "get_capability h i =
     (case bt_get (capabilities h) i of
        None \<Rightarrow> None
      | Some cap \<Rightarrow> if ucast (cap_gen cap) = cap_generation i then Some cap else None)"

definition HostState_revoke :: "HostState \<Rightarrow> CapId \<Rightarrow> HostState" where
  "HostState_revoke h i = h\<lparr>capabilities := bt_remove i (capabilities h)\<rparr>"

definition consume_fuel :: "HostState \<Rightarrow> u64 \<Rightarrow> bool \<times> HostState" where
  "consume_fuel h cost =
     (let fuel = saturating_sub (fuel_remaining h) cost
      in (YIELD_THRESHOLD \<le> fuel, h\<lparr>fuel_remaining := fuel\<rparr>))"

text \<open>\<open>check_fuel(...)?\<close>: the rest of the function runs only if the fuel is sufficient.\<close>

definition check_fuel ::
  "u64 \<Rightarrow> 'm Caller \<Rightarrow> ('q, 'w) Kernel
     \<Rightarrow> ('m Caller \<Rightarrow> ('a, 'm, 'q, 'w) host_result) \<Rightarrow> ('a, 'm, 'q, 'w) host_result" where
  "check_fuel cost caller k rest =
     (let (ok, h) = consume_fuel (host caller) cost;
          caller = caller\<lparr>host := h\<rparr>
      in if ok then rest caller else (Trap Yield, caller, k))"

text \<open>\<open>vec![0u8; n]\<close> panics when \<open>n\<close> exceeds \<open>isize::MAX\<close>, and when the heap cannot serve it.\<close>

definition vec_zeroed :: "('q, 'w, 'm) host_env \<Rightarrow> nat \<Rightarrow> u8 list option" where
  "vec_zeroed E n = (if n \<le> isize_max \<and> heap_fits E n then Some (replicate n 0) else None)"

text \<open>\<open>Capability::new\<close> followed by \<open>add_capability\<close>, as the host functions end.\<close>

definition new_capability ::
  "'m Caller \<Rightarrow> ('q, 'w) Kernel \<Rightarrow> CapabilityType \<Rightarrow> CapabilityRights
     \<Rightarrow> CapId \<times> 'm Caller \<times> ('q, 'w) Kernel" where
  "new_capability caller k object rights =
     (let (cap, n) = Capability_new (next_cap_index k) object rights;
          (i, h) = add_capability (host caller) cap
      in (i, caller\<lparr>host := h\<rparr>, k\<lparr>next_cap_index := n\<rparr>))"

section \<open>Debugging and discovery\<close>

definition host_print :: "'m Caller \<Rightarrow> ('q, 'w) Kernel \<Rightarrow> (unit, 'm, 'q, 'w) host_result" where
  "host_print caller k =
     (Ret (), caller, k\<lparr>console := console k @ [''[WASM] Host function 'print' called'']\<rparr>)"

definition type_val :: "CapabilityType \<Rightarrow> u32" where
  "type_val object =
     (case object of File _ \<Rightarrow> 0 | Directory _ \<Rightarrow> 1 | Mutex _ \<Rightarrow> 2 | Semaphore _ \<Rightarrow> 3 | _ \<Rightarrow> 255)"

text \<open>The loop that writes one 16-byte entry per capability; the Boolean tells whether every write
  succeeded. The writes made before a failure stay in the memory.\<close>

fun write_caps :: "'m memory_ops \<Rightarrow> Capability list \<Rightarrow> nat \<Rightarrow> 'm \<Rightarrow> bool \<times> 'm" where
  "write_caps M [] offset m = (True, m)"
| "write_caps M (cap # cs) offset m =
     (let id_bytes = le_bytes 8 (CapId_as_u64 (cap_id cap));
          type_bytes = le_bytes 4 (type_val (cap_object cap));
          rights_bytes = le_bytes 4 (cap_rights cap)
      in case mem_write M m offset id_bytes of
           None \<Rightarrow> (False, m)
         | Some m \<Rightarrow>
             (case mem_write M m (offset + 8) type_bytes of
                None \<Rightarrow> (False, m)
              | Some m \<Rightarrow>
                  (case mem_write M m (offset + 12) rights_bytes of
                     None \<Rightarrow> (False, m)
                   | Some m \<Rightarrow> write_caps M cs (offset + 16) m)))"

definition sp_get_capabilities ::
  "('q, 'w, 'm) host_env \<Rightarrow> i32 \<Rightarrow> i32 \<Rightarrow> 'm Caller \<Rightarrow> ('q, 'w) Kernel
     \<Rightarrow> (i32, 'm, 'q, 'w) host_result" where
  "sp_get_capabilities E ptr len caller k =
     check_fuel CAP_LOOKUP caller k (\<lambda>caller.
       case export_memory caller of
         None \<Rightarrow> (Ret (as_i32 NO_MEMORY_EXPORT), caller, k)
       | Some mem \<Rightarrow>
           let cs = bt_values (capabilities (host caller));
               count = length cs;
               required_len = count * 16
           in if i32_as_usize len < required_len
              then (Ret (as_i32 BUFFER_TOO_SMALL), caller, k)
              else check_fuel (MEMORY_IO * word_of_nat count) caller k (\<lambda>caller.
                let (ok, mem) = write_caps (memory E) cs (i32_as_usize ptr) mem;
                    caller = caller\<lparr>export_memory := Some mem\<rparr>
                in if ok then (Ret (word_of_nat count), caller, k)
                   else (Ret (as_i32 MEMORY_WRITE_FAILED), caller, k)))"

section \<open>Filesystem\<close>

text \<open>The path argument of \<open>sp_fs_open\<close> and \<open>sp_fs_mkdir\<close>: a panic, an error code or the string.\<close>

definition read_path ::
  "('q, 'w, 'm) host_env \<Rightarrow> 'm \<Rightarrow> i32 \<Rightarrow> i32 \<Rightarrow> (i64 + str) option" where
  "read_path E mem path_ptr path_len =
     (case vec_zeroed E (i32_as_usize path_len) of
        None \<Rightarrow> None
      | Some buffer \<Rightarrow>
          (case mem_read (memory E) mem (i32_as_usize path_ptr) (length buffer) of
             None \<Rightarrow> Some (Inl MEMORY_READ_FAILED)
           | Some buffer \<Rightarrow>
               (case from_utf8 buffer of
                  None \<Rightarrow> Some (Inl INVALID_UTF8)
                | Some path \<Rightarrow> Some (Inr path))))"

text \<open>The directory a capability names, if it carries the required right.\<close>

definition dir_capability ::
  "HostState \<Rightarrow> i64 \<Rightarrow> CapabilityRights \<Rightarrow> i64 + (FileHandle \<times> CapabilityRights)" where
  "dir_capability h dir_cap required =
     (case get_capability h (CapId_from_u64 dir_cap) of
        Some cap \<Rightarrow>
          (case cap_object cap of
             Directory handle_val \<Rightarrow>
               if rights_contains (cap_rights cap) required
               then Inr (ucast handle_val, cap_rights cap) else Inl PERMISSION_DENIED
           | _ \<Rightarrow> Inl NOT_A_DIRECTORY)
      | None \<Rightarrow> Inl CAP_NOT_FOUND)"

definition sp_fs_open ::
  "('q, 'w, 'm) host_env \<Rightarrow> i64 \<Rightarrow> i32 \<Rightarrow> i32 \<Rightarrow> 'm Caller \<Rightarrow> ('q, 'w) Kernel
     \<Rightarrow> (i64, 'm, 'q, 'w) host_result" where
  "sp_fs_open E dir_cap path_ptr path_len caller k =
     check_fuel FS_OPERATION caller k (\<lambda>caller.
       case export_memory caller of
         None \<Rightarrow> (Ret NO_MEMORY_EXPORT, caller, k)
       | Some mem \<Rightarrow>
           (case read_path E mem path_ptr path_len of
              None \<Rightarrow> (Panic, caller, k)
            | Some (Inl e) \<Rightarrow> (Ret e, caller, k)
            | Some (Inr path) \<Rightarrow>
                (case dir_capability (host caller) dir_cap READ of
                   Inl e \<Rightarrow> (Ret e, caller, k)
                 | Inr (dir_handle, parent_rights) \<Rightarrow>
                     (case RamFs_open_at (root_fs k) dir_handle path of
                        Inl _ \<Rightarrow> (Ret FS_ERROR, caller, k)
                      | Inr (new_handle, fs) \<Rightarrow>
                          let is_dir = RamFs_is_dir fs new_handle;
                              cap_type = (if is_dir then Directory (ucast new_handle)
                                          else File (ucast new_handle));
                              applicable_rights = (if is_dir then READ OR WRITE OR EXECUTE OR GRANT
                                                   else READ OR WRITE);
                              derived_rights = parent_rights AND applicable_rights;
                              (i, caller, k) = new_capability caller (k\<lparr>root_fs := fs\<rparr>)
                                 cap_type derived_rights
                          in (Ret (CapId_as_u64 i), caller, k)))))"

definition sp_fs_read ::
  "('q, 'w, 'm) host_env \<Rightarrow> i64 \<Rightarrow> i32 \<Rightarrow> i32 \<Rightarrow> i32 \<Rightarrow> 'm Caller \<Rightarrow> ('q, 'w) Kernel
     \<Rightarrow> (i32, 'm, 'q, 'w) host_result" where
  "sp_fs_read E file_cap buf_ptr buf_len offset caller k =
     check_fuel FS_OPERATION caller k (\<lambda>caller.
       case export_memory caller of
         None \<Rightarrow> (Ret (as_i32 NO_MEMORY_EXPORT), caller, k)
       | Some mem \<Rightarrow>
           (case get_capability (host caller) (CapId_from_u64 file_cap) of
              None \<Rightarrow> (Ret (as_i32 CAP_NOT_FOUND), caller, k)
            | Some cap \<Rightarrow>
                (case cap_object cap of
                   File handle_val \<Rightarrow>
                     if \<not> rights_contains (cap_rights cap) READ
                     then (Ret (as_i32 PERMISSION_DENIED), caller, k)
                     else
                       (case vec_zeroed E (i32_as_usize buf_len) of
                          None \<Rightarrow> (Panic, caller, k)
                        | Some buffer \<Rightarrow>
                            (case RamFs_read (root_fs k) (ucast handle_val) buffer
                                    (i32_as_usize offset) of
                               Inl _ \<Rightarrow> (Ret (as_i32 FS_ERROR), caller, k)
                             | Inr (bytes_read, buffer) \<Rightarrow>
                                 check_fuel MEMORY_IO caller k (\<lambda>caller.
                                   case mem_write (memory E) mem (i32_as_usize buf_ptr)
                                          (take bytes_read buffer) of
                                     None \<Rightarrow> (Ret (as_i32 MEMORY_WRITE_FAILED), caller, k)
                                   | Some mem \<Rightarrow>
                                       (Ret (word_of_nat bytes_read),
                                        caller\<lparr>export_memory := Some mem\<rparr>, k))))
                 | _ \<Rightarrow> (Ret (as_i32 NOT_A_FILE), caller, k))))"

definition fs_handle_of :: "CapabilityType \<Rightarrow> FileHandle option" where
  "fs_handle_of object =
     (case object of File v \<Rightarrow> Some (ucast v) | Directory v \<Rightarrow> Some (ucast v) | _ \<Rightarrow> None)"

definition sp_fs_size ::
  "i64 \<Rightarrow> 'm Caller \<Rightarrow> ('q, 'w) Kernel \<Rightarrow> (i32, 'm, 'q, 'w) host_result" where
  "sp_fs_size file_cap caller k =
     check_fuel CAP_LOOKUP caller k (\<lambda>caller.
       case get_capability (host caller) (CapId_from_u64 file_cap) of
         None \<Rightarrow> (Ret (as_i32 CAP_NOT_FOUND), caller, k)
       | Some cap \<Rightarrow>
           (case fs_handle_of (cap_object cap) of
              None \<Rightarrow> (Ret (as_i32 NOT_A_FILE), caller, k)
            | Some handle \<Rightarrow>
                (case RamFs_size (root_fs k) handle of
                   Inr s \<Rightarrow> (Ret (word_of_nat s), caller, k)
                 | Inl _ \<Rightarrow> (Ret (as_i32 FS_ERROR), caller, k))))"

definition sp_fs_close ::
  "i64 \<Rightarrow> 'm Caller \<Rightarrow> ('q, 'w) Kernel \<Rightarrow> (unit, 'm, 'q, 'w) host_result" where
  "sp_fs_close file_cap caller k =
     check_fuel CAP_LOOKUP caller k (\<lambda>caller.
       let i = CapId_from_u64 file_cap;
           removed = bt_get (capabilities (host caller)) i;
           caller = caller\<lparr>host := HostState_revoke (host caller) i\<rparr>
       in case Option.bind removed (\<lambda>cap. fs_handle_of (cap_object cap)) of
            Some handle \<Rightarrow> (Ret (), caller, k\<lparr>root_fs := RamFs_close (root_fs k) handle\<rparr>)
          | None \<Rightarrow> (Ret (), caller, k))"

definition sp_fs_mkdir ::
  "('q, 'w, 'm) host_env \<Rightarrow> i64 \<Rightarrow> i32 \<Rightarrow> i32 \<Rightarrow> 'm Caller \<Rightarrow> ('q, 'w) Kernel
     \<Rightarrow> (i32, 'm, 'q, 'w) host_result" where
  "sp_fs_mkdir E dir_cap path_ptr path_len caller k =
     check_fuel FS_OPERATION caller k (\<lambda>caller.
       case export_memory caller of
         None \<Rightarrow> (Ret (as_i32 NO_MEMORY_EXPORT), caller, k)
       | Some mem \<Rightarrow>
           (case read_path E mem path_ptr path_len of
              None \<Rightarrow> (Panic, caller, k)
            | Some (Inl e) \<Rightarrow> (Ret (as_i32 e), caller, k)
            | Some (Inr path) \<Rightarrow>
                (case dir_capability (host caller) dir_cap WRITE of
                   Inl e \<Rightarrow> (Ret (as_i32 e), caller, k)
                 | Inr (dir_handle, _) \<Rightarrow>
                     (case RamFs_mkdir_at (root_fs k) dir_handle path of
                        Inr fs \<Rightarrow> (Ret 0, caller, k\<lparr>root_fs := fs\<rparr>)
                      | Inl _ \<Rightarrow> (Ret (as_i32 FS_ERROR), caller, k)))))"

section \<open>Scheduling\<close>

definition sp_sched_yield :: "'m Caller \<Rightarrow> ('q, 'w) Kernel \<Rightarrow> (unit, 'm, 'q, 'w) host_result" where
  "sp_sched_yield caller k = (Trap Yield, caller, k)"

section \<open>Synchronisation\<close>

definition sp_mutex_create ::
  "('q, 'w, 'm) host_env \<Rightarrow> 'm Caller \<Rightarrow> ('q, 'w) Kernel \<Rightarrow> (i64, 'm, 'q, 'w) host_result" where
  "sp_mutex_create E caller k =
     check_fuel SYNC_CREATE caller k (\<lambda>caller.
       let (handle, r) = create_mutex (queue E) (registry k);
           (i, caller, k) = new_capability caller (k\<lparr>registry := r\<rparr>) (Mutex handle) CALL
       in (Ret (CapId_as_u64 i), caller, k))"

text \<open>The mutex or semaphore a capability names, if it carries the right \<open>CALL\<close>.\<close>

definition mutex_capability :: "HostState \<Rightarrow> i64 \<Rightarrow> i64 + u64" where
  "mutex_capability h cap =
     (case get_capability h (CapId_from_u64 cap) of
        Some c \<Rightarrow>
          (case cap_object c of
             Mutex handle \<Rightarrow>
               if rights_contains (cap_rights c) CALL then Inr handle else Inl PERMISSION_DENIED
           | _ \<Rightarrow> Inl INVALID_HANDLE)
      | None \<Rightarrow> Inl CAP_NOT_FOUND)"

definition sem_capability :: "HostState \<Rightarrow> i64 \<Rightarrow> i64 + u64" where
  "sem_capability h cap =
     (case get_capability h (CapId_from_u64 cap) of
        Some c \<Rightarrow>
          (case cap_object c of
             Semaphore handle \<Rightarrow>
               if rights_contains (cap_rights c) CALL then Inr handle else Inl PERMISSION_DENIED
           | _ \<Rightarrow> Inl INVALID_HANDLE)
      | None \<Rightarrow> Inl CAP_NOT_FOUND)"

text \<open>\<open>mutex.try_lock().is_some()\<close>: the guard is a temporary of the condition and is dropped when the
  condition has been evaluated, which releases the lock and wakes the next waiter.\<close>

definition try_lock_is_some ::
  "('q, 'w) queue_ops \<Rightarrow> (unit, 'q) AsyncMutex \<Rightarrow> bool \<times> 'w option \<times> (unit, 'q) AsyncMutex" where
  "try_lock_is_some Q m =
     (let (ok, m) = AsyncMutex_try_lock m
      in if ok then (True, AsyncMutexGuard_drop Q m) else (False, None, m))"

definition record_wake :: "'w option \<Rightarrow> ('q, 'w) Kernel \<Rightarrow> ('q, 'w) Kernel" where
  "record_wake w k = (case w of None \<Rightarrow> k | Some x \<Rightarrow> k\<lparr>wakes := wakes k @ [x]\<rparr>)"

definition sp_mutex_lock ::
  "('q, 'w, 'm) host_env \<Rightarrow> i64 \<Rightarrow> 'm Caller \<Rightarrow> ('q, 'w) Kernel \<Rightarrow> (i32, 'm, 'q, 'w) host_result" where
  "sp_mutex_lock E cap caller k =
     check_fuel SYNC_OPERATION caller k (\<lambda>caller.
       case mutex_capability (host caller) cap of
         Inl e \<Rightarrow> (Ret (as_i32 e), caller, k)
       | Inr handle \<Rightarrow>
           (case get_mutex (registry k) handle of
              Some m \<Rightarrow>
                let (ok, w, m) = try_lock_is_some (queue E) m;
                    k = record_wake w (k\<lparr>registry := put_mutex (registry k) handle m\<rparr>)
                in if ok then (Ret 0, caller, k) else (Trap (MutexWait handle), caller, k)
            | None \<Rightarrow> (Ret (as_i32 INVALID_HANDLE), caller, k)))"

definition sp_mutex_try_lock ::
  "('q, 'w, 'm) host_env \<Rightarrow> i64 \<Rightarrow> 'm Caller \<Rightarrow> ('q, 'w) Kernel \<Rightarrow> (i32, 'm, 'q, 'w) host_result" where
  "sp_mutex_try_lock E cap caller k =
     check_fuel SYNC_OPERATION caller k (\<lambda>caller.
       case mutex_capability (host caller) cap of
         Inl e \<Rightarrow> (Ret (as_i32 e), caller, k)
       | Inr handle \<Rightarrow>
           (case get_mutex (registry k) handle of
              Some m \<Rightarrow>
                let (ok, w, m) = try_lock_is_some (queue E) m;
                    k = record_wake w (k\<lparr>registry := put_mutex (registry k) handle m\<rparr>)
                in if ok then (Ret 0, caller, k) else (Ret (as_i32 MUTEX_LOCKED), caller, k)
            | None \<Rightarrow> (Ret (as_i32 INVALID_HANDLE), caller, k)))"

definition sp_mutex_unlock ::
  "i64 \<Rightarrow> 'm Caller \<Rightarrow> ('q, 'w) Kernel \<Rightarrow> (i32, 'm, 'q, 'w) host_result" where
  "sp_mutex_unlock cap caller k =
     check_fuel SYNC_OPERATION caller k (\<lambda>caller.
       case mutex_capability (host caller) cap of
         Inl e \<Rightarrow> (Ret (as_i32 e), caller, k)
       | Inr handle \<Rightarrow>
           if get_mutex (registry k) handle \<noteq> None then (Ret 0, caller, k)
           else (Ret (as_i32 INVALID_HANDLE), caller, k))"

definition sp_sem_create ::
  "('q, 'w, 'm) host_env \<Rightarrow> i32 \<Rightarrow> 'm Caller \<Rightarrow> ('q, 'w) Kernel \<Rightarrow> (i64, 'm, 'q, 'w) host_result" where
  "sp_sem_create E n caller k =
     check_fuel SYNC_CREATE caller k (\<lambda>caller.
       if sint n < 0 then (Ret PERMISSION_DENIED, caller, k)
       else
         let (handle, r) = create_semaphore (queue E) (scast n) (registry k);
             (i, caller, k) = new_capability caller (k\<lparr>registry := r\<rparr>) (Semaphore handle) CALL
         in (Ret (CapId_as_u64 i), caller, k))"

text \<open>\<open>spurious\<close> holds the spurious failures of \<open>compare_exchange_weak\<close> in this call.\<close>

definition sp_sem_acquire ::
  "bool list \<Rightarrow> i64 \<Rightarrow> 'm Caller \<Rightarrow> ('q, 'w) Kernel \<Rightarrow> (i32, 'm, 'q, 'w) host_result" where
  "sp_sem_acquire spurious cap caller k =
     check_fuel SYNC_OPERATION caller k (\<lambda>caller.
       case sem_capability (host caller) cap of
         Inl e \<Rightarrow> (Ret (as_i32 e), caller, k)
       | Inr handle \<Rightarrow>
           (case get_semaphore (registry k) handle of
              Some s \<Rightarrow>
                let (ok, s) = try_acquire spurious s;
                    k = k\<lparr>registry := put_semaphore (registry k) handle s\<rparr>
                in if ok then (Ret 0, caller, k) else (Trap (SemWait handle), caller, k)
            | None \<Rightarrow> (Ret (as_i32 INVALID_HANDLE), caller, k)))"

definition sp_sem_try_acquire ::
  "bool list \<Rightarrow> i64 \<Rightarrow> 'm Caller \<Rightarrow> ('q, 'w) Kernel \<Rightarrow> (i32, 'm, 'q, 'w) host_result" where
  "sp_sem_try_acquire spurious cap caller k =
     check_fuel SYNC_OPERATION caller k (\<lambda>caller.
       case sem_capability (host caller) cap of
         Inl e \<Rightarrow> (Ret (as_i32 e), caller, k)
       | Inr handle \<Rightarrow>
           (case get_semaphore (registry k) handle of
              Some s \<Rightarrow>
                let (ok, s) = try_acquire spurious s;
                    k = k\<lparr>registry := put_semaphore (registry k) handle s\<rparr>
                in if ok then (Ret 0, caller, k) else (Ret (as_i32 SEM_NO_PERMITS), caller, k)
            | None \<Rightarrow> (Ret (as_i32 INVALID_HANDLE), caller, k)))"

definition sp_sem_release ::
  "('q, 'w, 'm) host_env \<Rightarrow> bool list \<Rightarrow> i64 \<Rightarrow> 'm Caller \<Rightarrow> ('q, 'w) Kernel
     \<Rightarrow> (i32, 'm, 'q, 'w) host_result" where
  "sp_sem_release E spurious cap caller k =
     check_fuel SYNC_OPERATION caller k (\<lambda>caller.
       case sem_capability (host caller) cap of
         Inl e \<Rightarrow> (Ret (as_i32 e), caller, k)
       | Inr handle \<Rightarrow>
           (case get_semaphore (registry k) handle of
              Some s \<Rightarrow>
                (case Semaphore_release (queue E) spurious s of
                   None \<Rightarrow> (Panic, caller, k)
                 | Some (w, s) \<Rightarrow>
                     (Ret 0, caller,
                      record_wake w (k\<lparr>registry := put_semaphore (registry k) handle s\<rparr>)))
            | None \<Rightarrow> (Ret (as_i32 INVALID_HANDLE), caller, k)))"

end
