(* ===== verification/Ram_Fs_Spec.thy ===== *)
theory Ram_Fs_Spec
  imports Ram_Fs
begin

text \<open>
  What the filesystem of theory \<open>Ram_Fs\<close> promises: \<open>mkdir\<close> and \<open>add_file\<close> implement their
  specifications on the abstract view, a file added is the file read back, an operation through a
  directory handle stays below that directory, an open handle reads the same bytes whatever else
  happens, and handles do not clash for the first 9999 calls of \<open>open\<close> (and do clash after).
\<close>

section \<open>The traverse-or-create loop\<close>

lemma make_dirs_fresh:
  "ns ! cur = NDirectory [] \<Longrightarrow> cur < length ns \<Longrightarrow> \<exists>ns' c. make_dirs ns cur ps = (ns', Some c)"
proof (induction ps arbitrary: ns cur)
  case Nil
  then show ?case by simp
next
  case (Cons p ps)
  have "link_node ns cur p (NDirectory []) ! length ns = NDirectory []"
    using Cons.prems by (simp add: nth_link_node_new)
  from Cons.IH [OF this] Cons.prems show ?case
    by (simp add: make_dirs_Cons child_def)
qed

lemma make_dirs_None:
  assumes "make_dirs ns cur ps = (ns', None)" and "cur < length ns" and "wf_arena ns"
  shows "ns' = ns \<and> (\<exists>qs c. strict_prefix qs ps \<and> view ns cur qs = Some (AFile c))"
  using assms
proof (induction ps arbitrary: cur)
  case Nil
  then show ?case by simp
next
  case (Cons p ps)
  show ?case
  proof (cases "ns ! cur")
    case (NFile c)
    with Cons.prems(1) have "ns' = ns" by (simp add: make_dirs_Cons)
    moreover have "strict_prefix [] (p # ps)" "view ns cur [] = Some (AFile c)"
      using NFile by simp_all
    ultimately show ?thesis by blast
  next
    case (NDirectory m)
    show ?thesis
    proof (cases "child ns cur p")
      case None
      have "link_node ns cur p (NDirectory []) ! length ns = NDirectory []"
        using NDirectory by (simp add: nth_link_node_new)
      from make_dirs_fresh [OF this, of ps] None NDirectory Cons.prems(1) show ?thesis
        by (auto simp: make_dirs_Cons)
    next
      case (Some d)
      with NDirectory Cons.prems(1) have md: "make_dirs ns d ps = (ns', None)"
        by (simp add: make_dirs_Cons)
      have "d < length ns"
        using wf_arena_child [OF Cons.prems(3,2) Some] by simp
      from Cons.IH [OF md this Cons.prems(3)] obtain qs c
        where "ns' = ns" "strict_prefix (p # qs) (p # ps)" "view ns cur (p # qs) = Some (AFile c)"
        using Some by (auto simp: view_Cons)
      then show ?thesis by blast
    qed
  qed
qed

lemma make_dirs_no_file:
  assumes "make_dirs ns cur ps = (ns', Some c)" and "strict_prefix qs ps"
  shows "view ns cur qs \<noteq> Some (AFile d)"
  using assms
proof (induction ps arbitrary: cur qs ns)
  case Nil
  then show ?case by simp
next
  case (Cons p ps)
  from Cons.prems(1) obtain m where m: "ns ! cur = NDirectory m"
    by (cases "ns ! cur") (auto simp: make_dirs_Cons)
  show ?case
  proof (cases qs)
    case Nil
    with m show ?thesis by simp
  next
    case (Cons q rs)
    with \<open>strict_prefix qs (p # ps)\<close> have q: "q = p" "strict_prefix rs ps" by auto
    show ?thesis
      using Cons.IH [of ns _ rs] Cons.prems(1) m q \<open>qs = q # rs\<close>
      by (cases "child ns cur p") (auto simp: view_Cons make_dirs_Cons)
  qed
qed

text \<open>Seen from any node above, the loop adds the missing directories of the path, nothing else.\<close>

lemma make_dirs_view:
  assumes "make_dirs ns cur ps = (ns', Some c)" and "wf_arena ns"
    and "b < length ns" and "walk ns b us = Inr cur"
  shows "walk ns' b (us @ ps) = Inr c \<and>
     view ns' b qs = (case view ns b qs of
        Some e \<Rightarrow> Some e
      | None \<Rightarrow> if prefix qs (us @ ps) then Some ADir else None)"
  using assms
proof (induction ps arbitrary: ns cur us)
  case Nil
  have "view ns b qs \<noteq> None" if "prefix qs us"
    using that Nil.prems(4) by (auto simp: view_def walk_append prefix_def split: sum.splits)
  with Nil show ?case by (auto split: option.splits)
next
  case (Cons p ps)
  from Cons.prems(1) obtain m where m: "ns ! cur = NDirectory m"
    by (cases "ns ! cur") (auto simp: make_dirs_Cons)
  have cur: "cur < length ns"
    using walk_bounds [OF Cons.prems(2,3,4)] by simp
  show ?case
  proof (cases "child ns cur p")
    case (Some d)
    with Cons.prems(1) m have "make_dirs ns d ps = (ns', Some c)" by (simp add: make_dirs_Cons)
    moreover have "walk ns b (us @ [p]) = Inr d"
      using Cons.prems(4) Some by (simp add: walk_append walk_child)
    ultimately show ?thesis
      using Cons.IH [of ns d "us @ [p]"] Cons.prems(2,3) by simp
  next
    case None
    let ?ns = "link_node ns cur p (NDirectory [])"
    have leaf: "is_leaf (NDirectory [])" by (simp add: is_leaf_def)
    note link = view_link_node [OF Cons.prems(2) m cur leaf Cons.prems(3,4), of p]
    have old: "view ns b (us @ p # rs) = None" for rs
      using Cons.prems(4) None by (simp add: view_append view_Cons)
    have w: "walk ?ns b (us @ [p]) = Inr (length ns)"
      using walk_link_node [OF Cons.prems(2) m cur Cons.prems(3,4)] child_link_node [OF m cur cur]
      by (simp add: walk_append walk_child)
    have "make_dirs ?ns (length ns) ps = (ns', Some c)"
      using Cons.prems(1) m None by (simp add: make_dirs_Cons)
    from Cons.IH [OF this wf_arena_link_node [OF Cons.prems(2) m cur leaf] _ w] Cons.prems(3) m
    have IH: "walk ns' b (us @ p # ps) = Inr c"
      "view ns' b qs = (case view ?ns b qs of Some e \<Rightarrow> Some e
         | None \<Rightarrow> if prefix qs (us @ p # ps) then Some ADir else None)"
      by simp_all
    show ?thesis
      using IH link [of qs] old by (auto simp: prefix_def split: option.splits)
  qed
qed

section \<open>Refinement\<close>

lemma fs_wf_start: "fs_wf fs \<Longrightarrow> wf_arena (arena fs) \<and> root fs < length (arena fs)"
  by (simp add: fs_wf_def)

lemma mkdir_refines_from:
  assumes wf: "wf_arena (arena fs)" and b: "b < length (arena fs)"
    and start: "(if base = 0 then Some (root fs) else bt_get (open_handles fs) base) = Some b"
  shows "map_sum id (\<lambda>fs'. view (arena fs') b) (RamFs_mkdir_at fs base path)
    = spec_mkdir (view (arena fs) b) (path_parts path)"
proof (cases "path_parts path = []")
  case True
  then show ?thesis by (simp add: RamFs_mkdir_at_def spec_mkdir_def)
next
  case False
  define ps p ns where "ps = butlast (path_parts path)" and "p = last (path_parts path)"
    and "ns = arena fs"
  have parts: "path_parts path = ps @ [p]"
    using False by (simp add: ps_def p_def)
  note defs = RamFs_mkdir_at_def spec_mkdir_def parts start ns_def [symmetric]
  show ?thesis
  proof (cases "walk ns b ps")
    case (Inl e)
    with walk_error [OF Inl] show ?thesis
      by (simp add: defs view_def)
  next
    case (Inr cur)
    have cur: "cur < length ns"
      using walk_bounds [OF wf b] Inr by (simp add: ns_def)
    have v: "view ns b ps = Some (entry_of (ns ! cur))"
      using Inr by (simp add: view_def)
    show ?thesis
    proof (cases "ns ! cur")
      case (NFile c)
      with Inr v show ?thesis by (simp add: defs)
    next
      case (NDirectory m)
      have vp: "view ns b (ps @ p # qs) = (case bt_get m p of None \<Rightarrow> None | Some c \<Rightarrow> view ns c qs)"
        for qs using Inr NDirectory by (simp add: view_append view_Cons child_def)
      show ?thesis
      proof (cases "bt_get m p")
        case None
        have "view (link_node ns cur p (NDirectory [])) b = (view ns b)(ps @ [p] \<mapsto> ADir)"
          using view_link_node [OF _ NDirectory cur _ _ Inr, of "NDirectory []"] wf b vp None
          by (auto simp: ns_def is_leaf_def fun_eq_iff prefix_def)
        with Inr NDirectory None v vp show ?thesis
          by (simp add: defs bt_contains_key_def link_node_def fun_upd_def)
      next
        case (Some c)
        with Inr NDirectory v vp show ?thesis
          by (simp add: defs bt_contains_key_def)
      qed
    qed
  qed
qed

lemma view_prefix_closed: "view ns b (ps @ qs) \<noteq> None \<Longrightarrow> view ns b ps \<noteq> None"
  using view_append_None [of ns b ps qs] by metis

lemma file_above_snoc:
  "file_above v (ps @ [p]) \<longleftrightarrow> (\<exists>qs c. prefix qs ps \<and> v qs = Some (AFile c))"
  by (auto simp: file_above_def prefix_order.less_le)

lemma add_file_refines_parts:
  assumes wf: "wf_arena ns" and b: "b < length ns"
    and md: "make_dirs ns b ps = (ns', r)"
  shows "view (case r of None \<Rightarrow> ns' | Some cur \<Rightarrow> link_node ns' cur p (NFile content)) b
    = spec_add_file (view ns b) (ps @ [p]) content"
proof (cases r)
  case None
  from make_dirs_None [OF md [unfolded None] b wf] have "ns' = ns" "file_above (view ns b) (ps @ [p])"
    by (auto simp: file_above_snoc prefix_order.less_le)
  with None show ?thesis by (simp add: spec_add_file_def)
next
  case (Some cur)
  from make_dirs_view [OF md [unfolded Some] wf b, of "[]"]
  have w: "walk ns' b ps = Inr cur"
    and v: "\<And>qs. view ns' b qs = (case view ns b qs of Some e \<Rightarrow> Some e
        | None \<Rightarrow> if prefix qs ps then Some ADir else None)"
    by simp_all
  have ns': "wf_arena ns'" "b < length ns'" "cur < length ns'"
    using make_dirs_wf [OF md wf b] b Some by auto
  have top: "view ns' b ps = Some (entry_of (ns' ! cur))"
    using w by (simp add: view_def)
  have nofile: "view ns b qs \<noteq> Some (AFile d)" if "strict_prefix qs ps" for qs d
    using make_dirs_no_file [OF md [unfolded Some] that] .
  show ?thesis
  proof (cases "ns' ! cur")
    case (NFile c)
    with top v [of ps] have old: "view ns b ps = Some (AFile c)"
      by (auto split: option.splits)
    then have "view ns b qs \<noteq> None" if "prefix qs ps" for qs
      using that view_prefix_closed [of ns b qs] by (auto simp: prefix_def simp del: not_None_eq)
    then have "view ns' b = view ns b"
      using v by (auto simp: fun_eq_iff simp del: not_None_eq split: option.splits)
    moreover have "file_above (view ns b) (ps @ [p])"
      using old by (auto simp: file_above_snoc)
    ultimately show ?thesis
      using Some NFile by (simp add: link_node_file_noop spec_add_file_def)
  next
    case (NDirectory m)
    have nf: "view ns b qs \<noteq> Some (AFile d)" if "prefix qs ps" for qs d
      using that nofile [of qs d] top v [of ps] NDirectory
      by (cases "qs = ps") (auto simp: prefix_order.less_le)
    then have "\<not> file_above (view ns b) (ps @ [p])"
      by (auto simp: file_above_snoc)
    moreover have "view ns' b qs = (if prefix qs ps then Some ADir else view ns b qs)" for qs
      using v [of qs] nf [of qs] by (cases "view ns b qs"; cases "the (view ns b qs)") auto
    ultimately show ?thesis
      using Some view_link_node [OF ns'(1) NDirectory ns'(3) _ ns'(2) w, of "NFile content" p]
      by (auto simp: spec_add_file_def is_leaf_def fun_eq_iff)
  qed
qed

lemma add_file_arena:
  assumes "path_parts path \<noteq> []" and "make_dirs (arena fs) (root fs) (butlast (path_parts path)) = (ns, r)"
  shows "RamFs_add_file fs path content = fs\<lparr>arena :=
     (case r of None \<Rightarrow> ns | Some cur \<Rightarrow> link_node ns cur (last (path_parts path)) (NFile content))\<rparr>"
  using assms by (simp add: add_file_link_node split: option.splits)

lemma add_file_view:
  assumes "fs_wf fs"
  shows "fs_view (RamFs_add_file fs path content)
    = spec_add_file (fs_view fs) (path_parts path) content"
proof (cases "path_parts path = []")
  case True
  then show ?thesis by (simp add: add_file_link_node spec_add_file_def)
next
  case False
  obtain ns r where md: "make_dirs (arena fs) (root fs) (butlast (path_parts path)) = (ns, r)"
    by fastforce
  from fs_wf_start [OF assms] add_file_refines_parts [OF _ _ md] False show ?thesis
    by (simp add: add_file_arena [OF False md] fs_view_def)
qed

section \<open>The contract of a filesystem\<close>

text \<open>
  What the host functions rely on, as the trait \<open>FileSystem\<close> promises it: a handle shows the tree
  below one node; \<open>open_at\<close> returns a handle on the node at the path below its base and leaves
  the other handles alone, \<open>read\<close> copies a slice of the file, \<open>close\<close> forgets one handle.
\<close>

locale file_system =
  fixes open_at :: "'s \<Rightarrow> FileHandle \<Rightarrow> str \<Rightarrow> FsError + (FileHandle \<times> 's)"
    and read_file :: "'s \<Rightarrow> FileHandle \<Rightarrow> u8 list \<Rightarrow> nat \<Rightarrow> FsError + (nat \<times> u8 list)"
    and size_file :: "'s \<Rightarrow> FileHandle \<Rightarrow> FsError + nat"
    and close_file :: "'s \<Rightarrow> FileHandle \<Rightarrow> 's"
    and handle_view :: "'s \<Rightarrow> FileHandle \<rightharpoonup> (str list \<rightharpoonup> Entry)"
  assumes open_at_ok:
      "open_at s b path = Inr (h, s') \<Longrightarrow> \<exists>v. handle_view s b = Some v
         \<and> v (path_parts path) \<noteq> None
         \<and> handle_view s' = (handle_view s)(h \<mapsto> \<lambda>qs. v (path_parts path @ qs))"
    and open_at_total:
      "handle_view s b = Some v \<Longrightarrow> v (path_parts path) \<noteq> None \<Longrightarrow> \<exists>r. open_at s b path = Inr r"
    and read_content:
      "handle_view s h = Some v \<Longrightarrow> v [] = Some (AFile c) \<Longrightarrow>
         read_file s h buf off =
           (let n = min (length buf) (length c - off)
            in Inr (n, take n (drop off c) @ drop n buf))"
    and read_not_file:
      "(\<And>v c. handle_view s h = Some v \<Longrightarrow> v [] \<noteq> Some (AFile c)) \<Longrightarrow>
         read_file s h buf off = Inl InvalidHandle"
    and size_content:
      "handle_view s h = Some v \<Longrightarrow> v [] = Some (AFile c) \<Longrightarrow> size_file s h = Inr (length c)"
    and close_view: "handle_view (close_file s h) = (handle_view s)(h := None)"
begin

lemma read_whole:
  assumes "handle_view s h = Some v" and "v [] = Some (AFile c)" and "size_file s h = Inr n"
    and "length buf = n"
  shows "read_file s h buf 0 = Inr (n, c)"
  using assms size_content [OF assms(1,2)] by (simp add: read_content)

lemma read_opened:
  assumes "open_at s b path = Inr (h, s')" and "handle_view s b = Some v"
    and "v (path_parts path) = Some (AFile c)"
  shows "read_file s' h buf off =
    (let n = min (length buf) (length c - off) in Inr (n, take n (drop off c) @ drop n buf))"
proof -
  from open_at_ok [OF assms(1)] assms(2)
  have "handle_view s' h = Some (\<lambda>qs. v (path_parts path @ qs))" by simp
  from read_content [OF this, of c buf off] assms(3) show ?thesis by simp
qed

lemma read_closed: "read_file (close_file s h) h buf off = Inl InvalidHandle"
  by (rule read_not_file) (simp add: close_view)

lemma open_at_closed: "open_at (close_file s h) h path \<noteq> Inr r"
  using open_at_ok [of "close_file s h" h path "fst r" "snd r"] by (auto simp: close_view)

lemma close_other:
  assumes "h \<noteq> g"
  shows "read_file (close_file s h) g buf off = read_file s g buf off"
proof (cases "\<exists>v c. handle_view s g = Some v \<and> v [] = Some (AFile c)")
  case True
  then obtain v c where v: "handle_view s g = Some v" "v [] = Some (AFile c)" by blast
  then have "handle_view (close_file s h) g = Some v"
    using assms by (simp add: close_view)
  from read_content [OF this v(2)] read_content [OF v] show ?thesis by simp
next
  case False
  then have "read_file s g buf off = Inl InvalidHandle"
    by (intro read_not_file) blast
  moreover from False have "read_file (close_file s h) g buf off = Inl InvalidHandle"
    using assms by (intro read_not_file) (simp add: close_view)
  ultimately show ?thesis by simp
qed

end

definition handle_view :: "RamFs \<Rightarrow> FileHandle \<rightharpoonup> (str list \<rightharpoonup> Entry)" where
  "handle_view fs h = map_option (view (arena fs)) (bt_get (open_handles fs) h)"

text \<open>A filesystem with one file in a directory, open as the handles 1 (the root) and 10000 (the
  file), on which the properties are instantiated.\<close>

definition demo_fs :: RamFs where
  "demo_fs = RamFs_add_file RamFs_new ''a/f'' [7, 8, 9]"

definition demo_open :: RamFs where
  "demo_open =
     (case RamFs_open demo_fs [] of
        Inl _ \<Rightarrow> demo_fs
      | Inr (h, fs) \<Rightarrow> (case RamFs_open_at fs h ''a/f'' of Inl _ \<Rightarrow> fs | Inr (g, fs') \<Rightarrow> fs'))"

lemma view_top: "view ns n [] = Some (entry_of (ns ! n))"
  by (simp add: view_def)

lemma view_walk: "walk ns b ps = Inr n \<Longrightarrow> view ns b (ps @ qs) = view ns n qs"
  by (simp add: view_def walk_append)

lemma view_Some_walk: "view ns b ps \<noteq> None \<longleftrightarrow> (\<exists>n. walk ns b ps = Inr n)"
  by (auto simp: view_def split: sum.splits)

interpretation rf: file_system RamFs_open_at RamFs_read RamFs_size RamFs_close handle_view
proof unfold_locales
  fix fs b path h fs'
  assume "RamFs_open_at fs b path = Inr (h, fs')"
  then show "\<exists>v. handle_view fs b = Some v \<and> v (path_parts path) \<noteq> None
      \<and> handle_view fs' = (handle_view fs)(h \<mapsto> \<lambda>qs. v (path_parts path @ qs))"
  proof (cases rule: RamFs_open_at_cases)
    case (1 bn n)
    then show ?thesis
      using view_walk [OF 1(2)]
      by (intro exI [of _ "view (arena fs) bn"])
        (auto simp: handle_view_def fun_eq_iff view_Some_walk simp del: not_None_eq)
  qed
next
  fix fs b v path
  assume "handle_view fs b = Some v" and "v (path_parts path) \<noteq> None"
  then show "\<exists>r. RamFs_open_at fs b path = Inr r"
    by (auto simp: handle_view_def view_def RamFs_open_at_def fetch_add_one_def split: sum.splits)
next
  fix fs h v c buf off
  assume "handle_view fs h = Some v" and "v [] = Some (AFile c)"
  then show "RamFs_read fs h buf off =
      (let n = min (length buf) (length c - off) in Inr (n, take n (drop off c) @ drop n buf))"
    by (auto simp: handle_view_def view_top entry_of_AFile RamFs_read_def Let_def min_def)
next
  fix fs h buf off
  assume *: "\<And>v c. handle_view fs h = Some v \<Longrightarrow> v [] \<noteq> Some (AFile c)"
  have "entry_of (arena fs ! n) \<noteq> AFile c" if "bt_get (open_handles fs) h = Some n" for n c
    using that * [of "view (arena fs) n" c] by (simp add: handle_view_def view_top)
  then show "RamFs_read fs h buf off = Inl InvalidHandle"
    by (auto simp: RamFs_read_def entry_of_AFile split: option.splits Node.splits)
next
  fix fs h v c
  assume "handle_view fs h = Some v" and "v [] = Some (AFile c)"
  then show "RamFs_size fs h = Inr (length c)"
    by (auto simp: handle_view_def view_top entry_of_AFile RamFs_size_def)
next
  fix fs h
  show "handle_view (RamFs_close fs h) = (handle_view fs)(h := None)"
    by (auto simp: handle_view_def fun_eq_iff RamFs_close_def)
qed

section \<open>Handles and steps\<close>

lemma walk_join:
  assumes wf: "wf_arena ns" and "0 < length ns" and s: "s < length ns"
  shows "walk ns 0 vs = Inr c \<Longrightarrow> walk ns s ps = Inr c \<Longrightarrow> \<exists>us. vs = us @ ps \<and> walk ns 0 us = Inr s"
proof (induction ps arbitrary: c vs rule: rev_induct)
  case Nil
  then show ?case by auto
next
  case (snoc q ps)
  from snoc.prems(2) obtain d where d: "walk ns s ps = Inr d" "child ns d q = Some c"
    by (auto simp: walk_append walk_child split: sum.splits option.splits)
  have dc: "d < length ns" "d < c"
    using walk_bounds [OF wf s d(1)] wf_arena_child [OF wf _ d(2)] by auto
  show ?case
  proof (cases vs rule: rev_cases)
    case Nil
    with snoc.prems(1) dc show ?thesis by simp
  next
    case (snoc ws r)
    with snoc.prems(1) obtain e where e: "walk ns 0 ws = Inr e" "child ns e r = Some c"
      by (auto simp: walk_append walk_child split: sum.splits option.splits)
    have "e < length ns"
      using walk_bounds [OF wf \<open>0 < length ns\<close> e(1)] by auto
    then have "e = d \<and> r = q"
      using wf_arena_parent [OF wf _ dc(1) e(2) d(2)] by simp
    with e snoc.IH [OF _ d(1), of ws] snoc show ?thesis by auto
  qed
qed

lemma link_node_length: "length ns \<le> length (link_node ns cur p x)"
  by (simp add: link_node_def split: Node.splits)

lemma entry_link_node_any: "i < length ns \<Longrightarrow> entry_of (link_node ns cur p x ! i) = entry_of (ns ! i)"
  by (cases "ns ! cur") (simp_all add: link_node_file_noop entry_link_node)

lemma fs_step_entry:
  assumes "fs_step fs fs'" and wf: "fs_wf fs" and i: "i < length (arena fs)"
  shows "entry_of (arena fs' ! i) = entry_of (arena fs ! i)"
  using assms(1)
proof cases
  case (add_file path content)
  obtain ns r where md: "make_dirs (arena fs) (root fs) (butlast (path_parts path)) = (ns, r)"
    by fastforce
  have "i < length ns"
    using make_dirs_wf [OF md] wf i by (auto simp: fs_wf_def)
  with md i show ?thesis
    unfolding add_file add_file_link_node
    by (auto simp: Let_def entry_link_node_any make_dirs_entry [OF md] split: option.splits)
next
  case (mkdir_at base path)
  from mkdir_at(1) show ?thesis
    by (cases rule: mkdir_at_cases) (simp add: entry_link_node_any i)
qed (auto simp: RamFs_close_def elim: RamFs_open_cases RamFs_open_at_cases)

lemma read_entry:
  assumes "bt_get (open_handles fs') h = bt_get (open_handles fs) h"
    and "\<And>n. bt_get (open_handles fs) h = Some n \<Longrightarrow> entry_of (arena fs' ! n) = entry_of (arena fs ! n)"
  shows "RamFs_read fs' h buf off = RamFs_read fs h buf off"
proof (cases "bt_get (open_handles fs) h")
  case None
  with assms(1) show ?thesis by (simp add: RamFs_read_def)
next
  case (Some n)
  with assms show ?thesis
    by (cases "arena fs' ! n"; cases "arena fs ! n") (auto simp: RamFs_read_def)
qed

lemma size_entry:
  assumes "bt_get (open_handles fs') h = bt_get (open_handles fs) h"
    and "\<And>n. bt_get (open_handles fs) h = Some n \<Longrightarrow> entry_of (arena fs' ! n) = entry_of (arena fs ! n)"
  shows "RamFs_size fs' h = RamFs_size fs h"
proof (cases "bt_get (open_handles fs) h")
  case None
  with assms(1) show ?thesis by (simp add: RamFs_size_def)
next
  case (Some n)
  with assms show ?thesis
    by (cases "arena fs' ! n"; cases "arena fs ! n") (auto simp: RamFs_size_def)
qed

lemma add_file_handles [frame_simps]:
  "open_handles (RamFs_add_file fs path content) = open_handles fs"
  "next_handle (RamFs_add_file fs path content) = next_handle fs"
  "next_handle_at (RamFs_add_file fs path content) = next_handle_at fs"
  by (auto simp: RamFs_add_file_def Let_def split: prod.splits option.splits Node.splits)

lemma mkdir_at_handles:
  "RamFs_mkdir_at fs base path = Inr fs' \<Longrightarrow> open_handles fs' = open_handles fs
     \<and> next_handle fs' = next_handle fs \<and> next_handle_at fs' = next_handle_at fs"
  by (erule mkdir_at_cases) simp

text \<open>The counters of a run, and where the handles of each counter lie.\<close>

lemma fs_run_counters:
  "fs_run n m fs \<Longrightarrow> next_handle fs = of_nat (n + 1) \<and> next_handle_at fs = of_nat (10000 + m)"
  by (induction rule: fs_run.induct)
    (auto simp: RamFs_new_def frame_simps RamFs_close_def dest: mkdir_at_handles
      elim!: RamFs_open_cases RamFs_open_at_cases)

lemma fs_run_handles:
  "fs_run n m fs \<Longrightarrow> n < 2 ^ 32 - 1 \<Longrightarrow> m < 2 ^ 32 - 10000 \<Longrightarrow> bt_get (open_handles fs) h = Some k \<Longrightarrow>
     (1 \<le> unat h \<and> unat h \<le> n) \<or> (10000 \<le> unat h \<and> unat h < 10000 + m)"
proof (induction arbitrary: h k rule: fs_run.induct)
  case (open_path n m fs path g fs')
  have "unat g = n + 1"
    using open_path.hyps fs_run_counters [OF open_path.hyps(1)] open_path.prems(1)
    by (auto elim!: RamFs_open_cases simp: unat_of_nat_u32 simp del: of_nat_Suc of_nat_add)
  with open_path show ?case
    by (cases "h = g") (fastforce elim!: RamFs_open_cases)+
next
  case (open_at n m fs base path g fs')
  have "unat g = 10000 + m"
    using open_at.hyps fs_run_counters [OF open_at.hyps(1)] open_at.prems(2)
    by (auto elim!: RamFs_open_at_cases simp: unat_of_nat_u32 simp del: of_nat_Suc of_nat_add)
  with open_at show ?case
    by (cases "h = g") (fastforce elim!: RamFs_open_at_cases)+
next
  case (mkdir_at n m fs base path fs')
  then show ?case using mkdir_at_handles [OF mkdir_at.hyps(2)] by simp
qed (auto simp: RamFs_new_def frame_simps RamFs_close_def split: if_splits)

lemma fs_run_root: "fs_run n m fs \<Longrightarrow> root fs = 0"
  by (induction rule: fs_run.induct)
    (auto simp: RamFs_new_def RamFs_close_def add_file_link_node Let_def
      elim!: RamFs_open_cases RamFs_open_at_cases mkdir_at_cases split: prod.splits option.splits)

lemma demo_fs_eval:
  "demo_fs = \<lparr>arena = [NDirectory [(''a'', 1)], NDirectory [(''f'', 2)], NFile [7, 8, 9]], root = 0,
     open_handles = [], next_handle = 1, next_handle_at = 10000\<rparr>"
  by code_simp

lemma demo_open_eval:
  "demo_open = \<lparr>arena = [NDirectory [(''a'', 1)], NDirectory [(''f'', 2)], NFile [7, 8, 9]], root = 0,
     open_handles = [(1, 0), (10000, 2)], next_handle = 2, next_handle_at = 10001\<rparr>"
  by code_simp

lemma demo_fs_wf: "fs_wf demo_fs"
  by (auto simp: demo_fs_def)

lemma demo_open_run: "fs_run 1 1 demo_open"
proof -
  have "fs_run 0 0 demo_fs"
    unfolding demo_fs_def by (intro fs_run.intros)
  moreover obtain fs where op: "RamFs_open demo_fs [] = Inr (1, fs)" "RamFs_open_at fs 1 ''a/f'' = Inr (10000, demo_open)"
    unfolding demo_open_def by (rule that [of "snd (projr (RamFs_open demo_fs []))"]; code_simp)
  ultimately show ?thesis
    using fs_run.open_at fs_run.open_path by (metis One_nat_def)
qed

text \<open>Opening the root again and again until the counter of \<open>open\<close> reaches 10000.\<close>

lemma open_root_again:
  "k \<le> 9998 \<Longrightarrow> \<exists>fs. fs_run (Suc k) 1 fs \<and> arena fs = arena demo_open
     \<and> root fs = 0 \<and> bt_get (open_handles fs) 10000 = Some 2"
proof (induction k)
  case 0
  show ?case
    using demo_open_run by (intro exI [of _ demo_open]) (simp add: demo_open_eval)
next
  case (Suc k)
  then obtain fs where fs: "fs_run (Suc k) 1 fs" "arena fs = arena demo_open" "root fs = 0"
    "bt_get (open_handles fs) 10000 = Some 2" by auto
  obtain h fs' where op: "RamFs_open fs [] = Inr (h, fs')" "h = next_handle fs"
    "fs' = fs\<lparr>next_handle := next_handle fs + 1, open_handles := bt_insert h 0 (open_handles fs)\<rparr>"
    using fs(3) by (simp add: RamFs_open_def resolve_path_def path_parts_def fetch_add_one_def)
  have "unat h = Suc k + 1"
    using op(2) fs_run_counters [OF fs(1)] Suc.prems
    by (simp add: unat_of_nat_u32 del: of_nat_Suc of_nat_add)
  then have "h \<noteq> 10000" using Suc.prems by auto
  then have "arena fs' = arena demo_open" "root fs' = 0" "bt_get (open_handles fs') 10000 = Some 2"
    using op(3) fs by simp_all
  moreover have "fs_run (Suc (Suc k)) 1 fs'"
    by (rule fs_run.open_path [OF fs(1) op(1)])
  ultimately show ?case by blast
qed

section \<open>Properties\<close>

text \<open>C7: \<open>mkdir\<close> implements its specification: seen as a map from paths to entries, it fails with
  the specified error and changes nothing, or adds exactly the one directory.\<close>

theorem mkdir_refines:
  assumes "fs_wf fs"
  shows "map_sum id fs_view (RamFs_mkdir fs path) = spec_mkdir (fs_view fs) (path_parts path)"
proof -
  have "root fs' = root fs" if "RamFs_mkdir_at fs 0 path = Inr fs'" for fs'
    using that by (cases rule: mkdir_at_cases) simp
  then have "map_sum id fs_view (RamFs_mkdir_at fs 0 path)
      = map_sum id (\<lambda>fs'. view (arena fs') (root fs)) (RamFs_mkdir_at fs 0 path)"
    by (cases "RamFs_mkdir_at fs 0 path") (auto simp: fs_view_def)
  then show ?thesis
    using mkdir_refines_from [of fs "root fs" 0 path] fs_wf_start [OF assms]
    by (simp add: RamFs_mkdir_def fs_view_def)
qed

theorem mkdir_refines_witness:
  "fs_wf demo_fs
    \<and> map_sum id fs_view (RamFs_mkdir demo_fs ''a/d'') = spec_mkdir (fs_view demo_fs) (path_parts ''a/d'')"
  using mkdir_refines [of demo_fs "''a/d''"] demo_fs_wf by blast

text \<open>C6: \<open>add_file\<close> implements its specification: nothing happens if the path is empty or a
  component above it is a file; otherwise the file is at the path, nothing is below it, and
  exactly the missing directories above it were added.\<close>

theorem add_file_refines:
  assumes "fs_wf fs"
  shows "fs_view (RamFs_add_file fs path content)
    = spec_add_file (fs_view fs) (path_parts path) content"
  using assms by (rule add_file_view)

theorem add_file_refines_witness:
  "fs_wf demo_fs \<and> fs_view (RamFs_add_file demo_fs ''a/g'' [1])
    = spec_add_file (fs_view demo_fs) (path_parts ''a/g'') [1]"
  using add_file_refines [of demo_fs "''a/g''" "[1]"] demo_fs_wf by blast

text \<open>C8: What \<open>add_file\<close> stores is what \<open>open\<close> and \<open>read\<close> return: unless a file is above the
  path, opening the path afterwards succeeds, and reading the handle at any offset copies exactly
  the content from there on, as far as the buffer reaches.\<close>

theorem add_open_read:
  assumes "fs_wf fs" and "path_parts path \<noteq> []" and "\<not> file_above (fs_view fs) (path_parts path)"
  shows "\<exists>h fs'. RamFs_open (RamFs_add_file fs path content) path = Inr (h, fs')
    \<and> RamFs_size fs' h = Inr (length content)
    \<and> (\<forall>buf off. RamFs_read fs' h buf off =
         (let n = min (length buf) (length content - off)
          in Inr (n, take n (drop off content) @ drop n buf)))"
proof -
  let ?fs = "RamFs_add_file fs path content"
  have "fs_view ?fs (path_parts path) = Some (AFile content)"
    using add_file_view [OF assms(1)] assms by (simp add: spec_add_file_def)
  then obtain n where "resolve_path ?fs path = Inr n" "entry_of (arena ?fs ! n) = AFile content"
    by (auto simp: fs_view_def view_def resolve_path_def split: sum.splits)
  moreover from this obtain h fs' where op: "RamFs_open ?fs path = Inr (h, fs')"
    by (simp add: RamFs_open_def fetch_add_one_def)
  ultimately have "handle_view fs' h = Some (view (arena ?fs) n)"
    by (auto simp: handle_view_def elim: RamFs_open_cases)
  moreover have "view (arena ?fs) n [] = Some (AFile content)"
    using \<open>entry_of (arena ?fs ! n) = AFile content\<close> by (simp add: view_top)
  ultimately show ?thesis
    using op rf.read_content [of fs' h _ content] rf.size_content [of fs' h _ content] by blast
qed

theorem add_open_read_witness:
  "\<exists>h fs'. RamFs_open (RamFs_add_file RamFs_new ''a/f'' [7, 8, 9]) ''a/f'' = Inr (h, fs')
    \<and> RamFs_read fs' h [0, 0] 1 = Inr (2, [8, 9])"
proof -
  have "\<not> file_above (fs_view RamFs_new) ps" for ps
    by (auto simp: file_above_def fs_view_def RamFs_new_def view_def child_def walk_child
        split: sum.splits elim!: walk.elims)
  moreover have "path_parts ''a/f'' \<noteq> []" by code_simp
  ultimately obtain h fs' where
    "RamFs_open (RamFs_add_file RamFs_new ''a/f'' [7, 8, 9]) ''a/f'' = Inr (h, fs')"
    "\<And>buf off. RamFs_read fs' h buf off = (let n = min (length buf) (length [7, 8, 9 :: u8] - off)
          in Inr (n, take n (drop off [7, 8, 9]) @ drop n buf))"
    using add_open_read [of RamFs_new "''a/f''" "[7, 8, 9]"] by blast
  then show ?thesis by auto
qed

text \<open>C9: \<open>open_at\<close> is confined to the directory its base handle names: it fails with
  \<open>InvalidHandle\<close> exactly for a handle that is not open and with \<open>NotFound\<close> exactly for a path
  that does not exist below it, and otherwise the new handle shows exactly the tree at that path
  and every other handle shows what it did.\<close>

theorem open_at_confined:
  "case RamFs_open_at fs base path of
     Inl e \<Rightarrow> (case handle_view fs base of
                 None \<Rightarrow> e = InvalidHandle
               | Some v \<Rightarrow> v (path_parts path) = None \<and> e = NotFound)
   | Inr (h, fs') \<Rightarrow> (case handle_view fs base of
                 None \<Rightarrow> False
               | Some v \<Rightarrow> v (path_parts path) \<noteq> None \<and>
                   handle_view fs' = (handle_view fs)(h \<mapsto> \<lambda>qs. v (path_parts path @ qs)))"
proof (cases "RamFs_open_at fs base path")
  case (Inl e)
  then show ?thesis
    by (auto simp: RamFs_open_at_def handle_view_def view_def fetch_add_one_def
        dest: walk_error split: option.splits sum.splits)
next
  case (Inr r)
  then obtain h fs' where "RamFs_open_at fs base path = Inr (h, fs')" by (cases r) auto
  with rf.open_at_ok [OF this] show ?thesis by auto
qed

text \<open>C10: \<open>mkdir_at\<close> is confined to the directory its base handle names: in every state of a run, the
  only path whose entry it can change is the requested one below a place of that directory,
  and there it puts a directory.\<close>

theorem mkdir_at_confined:
  assumes "fs_run n m fs" and "RamFs_mkdir_at fs base path = Inr fs'"
    and "(if base = 0 then Some (root fs) else bt_get (open_handles fs) base) = Some start"
    and "fs_view fs' qs \<noteq> fs_view fs qs"
  shows "fs_view fs' qs = Some ADir
    \<and> (\<exists>us. walk (arena fs) (root fs) us = Inr start \<and> qs = us @ path_parts path)"
  using assms(2)
proof (cases rule: mkdir_at_cases)
  case (1 s cur d)
  let ?ns = "arena fs" and ?p = "last (path_parts path)"
  have wf: "fs_wf fs" "wf_arena ?ns" "root fs = 0" "0 < length ?ns"
    using fs_run_wf [OF assms(1)] fs_run_root [OF assms(1)] by (auto simp: fs_wf_def)
  have s: "s = start" "s < length ?ns"
    using 1(2) assms(3) mkdir_at_start [OF wf(1) 1(2)] by auto
  have cur: "cur < length ?ns"
    using walk_bounds [OF wf(2) s(2) 1(3)] by simp
  have root: "root fs' = 0" using 1(6) wf(3) by simp
  show ?thesis
  proof (cases "\<exists>vs. walk ?ns 0 vs = Inr cur")
    case True
    then obtain vs where vs: "walk ?ns 0 vs = Inr cur" by blast
    from walk_join [OF wf(2,4) s(2) vs 1(3)] obtain us
      where us: "vs = us @ butlast (path_parts path)" "walk ?ns 0 us = Inr s" by blast
    have none: "view ?ns 0 (vs @ ?p # rs) = None" for rs
      using vs 1(5) by (simp add: view_append view_Cons)
    have "view (arena fs') 0 qs = (if qs = vs @ [?p] then Some ADir else view ?ns 0 qs)"
      using 1(6) none view_link_node [OF wf(2) 1(4) cur _ wf(4) vs, of "NDirectory []" ?p qs]
      by (auto simp: is_leaf_def prefix_def)
    with assms(4) us 1(1) s(1) root wf(3) show ?thesis
      by (auto simp: fs_view_def split: if_splits)
  next
    case False
    with view_link_unreachable [OF wf(2) 1(4) cur wf(4)] 1(6) assms(4) wf(3)
    show ?thesis by (simp add: fs_view_def)
  qed
qed

theorem mkdir_at_confined_witness:
  "let fs' = projr (RamFs_mkdir_at demo_open 1 ''a/d'')
   in fs_view fs' [''a'', ''d''] \<noteq> fs_view demo_open [''a'', ''d'']
      \<and> fs_view fs' [''a'', ''d''] = Some ADir
      \<and> (\<exists>us. walk (arena demo_open) (root demo_open) us = Inr 0 \<and> [''a'', ''d''] = us @ path_parts ''a/d'')"
proof -
  let ?fs = "projr (RamFs_mkdir_at demo_open 1 ''a/d'')"
  have "RamFs_mkdir_at demo_open 1 ''a/d'' = Inr ?fs"
    "(if (1::u32) = 0 then Some (root demo_open) else bt_get (open_handles demo_open) 1) = Some 0"
    "fs_view ?fs [''a'', ''d''] \<noteq> fs_view demo_open [''a'', ''d'']"
    unfolding demo_open_eval by code_simp+
  with mkdir_at_confined [OF demo_open_run this] show ?thesis by (simp add: Let_def)
qed

text \<open>Handles are unique for a bounded number of opens: while fewer than 9999 calls of \<open>open\<close> and
  fewer than $2^{32} - 10000$ calls of \<open>open_at\<close> have succeeded, neither of them returns a handle
  that is already open, or the handle 0 that \<open>mkdir_at\<close> reads as the root.\<close>

theorem handles_fresh:
  assumes "fs_run n m fs" and "n < 9999" and "m < 2 ^ 32 - 10000"
    and "RamFs_open fs path = Inr (h, fs') \<or> RamFs_open_at fs base path = Inr (h, fs')"
  shows "bt_get (open_handles fs) h = None \<and> h \<noteq> 0"
proof -
  have h: "unat h = n + 1 \<or> unat h = 10000 + m"
    using assms(2-4) fs_run_counters [OF assms(1)]
    by (auto elim!: RamFs_open_cases RamFs_open_at_cases simp: unat_of_nat_u32
        simp del: of_nat_Suc of_nat_add)
  then have "bt_get (open_handles fs) h \<noteq> Some k" for k
    using fs_run_handles [OF assms(1) _ assms(3), of h k] assms(2) by auto
  moreover have "h \<noteq> 0" using h by auto
  ultimately show ?thesis by auto
qed

theorem handles_fresh_witness:
  "fst (projr (RamFs_open demo_open ''a'')) = 2 \<and> bt_get (open_handles demo_open) 2 = None"
proof -
  obtain fs where op: "RamFs_open demo_open ''a'' = Inr (2, fs)"
    unfolding demo_open_eval
    by (simp add: RamFs_open_def resolve_path_def path_parts_def walk_child child_def fetch_add_one_def)
  have "bt_get (open_handles demo_open) 2 = None"
    using handles_fresh [OF demo_open_run, of "''a''" 2 fs] op by simp
  with op show ?thesis by simp
qed

lemma counted_call_run:
  "counted_call h n m fs n' m' fs' \<Longrightarrow> fs_step fs fs' \<and> (fs_run n m fs \<longrightarrow> fs_run n' m' fs')"
  by (induction rule: counted_call.induct) (auto intro: fs_step.intros fs_run.intros)

text \<open>An open handle stays bound to its node whatever calls follow, other than closing it.\<close>

lemma handle_kept:
  assumes "handle_kept_run h n m fs n' m' fs'" "fs_run n m fs" "bt_get (open_handles fs) h \<noteq> None"
    and "n' < 9999" "m' < 2 ^ 32 - 10000"
  shows "fs_run n' m' fs' \<and> bt_get (open_handles fs') h = bt_get (open_handles fs) h
    \<and> (\<forall>k. bt_get (open_handles fs) h = Some k \<longrightarrow> entry_of (arena fs' ! k) = entry_of (arena fs ! k))"
  using assms
proof (induction rule: handle_kept_run.induct)
  case (step n m fs n' m' fs' n'' m'' fs'')
  then have le: "n' \<le> n''" "m' \<le> m''"
    by (auto elim: counted_call.cases)
  then have IH: "fs_run n' m' fs'" "bt_get (open_handles fs') h = bt_get (open_handles fs) h"
      "\<forall>k. bt_get (open_handles fs) h = Some k \<longrightarrow> entry_of (arena fs' ! k) = entry_of (arena fs ! k)"
    using step by auto
  have run: "fs_run n'' m'' fs''" and call: "fs_step fs' fs''"
    using counted_call_run [OF step(2)] IH(1) by auto
  have bound: "bt_get (open_handles fs'') h = bt_get (open_handles fs') h"
    using step(2)
  proof (cases rule: counted_call.cases)
    case (open_path path g)
    then have "bt_get (open_handles fs') g = None"
      using handles_fresh [OF IH(1), of path g fs''] step.prems(3,4) by auto
    with open_path IH(2) step.prems(2) show ?thesis
      by (auto elim!: RamFs_open_cases)
  next
    case (open_at base path g)
    then have "bt_get (open_handles fs') g = None"
      using handles_fresh [OF IH(1), of path g fs'' base] step.prems(3,4) by auto
    with open_at IH(2) step.prems(2) show ?thesis
      by (auto elim!: RamFs_open_at_cases)
  qed (auto simp: frame_simps RamFs_close_def dest: mkdir_at_handles)
  have "entry_of (arena fs'' ! k) = entry_of (arena fs' ! k)" if "bt_get (open_handles fs') h = Some k" for k
  proof -
    have "fs_wf fs'"
      by (rule fs_run_wf [OF IH(1)])
    moreover from this that have "k < length (arena fs')"
      by (simp add: fs_wf_def)
    ultimately show ?thesis
      by (rule fs_step_entry [OF call])
  qed
  with bound IH run show ?case
    by auto
qed simp

text \<open>C11: An open handle is a stable view of its file: from a filesystem a boot can reach, any sequence of calls
  that does not close the handle -- even replacing the file under the same name -- leaves it bound, and
  reading and asking for the size through it return what they returned before, as long as fewer than
  9999 calls of \<open>open\<close> and fewer than $2^{32} - 10000$ of \<open>open_at\<close> have succeeded since the boot.\<close>

theorem read_stable:
  assumes "fs_run n m fs" "handle_kept_run h n m fs n' m' fs'" "bt_get (open_handles fs) h \<noteq> None"
    and "n' < 9999" "m' < 2 ^ 32 - 10000"
  shows "RamFs_read fs' h buf off = RamFs_read fs h buf off \<and> RamFs_size fs' h = RamFs_size fs h"
proof -
  have kept: "bt_get (open_handles fs') h = bt_get (open_handles fs) h"
      "\<And>k. bt_get (open_handles fs) h = Some k \<Longrightarrow> entry_of (arena fs' ! k) = entry_of (arena fs ! k)"
    using handle_kept [OF assms(2,1,3-5)] by auto
  show ?thesis
    using read_entry [OF kept] size_entry [OF kept] by blast
qed

text \<open>The file is replaced and the root opened once more; the handle still reads the old file.\<close>

theorem read_stable_witness:
  "\<exists>fs'. RamFs_open (RamFs_add_file demo_open ''a/f'' [0]) [] = Inr (2, fs')
     \<and> RamFs_read fs' 10000 [0, 0, 0] 0 = Inr (3, [7, 8, 9])"
proof -
  let ?fs = "RamFs_add_file demo_open ''a/f'' [0]"
  have "next_handle ?fs = 2"
    by (simp add: frame_simps demo_open_eval)
  then obtain fs' where op: "RamFs_open ?fs [] = Inr (2, fs')"
    by (simp add: RamFs_open_def resolve_path_def path_parts_def fetch_add_one_def)
  have run: "handle_kept_run 10000 1 1 demo_open (Suc 1) 1 fs'"
    by (rule handle_kept_run.step [OF handle_kept_run.step [OF handle_kept_run.start counted_call.add_file]
          counted_call.open_path [OF op]])
  have "bt_get (open_handles demo_open) 10000 \<noteq> None"
    unfolding demo_open_eval by code_simp
  then have "RamFs_read fs' 10000 [0, 0, 0] 0 = RamFs_read demo_open 10000 [0, 0, 0] 0"
    using read_stable [OF demo_open_run run, of "[0, 0, 0]" 0] by simp
  also have "\<dots> = Inr (3, [7, 8, 9])"
    unfolding demo_open_eval by code_simp
  finally show ?thesis
    using op by blast
qed

text \<open>The handles of \<open>open\<close> run into those of \<open>open_at\<close>: the two counters start at 1 and 10000
  with no check, so after 9999 successful calls of \<open>open\<close> the next one returns the handle 10000
  although it is still open, and silently redirects its holder from the file to the root.\<close>

theorem handle_collision:
  "\<exists>fs fs'. fs_run 9999 1 fs
     \<and> RamFs_read fs 10000 [0, 0, 0] 0 = Inr (3, [7, 8, 9])
     \<and> RamFs_open fs [] = Inr (10000, fs')
     \<and> RamFs_is_dir fs' 10000 \<and> RamFs_read fs' 10000 [0, 0, 0] 0 = Inl InvalidHandle"
proof -
  obtain fs where fs: "fs_run 9999 1 fs" "arena fs = arena demo_open" "root fs = 0"
    "bt_get (open_handles fs) 10000 = Some 2"
    using open_root_again [of 9998] by auto
  then have "next_handle fs = 10000"
    using fs_run_counters [OF fs(1)] by simp
  then obtain fs' where op: "RamFs_open fs [] = Inr (10000, fs')"
    "fs' = fs\<lparr>next_handle := 10001, open_handles := bt_insert 10000 0 (open_handles fs)\<rparr>"
    using fs(3) by (simp add: RamFs_open_def resolve_path_def path_parts_def fetch_add_one_def)
  then have "RamFs_is_dir fs' 10000 \<and> RamFs_read fs' 10000 [0, 0, 0] 0 = Inl InvalidHandle"
    using fs by (simp add: RamFs_is_dir_def RamFs_read_def demo_open_eval)
  moreover have "RamFs_read fs 10000 [0, 0, 0] 0 = Inr (3, [7, 8, 9])"
    using fs by (simp add: RamFs_read_def demo_open_eval)
  ultimately show ?thesis using fs(1) op(1) by blast
qed

end
