(* ===== verification/Host_Calls.thy ===== *)
theory Host_Calls
  imports Host Ram_Fs_Spec
begin

text \<open>
  A system of processes that call the host functions of theory \<open>Host\<close> in any order. The dispatch is
  the linker's table of \<open>register_functions\<close>. The lemmas show what a call may change: its caller's
  capabilities, and the filesystem through them.
\<close>

section \<open>Dispatch and systems\<close>

datatype host_call =
    Call_print
  | Call_get_capabilities i32 i32
  | Call_fs_open i64 i32 i32
  | Call_fs_read i64 i32 i32 i32
  | Call_fs_size i64
  | Call_fs_close i64
  | Call_fs_mkdir i64 i32 i32
  | Call_sched_yield
  | Call_mutex_create
  | Call_mutex_lock i64
  | Call_mutex_try_lock i64
  | Call_mutex_unlock i64
  | Call_sem_create i32
  | Call_sem_acquire "bool list" i64
  | Call_sem_try_acquire "bool list" i64
  | Call_sem_release "bool list" i64

datatype host_value = Unit | I32 i32 | I64 i64

definition returns :: "('a \<Rightarrow> host_value) \<Rightarrow> ('a, 'm, 'q, 'w) host_result \<Rightarrow> (host_value, 'm, 'q, 'w) host_result" where
  "returns f r = (map_outcome f (fst r), snd r)"

fun register_functions ::
  "('q, 'w, 'm) host_env \<Rightarrow> host_call \<Rightarrow> 'm Caller \<Rightarrow> ('q, 'w) Kernel
     \<Rightarrow> (host_value, 'm, 'q, 'w) host_result" where
  "register_functions E Call_print c k = returns (\<lambda>_. Unit) (host_print c k)"
| "register_functions E (Call_get_capabilities p l) c k = returns I32 (sp_get_capabilities E p l c k)"
| "register_functions E (Call_fs_open d p l) c k = returns I64 (sp_fs_open E d p l c k)"
| "register_functions E (Call_fs_read f p l off) c k = returns I32 (sp_fs_read E f p l off c k)"
| "register_functions E (Call_fs_size f) c k = returns I32 (sp_fs_size f c k)"
| "register_functions E (Call_fs_close f) c k = returns (\<lambda>_. Unit) (sp_fs_close f c k)"
| "register_functions E (Call_fs_mkdir d p l) c k = returns I32 (sp_fs_mkdir E d p l c k)"
| "register_functions E Call_sched_yield c k = returns (\<lambda>_. Unit) (sp_sched_yield c k)"
| "register_functions E Call_mutex_create c k = returns I64 (sp_mutex_create E c k)"
| "register_functions E (Call_mutex_lock x) c k = returns I32 (sp_mutex_lock E x c k)"
| "register_functions E (Call_mutex_try_lock x) c k = returns I32 (sp_mutex_try_lock E x c k)"
| "register_functions E (Call_mutex_unlock x) c k = returns I32 (sp_mutex_unlock x c k)"
| "register_functions E (Call_sem_create n) c k = returns I64 (sp_sem_create E n c k)"
| "register_functions E (Call_sem_acquire sp x) c k = returns I32 (sp_sem_acquire sp x c k)"
| "register_functions E (Call_sem_try_acquire sp x) c k = returns I32 (sp_sem_try_acquire sp x c k)"
| "register_functions E (Call_sem_release sp x) c k = returns I32 (sp_sem_release E sp x c k)"

text \<open>Processes are numbered; a call runs to its end before the next one starts.\<close>

type_synonym ('m, 'q, 'w) System = "(nat \<Rightarrow> 'm Caller) \<times> ('q, 'w) Kernel"

fun system_after ::
  "('q, 'w, 'm) host_env \<Rightarrow> (nat \<times> host_call) list \<Rightarrow> ('m, 'q, 'w) System \<Rightarrow> ('m, 'q, 'w) System" where
  "system_after E [] s = s"
| "system_after E ((p, call) # calls) (callers, k) =
     (let (r, c, k) = register_functions E call (callers p) k
      in system_after E calls (callers(p := c), k))"

text \<open>A small system on which the properties are instantiated: process 0 holds a read-only capability
  on the root directory of \<open>demo_open\<close>, and the string \<open>a/f\<close> at the start of its memory.\<close>

definition demo_env :: "(nat \<times> nat list, nat, u8 list) host_env" where
  "demo_env = \<lparr>queue = list_queue_ops, memory = list_memory_ops, heap_fits = (\<lambda>n. n \<le> 102400)\<rparr>"

definition demo_kernel :: "(nat \<times> nat list, nat) Kernel" where
  "demo_kernel = \<lparr>root_fs = demo_open, registry = init_registries, next_cap_index = 2,
     console = [], wakes = []\<rparr>"

definition demo_cap :: Capability where
  "demo_cap = \<lparr>cap_id = CapId 1 0, cap_rights = READ, cap_object = Directory 1, cap_gen = 0\<rparr>"

definition demo_memory :: "u8 list" where
  "demo_memory = map byte_of_char ''a/f'' @ replicate 61 0"

definition demo_process :: "u8 list Caller" where
  "demo_process = \<lparr>host = (with_capabilities [demo_cap])\<lparr>fuel_remaining := 10000\<rparr>,
     export_memory = Some demo_memory\<rparr>"

definition demo_system :: "(u8 list, nat \<times> nat list, nat) System" where
  "demo_system = (\<lambda>p. if p = 0 then demo_process else demo_process\<lparr>host := HostState_new\<rparr>, demo_kernel)"

definition demo_opened :: RamFs where
  "demo_opened =
     demo_open\<lparr>next_handle_at := 10002, open_handles := [(1, 0), (10000, 2), (10001, 2)]\<rparr>"

definition demo_file_cap :: Capability where
  "demo_file_cap = \<lparr>cap_id = CapId 2 0, cap_rights = READ, cap_object = File 10001, cap_gen = 0\<rparr>"

section \<open>Evaluation of the example\<close>

lemma demo_process_eval:
  "demo_process = \<lparr>host = \<lparr>capabilities = [(CapId 1 0, demo_cap)], fuel_remaining = 10000\<rparr>,
     export_memory = Some demo_memory\<rparr>"
  by (simp add: demo_process_def with_capabilities_def HostState_new_def demo_cap_def)

lemma demo_read_path: "read_path demo_env demo_memory 0 3 = Some (Inr ''a/f'')"
proof -
  have "from_utf8 (map byte_of_char ''a/f'') = Some ''a/f''" by code_simp
  then show ?thesis
    by (simp add: read_path_def vec_zeroed_def i32_as_usize_small demo_env_def isize_max_def
        list_memory_ops_def demo_memory_def)
qed

lemma demo_dir_capability:
  "dir_capability \<lparr>capabilities = [(CapId 1 0, demo_cap)], fuel_remaining = f\<rparr> 1 READ = Inr (1, READ)"
  by (simp add: demo_cap_def dir_capability_def get_capability_def CapId_from_u64_def)

lemma demo_open_at: "RamFs_open_at demo_open 1 ''a/f'' = Inr (10001, demo_opened)"
  unfolding demo_opened_def demo_open_eval by code_simp

lemma demo_opened_file: "\<not> RamFs_is_dir demo_opened 10001"
  unfolding demo_opened_def demo_open_eval by code_simp

lemma read_of_file_rights: "READ AND (READ OR WRITE) = READ"
  by (simp add: READ_def WRITE_def)

lemma demo_sp_fs_open:
  "sp_fs_open demo_env 1 0 3 demo_process demo_kernel =
     (Ret 2,
      demo_process\<lparr>host := \<lparr>capabilities = [(CapId 1 0, demo_cap), (CapId 2 0, demo_file_cap)],
                          fuel_remaining = 9900\<rparr>\<rparr>,
      demo_kernel\<lparr>root_fs := demo_opened, next_cap_index := 3\<rparr>)"
  by (simp add: sp_fs_open_def demo_process_eval demo_kernel_def demo_read_path demo_dir_capability
      demo_open_at demo_opened_file check_fuel_def consume_fuel_def saturating_sub_def
      FS_OPERATION_def YIELD_THRESHOLD_def new_capability_def Capability_new_def fetch_add_one_def
      add_capability_def less_CapId_def CapId_as_u64_def demo_file_cap_def read_of_file_rights Let_def)

section \<open>What a call may change\<close>

lemmas host_defs = check_fuel_def consume_fuel_def new_capability_def Capability_new_def
  fetch_add_one_def add_capability_def HostState_revoke_def

text \<open>Filesystem steps that open no handle: handles may be closed, and every path still leads to the
  node it led to.\<close>

definition fs_grows :: "RamFs \<Rightarrow> RamFs \<Rightarrow> bool" where
  "fs_grows fs fs' \<longleftrightarrow> (fs_wf fs \<longrightarrow>
     next_handle_at fs' = next_handle_at fs \<and> fs_wf fs' \<and> length (arena fs) \<le> length (arena fs')
     \<and> (\<forall>h n. bt_get (open_handles fs') h = Some n \<longrightarrow> bt_get (open_handles fs) h = Some n)
     \<and> (\<forall>b us n. b < length (arena fs) \<longrightarrow> walk (arena fs) b us = Inr n \<longrightarrow> walk (arena fs') b us = Inr n))"

lemma fs_grows_refl [simp]: "fs_grows fs fs"
  by (simp add: fs_grows_def)

lemma fs_grows_close: "fs_grows fs (RamFs_close fs h)"
  by (auto simp: fs_grows_def RamFs_close_def fs_wf_def split: if_splits)

lemma walk_link_fresh:
  assumes wf: "wf_arena ns" and m: "ns ! cur = NDirectory m" and cur: "cur < length ns"
    and fresh: "child ns cur p = None"
  shows "b < length ns \<Longrightarrow> walk ns b us = Inr n \<Longrightarrow> walk (link_node ns cur p x) b us = Inr n"
proof (induction us arbitrary: b)
  case (Cons u us)
  from Cons.prems(2) obtain c where c: "child ns b u = Some c" "walk ns c us = Inr n"
    by (auto simp: walk_child split: option.splits)
  then have "child (link_node ns cur p x) b u = Some c"
    using child_link_node [OF m cur Cons.prems(1), of p x u] fresh by (auto split: if_splits)
  moreover have "c < length ns"
    using wf_arena_child [OF wf Cons.prems(1) c(1)] by simp
  ultimately show ?case
    using Cons.IH [OF _ c(2)] by (simp add: walk_child)
qed simp

lemma fs_grows_mkdir_at:
  assumes mk: "RamFs_mkdir_at fs base path = Inr fs'"
  shows "fs_grows fs fs'"
proof (cases "fs_wf fs")
  case wf: True
  from mk show ?thesis
  proof (cases rule: mkdir_at_cases)
    case (1 start cur m)
    have wa: "wf_arena (arena fs)" using wf by (simp add: fs_wf_def)
    have cur: "cur < length (arena fs)"
      using walk_bounds [OF wa mkdir_at_start [OF wf 1(2)] 1(3)] by simp
    show ?thesis
      using fs_wf_mkdir_at [OF wf mk] mkdir_at_handles [OF mk]
        walk_link_fresh [OF wa 1(4) cur 1(5)] 1(6) link_node_length
      by (simp add: fs_grows_def)
  qed
qed (simp add: fs_grows_def)

text \<open>No filesystem capability but those the caller had before.\<close>

definition fs_caps_from :: "HostState \<Rightarrow> HostState \<Rightarrow> bool" where
  "fs_caps_from h h' \<longleftrightarrow>
     (\<forall>i cap. bt_get (capabilities h') i = Some cap \<longrightarrow> fs_handle_of (cap_object cap) \<noteq> None \<longrightarrow>
        bt_get (capabilities h) i = Some cap)"

lemma fs_handle_of_simps [simp]:
  "fs_handle_of (File v) = Some (ucast v)" "fs_handle_of (Directory v) = Some (ucast v)"
  "fs_handle_of (Mutex v) = None" "fs_handle_of (Semaphore v) = None"
  by (simp_all add: fs_handle_of_def)

lemma fs_caps_from_refl [simp]: "fs_caps_from h h"
  by (simp add: fs_caps_from_def)

lemma fs_caps_from_same: "capabilities h' = capabilities h \<Longrightarrow> fs_caps_from h h'"
  by (simp add: fs_caps_from_def)

lemma fs_caps_from_insert:
  "fs_handle_of (cap_object cap) = None \<Longrightarrow>
     capabilities h' = bt_insert i cap (capabilities h) \<Longrightarrow> fs_caps_from h h'"
  by (auto simp: fs_caps_from_def)

lemma fs_caps_from_remove:
  "capabilities h' = bt_remove i (capabilities h) \<Longrightarrow> fs_caps_from h h'"
  by (auto simp: fs_caps_from_def split: if_splits)

text \<open>A call that opens nothing.\<close>

definition opens_nothing :: "'m Caller \<Rightarrow> ('q, 'w) Kernel \<Rightarrow> 'm Caller \<Rightarrow> ('q, 'w) Kernel \<Rightarrow> bool" where
  "opens_nothing c k c' k' \<longleftrightarrow> fs_caps_from (host c) (host c') \<and> fs_grows (root_fs k) (root_fs k')"

lemma check_fuel_cases:
  assumes "check_fuel cost c k rest = (r, c', k')"
  obtains (yields) h where "r = Trap Yield" "c' = c\<lparr>host := h\<rparr>" "k' = k" "capabilities h = capabilities (host c)"
  | (runs) h where "rest (c\<lparr>host := h\<rparr>) = (r, c', k')" "capabilities h = capabilities (host c)"
      "fuel_remaining h = saturating_sub (fuel_remaining (host c)) cost" "YIELD_THRESHOLD \<le> fuel_remaining h"
  using assms by (auto simp: check_fuel_def consume_fuel_def Let_def split: if_splits)

lemma record_wake_fs [simp]: "root_fs (record_wake w k) = root_fs k"
  by (simp add: record_wake_def split: option.splits)

lemma opens_nothing_caps:
  "capabilities (host c') = capabilities (host c) \<Longrightarrow> root_fs k' = root_fs k \<Longrightarrow> opens_nothing c k c' k'"
  by (simp add: opens_nothing_def fs_caps_from_same)

lemma check_fuel_fs:
  assumes "check_fuel cost c k rest = (r, c', k')" and "\<And>c1. rest c1 = (r, c', k') \<Longrightarrow> root_fs k' = root_fs k"
  shows "root_fs k' = root_fs k"
  using assms by (auto elim: check_fuel_cases)

lemma unchanged_fs_calls:
  shows "host_print c k = (r0, c', k') \<Longrightarrow> root_fs k' = root_fs k"
    and "sp_get_capabilities E p l c k = (r, c', k') \<Longrightarrow> root_fs k' = root_fs k"
    and "sp_fs_read E f p l off c k = (r, c', k') \<Longrightarrow> root_fs k' = root_fs k"
    and "sp_fs_size f c k = (r, c', k') \<Longrightarrow> root_fs k' = root_fs k"
    and "sp_sched_yield c k = (r0, c', k') \<Longrightarrow> root_fs k' = root_fs k"
    and "sp_mutex_create E c k = (r1, c', k') \<Longrightarrow> root_fs k' = root_fs k"
    and "sp_mutex_lock E x c k = (r, c', k') \<Longrightarrow> root_fs k' = root_fs k"
    and "sp_mutex_try_lock E x c k = (r, c', k') \<Longrightarrow> root_fs k' = root_fs k"
    and "sp_mutex_unlock x c k = (r, c', k') \<Longrightarrow> root_fs k' = root_fs k"
    and "sp_sem_create E n c k = (r1, c', k') \<Longrightarrow> root_fs k' = root_fs k"
    and "sp_sem_acquire sp x c k = (r, c', k') \<Longrightarrow> root_fs k' = root_fs k"
    and "sp_sem_try_acquire sp x c k = (r, c', k') \<Longrightarrow> root_fs k' = root_fs k"
    and "sp_sem_release E sp x c k = (r, c', k') \<Longrightarrow> root_fs k' = root_fs k"
  unfolding host_print_def sp_get_capabilities_def sp_fs_read_def sp_fs_size_def sp_sched_yield_def
    sp_mutex_create_def sp_mutex_lock_def sp_mutex_try_lock_def sp_mutex_unlock_def sp_sem_create_def
    sp_sem_acquire_def sp_sem_try_acquire_def sp_sem_release_def
  by (auto simp: Let_def new_capability_def elim!: check_fuel_fs
      split: option.splits sum.splits prod.splits if_splits CapabilityType.splits)
lemma check_fuel_caps:
  assumes "check_fuel cost c k rest = (r, c', k')" and "capabilities (host c) = C"
    and "\<And>h. capabilities h = C \<Longrightarrow> rest (c\<lparr>host := h\<rparr>) = (r, c', k') \<Longrightarrow> capabilities (host c') = C"
  shows "capabilities (host c') = C"
  using assms by (auto elim: check_fuel_cases)

lemma unchanged_caps_calls:
  shows "host_print c k = (r0, c', k') \<Longrightarrow> capabilities (host c') = capabilities (host c)"
    and "sp_get_capabilities E p l c k = (r, c', k') \<Longrightarrow> capabilities (host c') = capabilities (host c)"
    and "sp_fs_read E f p l off c k = (r, c', k') \<Longrightarrow> capabilities (host c') = capabilities (host c)"
    and "sp_fs_size f c k = (r, c', k') \<Longrightarrow> capabilities (host c') = capabilities (host c)"
    and "sp_fs_mkdir E d p l c k = (r, c', k') \<Longrightarrow> capabilities (host c') = capabilities (host c)"
    and "sp_sched_yield c k = (r0, c', k') \<Longrightarrow> capabilities (host c') = capabilities (host c)"
    and "sp_mutex_lock E x c k = (r, c', k') \<Longrightarrow> capabilities (host c') = capabilities (host c)"
    and "sp_mutex_try_lock E x c k = (r, c', k') \<Longrightarrow> capabilities (host c') = capabilities (host c)"
    and "sp_mutex_unlock x c k = (r, c', k') \<Longrightarrow> capabilities (host c') = capabilities (host c)"
    and "sp_sem_acquire sp x c k = (r, c', k') \<Longrightarrow> capabilities (host c') = capabilities (host c)"
    and "sp_sem_try_acquire sp x c k = (r, c', k') \<Longrightarrow> capabilities (host c') = capabilities (host c)"
    and "sp_sem_release E sp x c k = (r, c', k') \<Longrightarrow> capabilities (host c') = capabilities (host c)"
  unfolding host_print_def sp_get_capabilities_def sp_fs_read_def sp_fs_size_def sp_fs_mkdir_def
    sp_sched_yield_def sp_mutex_lock_def sp_mutex_try_lock_def sp_mutex_unlock_def
    sp_sem_acquire_def sp_sem_try_acquire_def sp_sem_release_def
  by (auto simp: Let_def elim!: check_fuel_caps
      split: option.splits sum.splits prod.splits if_splits CapabilityType.splits)

lemma creating_calls:
  shows "sp_mutex_create E c k = (r, c', k') \<Longrightarrow> opens_nothing c k c' k'"
    and "sp_sem_create E n c k = (r, c', k') \<Longrightarrow> opens_nothing c k c' k'"
    and "sp_fs_close f c k = (u, c', k') \<Longrightarrow> opens_nothing c k c' k'"
    and "sp_fs_mkdir E d p l c k = (v, c', k') \<Longrightarrow> opens_nothing c k c' k'"
proof -
  show "sp_mutex_create E c k = (r, c', k') \<Longrightarrow> opens_nothing c k c' k'"
    unfolding sp_mutex_create_def
    by (erule check_fuel_cases)
      (auto simp: Let_def host_defs opens_nothing_def fs_caps_from_def split: prod.splits if_splits)
  show "sp_sem_create E n c k = (r, c', k') \<Longrightarrow> opens_nothing c k c' k'"
    unfolding sp_sem_create_def
    by (erule check_fuel_cases)
      (auto simp: Let_def host_defs opens_nothing_def fs_caps_from_def split: prod.splits if_splits)
  show "sp_fs_close f c k = (u, c', k') \<Longrightarrow> opens_nothing c k c' k'"
    unfolding sp_fs_close_def
    by (erule check_fuel_cases)
      (auto simp: Let_def HostState_revoke_def opens_nothing_def fs_caps_from_def
        intro!: fs_grows_close split: option.splits if_splits)
  show "sp_fs_mkdir E d p l c k = (v, c', k') \<Longrightarrow> opens_nothing c k c' k'"
    unfolding sp_fs_mkdir_def
    by (erule check_fuel_cases)
      (auto simp: Let_def opens_nothing_def
        intro!: fs_caps_from_same fs_grows_mkdir_at split: option.splits sum.splits prod.splits)
qed

lemma returnsD: "returns f r = (v, c, k) \<Longrightarrow> \<exists>u. r = (u, c, k)"
  by (cases r) (auto simp: returns_def)

lemma not_open_opens_nothing:
  assumes "register_functions E call c k = (r, c', k')" and "\<And>d p l. call \<noteq> Call_fs_open d p l"
  shows "opens_nothing c k c' k'"
  using assms
  by (cases call) (auto dest!: returnsD intro: creating_calls opens_nothing_caps unchanged_caps_calls unchanged_fs_calls)

text \<open>What \<open>sp_fs_open\<close> does when it returns a new capability.\<close>

lemma sp_fs_open_cases:
  assumes "sp_fs_open E d p l c k = (r, c', k')" 
  obtains (fails) "opens_nothing c k c' k'" "capabilities (host c') = capabilities (host c)" "root_fs k' = root_fs k"
  | (opened) path cap hv fs new where
      "get_capability (host c) (CapId_from_u64 d) = Some cap" "cap_object cap = Directory hv"
      "rights_contains (cap_rights cap) READ"
      "RamFs_open_at (root_fs k) (ucast hv) path = Inr (new, fs)" "root_fs k' = fs"
      "capabilities (host c') = bt_insert (CapId (next_cap_index k) 0)
         \<lparr>cap_id = CapId (next_cap_index k) 0,
          cap_rights = cap_rights cap AND (if RamFs_is_dir fs new then READ OR WRITE OR EXECUTE OR GRANT else READ OR WRITE),
          cap_object = (if RamFs_is_dir fs new then Directory (ucast new) else File (ucast new)),
          cap_gen = 0\<rparr> (capabilities (host c))"
      "r = Ret (CapId_as_u64 (CapId (next_cap_index k) 0))" "next_cap_index k' = next_cap_index k + 1"
  using assms(1) unfolding sp_fs_open_def
proof (cases rule: check_fuel_cases)
  case (yields h)
  then show thesis using fails opens_nothing_caps [of c' c k'] by simp
next
  case (runs h)
  have g: "get_capability h = get_capability (host c)"
    using runs(2) by (simp add: get_capability_def fun_eq_iff)
  show thesis
  proof (cases "capabilities (host c') = capabilities (host c) \<and> root_fs k' = root_fs k")
    case True
    then show thesis using fails opens_nothing_caps [of c' c k'] by simp
  next
    case False
    with runs(1,2) obtain mem path dh pr new fs where
      x: "export_memory c = Some mem" "read_path E mem p l = Some (Inr path)"
      "dir_capability h d READ = Inr (dh, pr)" "RamFs_open_at (root_fs k) dh path = Inr (new, fs)"
      by (auto split: option.splits sum.splits)
    from x(3) obtain cap hv where
      cap: "get_capability (host c) (CapId_from_u64 d) = Some cap" "cap_object cap = Directory hv"
      "rights_contains (cap_rights cap) READ" "dh = ucast hv" "pr = cap_rights cap"
      by (auto simp: dir_capability_def g split: option.splits if_splits CapabilityType.splits)
    from runs(1) x runs(2) show thesis
      by (intro opened [OF cap(1-3), of path new fs]) (simp_all add: cap host_defs Let_def, auto)
  qed
qed

end
