(* ===== verification/Host_Confinement.thy ===== *)
theory Host_Confinement
  imports Host_Calls
begin

text \<open>
  The object-capability discipline of the host functions: whatever a system of processes calls, a
  process reaches only files below directories it was given at the start, with no more rights than
  it was given for them, and a process that was given nothing leaves the filesystem alone.
\<close>

section \<open>Confinement\<close>

text \<open>\<open>derived h0 fs0 fs cap n\<close>: the node \<open>n\<close> lies below a node for which the process held, at the
  start, a capability with at least the rights of \<open>cap\<close>.\<close>

definition derived :: "HostState \<Rightarrow> RamFs \<Rightarrow> RamFs \<Rightarrow> Capability \<Rightarrow> nat \<Rightarrow> bool" where
  "derived h0 fs0 fs cap n \<longleftrightarrow>
     (\<exists>i c0 g b ps. bt_get (capabilities h0) i = Some c0
        \<and> fs_handle_of (cap_object c0) = Some g \<and> bt_get (open_handles fs0) g = Some b
        \<and> b < length (arena fs) \<and> walk (arena fs) b ps = Inr n
        \<and> rights_contains (cap_rights c0) (cap_rights cap))"

definition confined :: "HostState \<Rightarrow> RamFs \<Rightarrow> HostState \<Rightarrow> RamFs \<Rightarrow> bool" where
  "confined h0 fs0 h fs \<longleftrightarrow>
     (\<forall>i cap g. bt_get (capabilities h) i = Some cap \<longrightarrow> fs_handle_of (cap_object cap) = Some g \<longrightarrow>
        unat g < unat (next_handle_at fs)
        \<and> (\<forall>n. bt_get (open_handles fs) g = Some n \<longrightarrow> derived h0 fs0 fs cap n))"

lemma derived_grows: "derived h0 fs0 fs cap n \<Longrightarrow> fs_grows fs fs' \<Longrightarrow> fs_wf fs \<Longrightarrow> derived h0 fs0 fs' cap n"
  unfolding derived_def fs_grows_def by (meson order_less_le_trans)

lemma confined_grows:
  assumes "confined h0 fs0 h fs" and "fs_caps_from h h'" and "fs_grows fs fs'" and "fs_wf fs"
  shows "confined h0 fs0 h' fs'"
  unfolding confined_def
proof (intro allI impI conjI)
  fix i cap g
  assume cap: "bt_get (capabilities h') i = Some cap" "fs_handle_of (cap_object cap) = Some g"
  then have old: "bt_get (capabilities h) i = Some cap"
    using assms(2) by (auto simp: fs_caps_from_def)
  with assms(1) cap(2) have "unat g < unat (next_handle_at fs)"
    by (auto simp: confined_def)
  with assms(3,4) show "unat g < unat (next_handle_at fs')"
    by (simp add: fs_grows_def)
  fix n assume "bt_get (open_handles fs') g = Some n"
  then have "bt_get (open_handles fs) g = Some n"
    using assms(3,4) by (simp add: fs_grows_def)
  then have "derived h0 fs0 fs cap n"
    using assms(1) old cap(2) by (auto simp: confined_def)
  then show "derived h0 fs0 fs' cap n"
    by (rule derived_grows [OF _ assms(3,4)])
qed

lemma open_at_counter:
  assumes "RamFs_open_at fs base path = Inr (new, fs')" and "unat (next_handle_at fs) + 1 < 2 ^ 32"
  shows "new = next_handle_at fs" and "unat (next_handle_at fs') = unat (next_handle_at fs) + 1"
    and "arena fs' = arena fs"
proof -
  show "new = next_handle_at fs" "arena fs' = arena fs"
    using assms(1) by (auto elim: RamFs_open_at_cases)
  have "next_handle_at fs' = next_handle_at fs + 1"
    using assms(1) by (auto elim: RamFs_open_at_cases)
  moreover have "next_handle_at fs < 0xFFFFFFFF"
    using assms(2) by (simp add: word_less_nat_alt)
  ultimately show "unat (next_handle_at fs') = unat (next_handle_at fs) + 1"
    using unat_inc [of "next_handle_at fs" "0xFFFFFFFF"] by simp
qed

lemma confined_open_at:
  assumes "confined h0 fs0 h fs" and op: "RamFs_open_at fs base path = Inr (new, fs')"
    and bound: "unat (next_handle_at fs) + 1 < 2 ^ 32"
  shows "confined h0 fs0 h fs'"
  unfolding confined_def
proof (intro allI impI conjI)
  fix i cap g
  assume cap: "bt_get (capabilities h) i = Some cap" "fs_handle_of (cap_object cap) = Some g"
  note new = open_at_counter [OF op bound]
  from cap assms(1) have g: "unat g < unat (next_handle_at fs)"
    by (auto simp: confined_def)
  then show "unat g < unat (next_handle_at fs')" using new by simp
  fix n assume "bt_get (open_handles fs') g = Some n"
  then have "bt_get (open_handles fs) g = Some n"
    using op g new(1) by (auto elim!: RamFs_open_at_cases split: if_splits)
  then show "derived h0 fs0 fs' cap n"
    using assms(1) cap new(3) by (auto simp: confined_def derived_def)
qed

lemma confined_opener:
  assumes conf: "confined h0 fs0 h fs" and op: "RamFs_open_at fs base path = Inr (new, fs')"
    and bound: "unat (next_handle_at fs) + 1 < 2 ^ 32" and wf: "fs_wf fs"
    and parent: "bt_get (capabilities h) i = Some cap" "fs_handle_of (cap_object cap) = Some base"
    and h': "capabilities h' = bt_insert j c (capabilities h)" "fs_handle_of (cap_object c) = Some new"
    and rights: "rights_contains (cap_rights cap) (cap_rights c)"
  shows "confined h0 fs0 h' fs'"
proof -
  note new = open_at_counter [OF op bound]
  obtain b n where b: "bt_get (open_handles fs) base = Some b" "walk (arena fs) b (path_parts path) = Inr n"
    "bt_get (open_handles fs') new = Some n"
    using op by (auto elim!: RamFs_open_at_cases)
  from conf parent b(1) obtain i0 c0 g b0 ps where d:
    "bt_get (capabilities h0) i0 = Some c0" "fs_handle_of (cap_object c0) = Some g"
    "bt_get (open_handles fs0) g = Some b0" "b0 < length (arena fs)" "walk (arena fs) b0 ps = Inr b"
    "rights_contains (cap_rights c0) (cap_rights cap)"
    unfolding confined_def derived_def by blast
  have "walk (arena fs) b0 (ps @ path_parts path) = Inr n"
    using d(5) b(2) by (simp add: walk_append)
  then have "derived h0 fs0 fs' c n"
    unfolding derived_def new(3) using d(1-4) rights_contains_trans [OF d(6) rights] by blast
  then have "unat new < unat (next_handle_at fs') \<and>
      (\<forall>m. bt_get (open_handles fs') new = Some m \<longrightarrow> derived h0 fs0 fs' c m)"
    using b(3) new by simp
  then show ?thesis
    using confined_open_at [OF conf op bound] h' by (auto simp: confined_def split: if_splits)
qed


text \<open>The whole system: every process stays confined while every process makes calls.\<close>

definition system_confined ::
  "('m, 'q, 'w) System \<Rightarrow> ('m, 'q, 'w) System \<Rightarrow> bool" where
  "system_confined s0 s \<longleftrightarrow> fs_wf (root_fs (snd s))
     \<and> (\<forall>p. confined (host (fst s0 p)) (root_fs (snd s0)) (host (fst s p)) (root_fs (snd s)))"

lemma get_capability_held: "get_capability h i = Some cap \<Longrightarrow> bt_get (capabilities h) i = Some cap"
  by (auto simp: get_capability_def split: option.splits if_splits)

lemma call_confined:
  assumes conf: "system_confined s0 (callers, k)"
    and call: "register_functions E call (callers p) k = (r, c', k')"
    and bound: "unat (next_handle_at (root_fs k)) + 1 < 2 ^ 32"
  shows "system_confined s0 (callers(p := c'), k')
    \<and> unat (next_handle_at (root_fs k')) \<le> unat (next_handle_at (root_fs k)) + 1"
proof -
  have wf: "fs_wf (root_fs k)" using conf by (simp add: system_confined_def)
  have c: "confined (host (fst s0 q)) (root_fs (snd s0)) (host (callers q)) (root_fs k)" for q
    using conf by (simp add: system_confined_def)
  have quiet: ?thesis if "opens_nothing (callers p) k c' k'"
    using that c confined_grows [OF c _ _ wf] wf
    by (auto simp: system_confined_def opens_nothing_def fs_grows_def)
  show ?thesis
  proof (cases "\<exists>d a l. call = Call_fs_open d a l")
    case False
    then show ?thesis using quiet not_open_opens_nothing [OF call] by blast
  next
    case True
    with call obtain d a l u where "sp_fs_open E d a l (callers p) k = (u, c', k')"
      by (auto dest!: returnsD)
    then show ?thesis
    proof (cases rule: sp_fs_open_cases)
      case fails
      then show ?thesis using quiet by blast
    next
      case (opened path cap hv fs new)
      have "rights_contains (cap_rights cap) (cap_rights cap AND x)" for x
        by (rule rights_contains_and)
      then have "confined (host (fst s0 p)) (root_fs (snd s0)) (host c') (root_fs k')"
        using opened(5)
        by (intro confined_opener [OF c opened(4)[folded opened(5)] bound wf get_capability_held [OF opened(1)] _ opened(6)])
          (auto simp: opened(2))
      moreover have "confined (host (fst s0 q)) (root_fs (snd s0)) (host (callers q)) (root_fs k')" for q
        using confined_open_at [OF c opened(4) bound] opened(5) by simp
      ultimately show ?thesis
        using open_at_counter [OF opened(4) bound] fs_wf_open_at [OF wf opened(4)] opened(5)
        by (auto simp: system_confined_def)
    qed
  qed
qed

lemma run_confined:
  "system_confined s0 (callers, k) \<Longrightarrow> unat (next_handle_at (root_fs k)) + length calls < 2 ^ 32 \<Longrightarrow>
     system_confined s0 (system_after E calls (callers, k))"
proof (induction calls arbitrary: callers k)
  case (Cons x calls)
  obtain p call where x: "x = (p, call)" by fastforce
  obtain r c' k' where call: "register_functions E call (callers p) k = (r, c', k')"
    using prod_cases3 by blast
  from call_confined [OF Cons.prems(1) call] Cons.prems(2)
  have "system_confined s0 (callers(p := c'), k')"
    and "unat (next_handle_at (root_fs k')) + length calls < 2 ^ 32" by auto
  from Cons.IH [OF this] show ?case by (simp add: x call del: fun_upd_apply)
qed simp

section \<open>Processes without filesystem capabilities\<close>

definition no_fs_caps :: "HostState \<Rightarrow> bool" where
  "no_fs_caps h \<longleftrightarrow>
     (\<forall>i cap. bt_get (capabilities h) i = Some cap \<longrightarrow> fs_handle_of (cap_object cap) = None)"

lemma no_fs_caps_from: "no_fs_caps h \<Longrightarrow> fs_caps_from h h' \<Longrightarrow> no_fs_caps h'"
  unfolding no_fs_caps_def fs_caps_from_def by (metis option.distinct(1))

lemma no_fs_dir_capability: "no_fs_caps h \<Longrightarrow> dir_capability h d r \<noteq> Inr x"
  by (fastforce simp: dir_capability_def no_fs_caps_def dest!: get_capability_held
      split: option.splits CapabilityType.splits if_splits)

lemma no_fs_caps_open:
  assumes "no_fs_caps (host c)" and "sp_fs_open E d p l c k = (r, c', k')"
  shows "no_fs_caps (host c') \<and> root_fs k' = root_fs k"
  using assms(2)
proof (cases rule: sp_fs_open_cases)
  case fails
  with assms(1) show ?thesis by (simp add: no_fs_caps_def)
next
  case (opened path cap hv fs new)
  then have "dir_capability (host c) d READ = Inr (ucast hv, cap_rights cap)"
    by (simp add: dir_capability_def)
  with no_fs_dir_capability [OF assms(1)] show ?thesis by blast
qed

lemma no_fs_caps_mkdir:
  assumes "no_fs_caps (host c)" and "sp_fs_mkdir E d p l c k = (r, c', k')"
  shows "root_fs k' = root_fs k"
  using assms(2) unfolding sp_fs_mkdir_def
proof (cases rule: check_fuel_cases)
  case (runs h)
  from assms(1) runs(2) have "no_fs_caps h" by (simp add: no_fs_caps_def)
  from runs(1) no_fs_dir_capability [OF this] show ?thesis
    by (auto split: option.splits sum.splits)
qed simp

lemma no_fs_caps_close:
  assumes "no_fs_caps (host c)" and "sp_fs_close f c k = (r, c', k')"
  shows "root_fs k' = root_fs k"
  using assms(2) unfolding sp_fs_close_def
proof (cases rule: check_fuel_cases)
  case (runs h)
  from assms(1) runs(2) have "no_fs_caps h" by (simp add: no_fs_caps_def)
  then have "Option.bind (bt_get (capabilities h) i) (\<lambda>cap. fs_handle_of (cap_object cap)) = None" for i
    by (cases "bt_get (capabilities h) i") (simp_all add: no_fs_caps_def)
  with runs(1) show ?thesis by (simp add: Let_def)
qed simp

lemma no_fs_caps_call:
  assumes "no_fs_caps (host c)" and "register_functions E call c k = (r, c', k')"
  shows "no_fs_caps (host c') \<and> root_fs k' = root_fs k"
proof (cases "\<exists>d p l. call = Call_fs_open d p l")
  case True
  with assms(2) obtain d p l u where "sp_fs_open E d p l c k = (u, c', k')"
    by (auto dest!: returnsD)
  with no_fs_caps_open [OF assms(1)] show ?thesis by blast
next
  case False
  then have "no_fs_caps (host c')"
    using not_open_opens_nothing [OF assms(2)] no_fs_caps_from [OF assms(1)]
    by (auto simp: opens_nothing_def)
  moreover have "root_fs k' = root_fs k"
    using assms(2) False
    by (cases call) (auto dest!: returnsD intro: unchanged_fs_calls no_fs_caps_mkdir [OF assms(1)] no_fs_caps_close [OF assms(1)])
  ultimately show ?thesis by blast
qed

lemma no_fs_caps_system:
  "\<forall>p \<in> fst ` set calls. no_fs_caps (host (callers p)) \<Longrightarrow>
     root_fs (snd (system_after E calls (callers, k))) = root_fs k"
proof (induction calls arbitrary: callers k)
  case (Cons x calls)
  obtain p call where x: "x = (p, call)" by fastforce
  obtain r c' k' where call: "register_functions E call (callers p) k = (r, c', k')"
    using prod_cases3 by blast
  from no_fs_caps_call [OF _ call] Cons.prems
  have "no_fs_caps (host c')" "root_fs k' = root_fs k" by (auto simp: x)
  moreover from this Cons.prems have "\<forall>q \<in> fst ` set calls. no_fs_caps (host ((callers(p := c')) q))"
    by auto
  from Cons.IH [OF this] have "root_fs (snd (system_after E calls (callers(p := c'), k'))) = root_fs k'" .
  ultimately show ?case
    by (simp add: x call del: fun_upd_apply)
qed simp

lemma demo_open_wf: "fs_wf demo_open"
  by (rule fs_run_wf [OF demo_open_run])

lemma demo_system_opens:
  "system_after demo_env [(0, Call_fs_open 1 0 3)] (fst demo_system, demo_kernel) =
     ((fst demo_system)(0 := demo_process\<lparr>host := \<lparr>capabilities =
          [(CapId 1 0, demo_cap), (CapId 2 0, demo_file_cap)], fuel_remaining = 9900\<rparr>\<rparr>),
      demo_kernel\<lparr>root_fs := demo_opened, next_cap_index := 3\<rparr>)"
  by (simp add: demo_system_def demo_sp_fs_open returns_def)

section \<open>Properties\<close>

text \<open>C1: Processes are isolated: after any sequence of host calls by any processes, a node that a process
  reaches through a filesystem capability lies below a node it could reach at the start, through a
  capability it was given with at least the same rights. The number of calls is bounded only so
  that the 32-bit handle counter does not wrap.\<close>

theorem process_isolation:
  assumes "fs_wf (root_fs k)"
    and "\<And>q j c h. bt_get (capabilities (host (callers q))) j = Some c \<Longrightarrow>
           fs_handle_of (cap_object c) = Some h \<Longrightarrow> h < next_handle_at (root_fs k)"
    and "unat (next_handle_at (root_fs k)) + length calls < 2 ^ 32"
    and "system_after E calls (callers, k) = (callers', k')"
    and "bt_get (capabilities (host (callers' p))) i = Some cap"
    and "fs_handle_of (cap_object cap) = Some g"
    and "bt_get (open_handles (root_fs k')) g = Some n"
  shows "\<exists>j c h b ps. bt_get (capabilities (host (callers p))) j = Some c
    \<and> fs_handle_of (cap_object c) = Some h \<and> bt_get (open_handles (root_fs k)) h = Some b
    \<and> walk (arena (root_fs k')) b ps = Inr n
    \<and> rights_contains (cap_rights c) (cap_rights cap)"
proof -
  have "confined (host (callers q)) (root_fs k) (host (callers q)) (root_fs k)" for q
    unfolding confined_def
  proof (intro allI impI conjI)
    fix j c h
    assume *: "bt_get (capabilities (host (callers q))) j = Some c" "fs_handle_of (cap_object c) = Some h"
    with assms(2) show "unat h < unat (next_handle_at (root_fs k))"
      by (auto simp: word_less_nat_alt)
    fix b assume b: "bt_get (open_handles (root_fs k)) h = Some b"
    then have "b < length (arena (root_fs k))" using assms(1) by (simp add: fs_wf_def)
    moreover have "walk (arena (root_fs k)) b [] = Inr b" by simp
    ultimately show "derived (host (callers q)) (root_fs k) (root_fs k) c b"
      unfolding derived_def using * b rights_contains_refl by blast
  qed
  then have "system_confined (callers, k) (callers, k)"
    using assms(1) by (simp add: system_confined_def)
  from run_confined [OF this assms(3), of E] assms(4)
  have "confined (host (callers p)) (root_fs k) (host (callers' p)) (root_fs k')"
    by (simp add: system_confined_def)
  with assms(5-7) show ?thesis
    unfolding confined_def derived_def by blast
qed

theorem process_isolation_witness:
  "\<exists>j c h b ps. bt_get (capabilities (host demo_process)) j = Some c
    \<and> fs_handle_of (cap_object c) = Some h \<and> bt_get (open_handles demo_open) h = Some b
    \<and> walk (arena demo_opened) b ps = Inr 2 \<and> rights_contains (cap_rights c) (cap_rights demo_file_cap)"
proof -
  have below: "h < next_handle_at (root_fs demo_kernel)"
    if "bt_get (capabilities (host (fst demo_system q))) j = Some c" "fs_handle_of (cap_object c) = Some h"
    for q j c h
    using that by (auto simp: demo_system_def demo_process_eval HostState_new_def demo_cap_def
        demo_kernel_def demo_open_eval split: if_splits)
  have "fs_wf (root_fs demo_kernel)"
    "unat (next_handle_at (root_fs demo_kernel)) + length [(0::nat, Call_fs_open 1 0 3)] < 2 ^ 32"
    by (simp_all add: demo_kernel_def demo_open_wf, simp add: demo_open_eval)
  from process_isolation [where p = 0 and i = "CapId 2 0" and cap = demo_file_cap and g = 10001 and n = 2,
      OF this(1) below this(2) demo_system_opens]
  show ?thesis
    by (simp add: demo_system_def demo_kernel_def demo_file_cap_def demo_opened_def)
qed

text \<open>C2: There is no ambient authority: host calls by processes that were given no filesystem capability
  leave the whole filesystem, its handles included, exactly as it was.\<close>

theorem no_ambient_authority:
  assumes "\<forall>p \<in> fst ` set calls. no_fs_caps (host (callers p))"
  shows "root_fs (snd (system_after E calls (callers, k))) = root_fs k"
  using assms by (rule no_fs_caps_system)

theorem no_ambient_authority_witness:
  "root_fs (snd (system_after demo_env [(1, Call_fs_open 1 0 3), (1, Call_fs_mkdir 1 0 1), (1, Call_fs_close 1)]
     demo_system)) = demo_open"
  using no_ambient_authority [of "[(1, Call_fs_open 1 0 3), (1, Call_fs_mkdir 1 0 1), (1, Call_fs_close 1)]"
      "fst demo_system" demo_env demo_kernel]
  by (simp add: demo_system_def no_fs_caps_def HostState_new_def demo_kernel_def)

end
