(* ===== verification/Host_Spec.thy ===== *)
theory Host_Spec
  imports Host_Confinement
begin

text \<open>
  What the host functions deliver: the fuel they consume, the bytes they put into a process's
  memory, and the state of the mutexes and semaphores they manage.
\<close>

section \<open>Fuel\<close>

text \<open>Every host call but \<open>print\<close> and \<open>sp_sched_yield\<close> is charged.\<close>

definition charged :: "host_call \<Rightarrow> bool" where
  "charged call \<longleftrightarrow> call \<noteq> Call_print \<and> call \<noteq> Call_sched_yield"

definition fuel_within :: "nat \<Rightarrow> 'm Caller \<Rightarrow> bool" where
  "fuel_within F c \<longleftrightarrow> unat (fuel_remaining (host c)) \<le> F \<and> YIELD_THRESHOLD \<le> fuel_remaining (host c)"

lemma fuel_within_host [simp]:
  "fuel_within F (c\<lparr>export_memory := m\<rparr>) = fuel_within F c"
  "fuel_within F (c\<lparr>host := h\<lparr>capabilities := x\<rparr>\<rparr>) = fuel_within F (c\<lparr>host := h\<rparr>)"
  by (simp_all add: fuel_within_def)

lemma check_fuel_within:
  assumes "check_fuel cost c k rest = (Ret v, c', k')"
    and "unat (fuel_remaining (host c)) \<le> F + unat cost"
    and "\<And>h. fuel_within F (c\<lparr>host := h\<rparr>) \<Longrightarrow> rest (c\<lparr>host := h\<rparr>) = (Ret v, c', k') \<Longrightarrow> fuel_within F c'"
  shows "fuel_within F c'"
  using assms(1)
proof (cases rule: check_fuel_cases)
  case (runs h)
  have "unat (fuel_remaining h) = unat (fuel_remaining (host c)) - unat cost"
    using runs(3) by (simp add: unat_saturating_sub)
  with assms(2) runs(4) have "fuel_within F (c\<lparr>host := h\<rparr>)"
    by (simp add: fuel_within_def)
  with runs(1) show ?thesis by (intro assms(3))
qed simp

lemma returns_RetD: "returns f r = (Ret v, c, k) \<Longrightarrow> \<exists>u. r = (Ret u, c, k)"
  by (cases r; cases "fst r") (auto simp: returns_def)

lemma call_spends:
  assumes "unat (fuel_remaining (host c)) \<le> F + 10"
  shows "sp_get_capabilities E p l c k = (Ret r, c', k') \<Longrightarrow> fuel_within F c'"
    and "sp_fs_open E d p l c k = (Ret r1, c', k') \<Longrightarrow> fuel_within F c'"
    and "sp_fs_read E f p l off c k = (Ret r, c', k') \<Longrightarrow> fuel_within F c'"
    and "sp_fs_size f c k = (Ret r, c', k') \<Longrightarrow> fuel_within F c'"
    and "sp_fs_close f c k = (Ret r0, c', k') \<Longrightarrow> fuel_within F c'"
    and "sp_fs_mkdir E d p l c k = (Ret r, c', k') \<Longrightarrow> fuel_within F c'"
    and "sp_mutex_create E c k = (Ret r1, c', k') \<Longrightarrow> fuel_within F c'"
    and "sp_mutex_lock E x c k = (Ret r, c', k') \<Longrightarrow> fuel_within F c'"
    and "sp_mutex_try_lock E x c k = (Ret r, c', k') \<Longrightarrow> fuel_within F c'"
    and "sp_mutex_unlock x c k = (Ret r, c', k') \<Longrightarrow> fuel_within F c'"
    and "sp_sem_create E n c k = (Ret r1, c', k') \<Longrightarrow> fuel_within F c'"
    and "sp_sem_acquire sp x c k = (Ret r, c', k') \<Longrightarrow> fuel_within F c'"
    and "sp_sem_try_acquire sp x c k = (Ret r, c', k') \<Longrightarrow> fuel_within F c'"
    and "sp_sem_release E sp x c k = (Ret r, c', k') \<Longrightarrow> fuel_within F c'"
  unfolding sp_get_capabilities_def sp_fs_open_def sp_fs_read_def sp_fs_size_def sp_fs_close_def
    sp_fs_mkdir_def sp_mutex_create_def sp_mutex_lock_def sp_mutex_try_lock_def sp_mutex_unlock_def
    sp_sem_create_def sp_sem_acquire_def sp_sem_try_acquire_def sp_sem_release_def
  by (auto simp: Let_def new_capability_def Capability_new_def fetch_add_one_def add_capability_def
       HostState_revoke_def CAP_LOOKUP_def FS_OPERATION_def SYNC_CREATE_def SYNC_OPERATION_def
      intro: order_trans [OF assms] elim!: check_fuel_within
      split: option.splits sum.splits prod.splits if_splits CapabilityType.splits)
    (simp_all add: fuel_within_def trans_le_add1)


lemma charged_call_spends:
  assumes "register_functions E call c k = (Ret v, c', k')" and "charged call"
  shows "unat (fuel_remaining (host c')) + 10 \<le> unat (fuel_remaining (host c))
    \<and> 500 \<le> unat (fuel_remaining (host c'))"
proof -
  let ?F = "unat (fuel_remaining (host c)) - 10"
  have le: "unat (fuel_remaining (host c)) \<le> ?F + 10" by simp
  have "fuel_within ?F c'"
    using assms by (cases call) (auto simp: charged_def dest!: returns_RetD call_spends [OF le])
  then have "unat (fuel_remaining (host c')) \<le> ?F" "500 \<le> unat (fuel_remaining (host c'))"
    by (auto simp: fuel_within_def YIELD_THRESHOLD_def word_le_nat_alt)
  then show ?thesis by arith
qed

lemma uncharged_call_fuel:
  "register_functions E call c k = (Ret v, c', k') \<Longrightarrow> \<not> charged call \<Longrightarrow> c' = c"
  by (cases call) (auto simp: charged_def returns_def host_print_def sp_sched_yield_def)

text \<open>The calls of one process that all return, so that it runs on without yielding.\<close>

fun all_return ::
  "('q, 'w, 'm) host_env \<Rightarrow> host_call list \<Rightarrow> 'm Caller \<Rightarrow> ('q, 'w) Kernel \<Rightarrow> bool" where
  "all_return E [] c k = True"
| "all_return E (call # calls) c k =
     (case register_functions E call c k of
        (Ret v, c', k') \<Rightarrow> all_return E calls c' k'
      | _ \<Rightarrow> False)"

lemma all_return_fuel:
  "all_return E calls c k \<Longrightarrow> filter charged calls \<noteq> [] \<Longrightarrow>
     10 * length (filter charged calls) + 500 \<le> unat (fuel_remaining (host c))"
proof (induction calls arbitrary: c k)
  case (Cons call calls)
  from Cons.prems(1) obtain v c' k' where r: "register_functions E call c k = (Ret v, c', k')"
    and rest: "all_return E calls c' k'" by (auto split: prod.splits outcome.splits)
  show ?case
  proof (cases "charged call")
    case False
    with Cons.IH [OF rest] Cons.prems(2) uncharged_call_fuel [OF r] show ?thesis by simp
  next
    case True
    from charged_call_spends [OF r True] True Cons.IH [OF rest] show ?thesis
      by (cases "filter charged calls = []") auto
  qed
qed simp

section \<open>The registries under host calls\<close>

definition registry_ok :: "'q Registry \<Rightarrow> bool" where
  "registry_ok r \<longleftrightarrow>
     (\<forall>h m. get_mutex r h = Some m \<longrightarrow> \<not> locked m)
     \<and> (\<forall>h s. get_semaphore r h = Some s \<longrightarrow> permits s \<le> max_permits s \<and> max_permits s < 2 ^ 31)"

lemma registry_ok_init: "registry_ok init_registries"
  by (simp add: registry_ok_def init_registries_def get_mutex_def get_semaphore_def)

lemma record_wake_registry [simp]: "registry (record_wake w k) = registry k"
  by (simp add: record_wake_def split: option.splits)

lemma try_lock_is_some_unlocked:
  "try_lock_is_some Q m = (ok, w, m') \<Longrightarrow> \<not> locked m \<Longrightarrow> ok \<and> \<not> locked m'"
  by (auto simp: try_lock_is_some_def AsyncMutex_try_lock_def compare_exchange_def AsyncMutexGuard_drop_def
      AsyncMutex_wake_next_def split: prod.splits)

lemma registry_ok_put_mutex: "registry_ok r \<Longrightarrow> \<not> locked m \<Longrightarrow> registry_ok (put_mutex r h m)"
  by (simp add: registry_ok_def)

lemma registry_ok_put_semaphore:
  "registry_ok r \<Longrightarrow> permits s \<le> max_permits s \<Longrightarrow> max_permits s < 2 ^ 31 \<Longrightarrow> registry_ok (put_semaphore r h s)"
  by (simp add: registry_ok_def)

lemma try_acquire_ok:
  assumes "try_acquire sp s = (ok, s')" and "permits s \<le> max_permits s"
  shows "permits s' \<le> max_permits s' \<and> max_permits s' = max_permits s"
proof (cases "permits s = 0")
  case False
  then have "permits s - 1 \<le> permits s"
    using unat_dec [OF False] by (simp add: word_le_nat_alt)
  with assms False show ?thesis by (auto simp: try_acquire_once)
qed (use assms in \<open>auto simp: try_acquire_once\<close>)

lemma release_ok:
  assumes "Semaphore_release Q sp s = r" and "permits s \<le> max_permits s" and "max_permits s < 2 ^ 31"
  shows "\<exists>w s'. r = Some (w, s') \<and> permits s' \<le> max_permits s' \<and> max_permits s' = max_permits s"
proof -
  have "permits s < 2 ^ 31"
    using assms(2,3) by (rule order_le_less_trans)
  then have "permits s \<noteq> - 1" by auto
  with assms show ?thesis
    by (auto simp: Semaphore_release_def release_permits_once split: prod.splits)
qed

lemma create_mutex_ok: "create_mutex Q r = (h, r') \<Longrightarrow> registry_ok r \<Longrightarrow> registry_ok r'"
  using create_mutex_get [of Q r h r'] by (auto simp: registry_ok_def AsyncMutex_new_def split: if_splits)

lemma scast_nonneg: "0 \<le> sint n \<Longrightarrow> (scast (n :: i32) :: usize) < 2 ^ 31"
proof -
  assume "0 \<le> sint n"
  then have "unat n < 2 ^ 31"
    using uint_lt2p [of n] by (simp add: sint_i32 split: if_splits)
  then have "unat (scast n :: usize) < 2 ^ 31"
    using i32_as_usize_small [of n] by (simp add: i32_as_usize_def)
  then show ?thesis by (simp add: word_less_nat_alt)
qed

lemma create_semaphore_ok:
  "create_semaphore Q n r = (h, r') \<Longrightarrow> registry_ok r \<Longrightarrow> n < 2 ^ 31 \<Longrightarrow> registry_ok r'"
  using create_semaphore_get [of Q n r h r'] by (auto simp: registry_ok_def Semaphore_new_def split: if_splits)

lemma check_fuel_registry:
  assumes "check_fuel cost c k rest = (r, c', k')" and "registry_ok (registry k)"
    and "\<And>c1. rest c1 = (r, c', k') \<Longrightarrow> registry_ok (registry k')"
  shows "registry_ok (registry k')"
  using assms by (auto elim: check_fuel_cases)

lemma registry_ok_calls:
  assumes ok: "registry_ok (registry k)"
  shows "host_print c k = (r0, c', k') \<Longrightarrow> registry_ok (registry k')"
    and "sp_get_capabilities E p l c k = (r, c', k') \<Longrightarrow> registry_ok (registry k')"
    and "sp_fs_open E d p l c k = (r1, c', k') \<Longrightarrow> registry_ok (registry k')"
    and "sp_fs_read E f p l off c k = (r, c', k') \<Longrightarrow> registry_ok (registry k')"
    and "sp_fs_size f c k = (r, c', k') \<Longrightarrow> registry_ok (registry k')"
    and "sp_fs_close f c k = (r0, c', k') \<Longrightarrow> registry_ok (registry k')"
    and "sp_fs_mkdir E d p l c k = (r, c', k') \<Longrightarrow> registry_ok (registry k')"
    and "sp_sched_yield c k = (r0, c', k') \<Longrightarrow> registry_ok (registry k')"
    and "sp_mutex_create E c k = (r1, c', k') \<Longrightarrow> registry_ok (registry k')"
    and "sp_mutex_unlock x c k = (r, c', k') \<Longrightarrow> registry_ok (registry k')"
    and "sp_sem_create E n c k = (r1, c', k') \<Longrightarrow> registry_ok (registry k')"
  using ok
  unfolding host_print_def sp_get_capabilities_def sp_fs_open_def sp_fs_read_def sp_fs_size_def
    sp_fs_close_def sp_fs_mkdir_def sp_sched_yield_def sp_mutex_create_def sp_mutex_unlock_def sp_sem_create_def
  by (auto simp: Let_def new_capability_def Capability_new_def fetch_add_one_def add_capability_def not_less
      elim!: check_fuel_registry
      split: option.splits sum.splits prod.splits if_splits CapabilityType.splits)
    (metis create_mutex_ok, metis create_semaphore_ok scast_nonneg)

lemma registry_ok_try_lock:
  "registry_ok r \<Longrightarrow> get_mutex r h = Some m \<Longrightarrow> try_lock_is_some Q m = (ok, w, m') \<Longrightarrow>
     registry_ok (put_mutex r h m') \<and> ok"
  using try_lock_is_some_unlocked [of Q m ok w m'] by (simp add: registry_ok_def)

lemma registry_ok_try_acquire:
  "registry_ok r \<Longrightarrow> get_semaphore r h = Some s \<Longrightarrow> try_acquire sp s = (ok, s') \<Longrightarrow>
     registry_ok (put_semaphore r h s')"
  using try_acquire_ok [of sp s ok s'] by (auto simp: registry_ok_def)

lemma registry_ok_release:
  "registry_ok r \<Longrightarrow> get_semaphore r h = Some s \<Longrightarrow>
     \<exists>w s'. Semaphore_release Q sp s = Some (w, s') \<and> registry_ok (put_semaphore r h s')"
  using release_ok [OF refl, of s Q sp] by (fastforce simp: registry_ok_def)

lemma registry_ok_sync_calls:
  assumes ok: "registry_ok (registry k)"
  shows "sp_mutex_lock E x c k = (r, c', k') \<Longrightarrow> registry_ok (registry k')"
    and "sp_mutex_try_lock E x c k = (r, c', k') \<Longrightarrow> registry_ok (registry k')"
    and "sp_sem_acquire sp x c k = (r, c', k') \<Longrightarrow> registry_ok (registry k')"
    and "sp_sem_try_acquire sp x c k = (r, c', k') \<Longrightarrow> registry_ok (registry k')"
  using ok unfolding sp_mutex_lock_def sp_mutex_try_lock_def sp_sem_acquire_def sp_sem_try_acquire_def
  by (auto simp: Let_def elim!: check_fuel_registry split: option.splits sum.splits prod.splits if_splits)
    (metis registry_ok_try_lock registry_ok_try_acquire)+

lemma registry_ok_sem_release:
  assumes ok: "registry_ok (registry k)" and "sp_sem_release E sp x c k = (r, c', k')"
  shows "registry_ok (registry k') \<and> r \<noteq> Panic"
  using assms(2) unfolding sp_sem_release_def
proof (cases rule: check_fuel_cases)
  case (runs h)
  then show ?thesis
    using ok registry_ok_release [OF ok, of _ _ "queue E" sp]
    by (fastforce split: option.splits sum.splits)
qed (simp add: ok)

lemma registry_ok_call:
  "register_functions E call c k = (r, c', k') \<Longrightarrow> registry_ok (registry k) \<Longrightarrow> registry_ok (registry k')"
  by (cases call) (auto dest!: returnsD dest: registry_ok_calls registry_ok_sync_calls registry_ok_sem_release)

lemma registry_ok_system:
  "registry_ok (registry k) \<Longrightarrow> registry_ok (registry (snd (system_after E calls (callers, k))))"
proof (induction calls arbitrary: callers k)
  case (Cons x calls)
  obtain p call where x: "x = (p, call)" by fastforce
  obtain r c' k' where call: "register_functions E call (callers p) k = (r, c', k')"
    using prod_cases3 by blast
  from Cons.IH [OF registry_ok_call [OF call Cons.prems]] show ?case by (simp add: x call)
qed simp

section \<open>The memory of a process\<close>

definition cap_entry :: "Capability \<Rightarrow> u8 list" where
  "cap_entry cap = le_bytes 8 (CapId_as_u64 (cap_id cap)) @ le_bytes 4 (type_val (cap_object cap))
     @ le_bytes 4 (cap_rights cap)"

text \<open>How a process reads the table back: \<open>n\<close> entries of 16 bytes.\<close>

fun decode_caps :: "nat \<Rightarrow> u8 list \<Rightarrow> (u64 \<times> u32 \<times> u32) list" where
  "decode_caps 0 bs = []"
| "decode_caps (Suc n) bs =
     (le_value (take 8 bs), le_value (take 4 (drop 8 bs)), le_value (take 4 (drop 12 bs)))
     # decode_caps n (drop 16 bs)"

lemma length_cap_entry [simp]: "length (cap_entry cap) = 16"
  by (simp add: cap_entry_def)

lemma decode_cap_entries:
  "decode_caps (length cs) (concat (map cap_entry cs)) =
     map (\<lambda>cap. (CapId_as_u64 (cap_id cap), type_val (cap_object cap), cap_rights cap)) cs"
  by (induction cs) (simp_all add: cap_entry_def le_value_le_bytes)

lemma length_entries16: "length (concat (map cap_entry cs)) = 16 * length cs"
  by (induction cs) simp_all

context linear_memory
begin

lemma write_caps_bytes:
  "off + 16 * length cs \<le> length (bytes m) \<Longrightarrow>
     \<exists>m'. write_caps M cs off m = (True, m') \<and>
       bytes m' = take off (bytes m) @ concat (map cap_entry cs) @ drop (off + 16 * length cs) (bytes m)"
proof (induction cs arbitrary: off m)
  case (Cons cap cs)
  let ?a = "le_bytes 8 (CapId_as_u64 (cap_id cap))" and ?b = "le_bytes 4 (type_val (cap_object cap))"
    and ?c = "le_bytes 4 (cap_rights cap)"
  obtain m1 where m1: "mem_write M m off ?a = Some m1" "length (bytes m1) = length (bytes m)"
    using write_iff [of m off ?a] write_length Cons.prems by auto
  obtain m2 where m2: "mem_write M m1 (off + 8) ?b = Some m2" "length (bytes m2) = length (bytes m)"
    using write_iff [of m1 "off + 8" ?b] write_length m1(2) Cons.prems by auto
  obtain m3 where m3: "mem_write M m2 (off + 12) ?c = Some m3" "length (bytes m3) = length (bytes m)"
    using write_iff [of m2 "off + 12" ?c] write_length m2(2) Cons.prems by auto
  have "bytes m2 = take off (bytes m) @ (?a @ ?b) @ drop (off + 12) (bytes m)"
    using write_append [OF m1(1), of ?b m2] m2(1) by simp
  then have b3: "bytes m3 = take off (bytes m) @ cap_entry cap @ drop (off + 16) (bytes m)"
    using write_cases(2) [OF m3(1)] Cons.prems by (simp add: cap_entry_def ac_simps)
  obtain m' where m': "write_caps M cs (off + 16) m3 = (True, m')"
    "bytes m' = take (off + 16) (bytes m3) @ concat (map cap_entry cs) @ drop (off + 16 + 16 * length cs) (bytes m3)"
    using Cons.IH [of "off + 16" m3] m3(2) Cons.prems by auto
  from Cons.prems b3 m' m1 m2 m3 show ?case
    by (simp add: add.assoc) (metis add.commute add.left_commute)
qed simp

end

section \<open>Calls with enough fuel\<close>

lemma check_fuel_enough:
  assumes "unat cost + 500 \<le> unat (fuel_remaining (host c))"
  shows "check_fuel cost c k rest =
    rest (c\<lparr>host := (host c)\<lparr>fuel_remaining := fuel_remaining (host c) - cost\<rparr>\<rparr>)"
proof -
  have "saturating_sub (fuel_remaining (host c)) cost = fuel_remaining (host c) - cost"
    using assms by (simp add: saturating_sub_def word_less_nat_alt)
  moreover have "YIELD_THRESHOLD \<le> saturating_sub (fuel_remaining (host c)) cost"
    using assms by (simp add: word_le_nat_alt unat_saturating_sub YIELD_THRESHOLD_def)
  ultimately show ?thesis by (simp add: check_fuel_def consume_fuel_def)
qed

lemma unat_fuel_after: "unat cost + 500 \<le> unat (fuel :: u64) \<Longrightarrow> unat (fuel - cost) = unat fuel - unat cost"
  using unat_saturating_sub [of fuel cost] by (simp add: saturating_sub_def word_less_nat_alt)

lemma get_capability_fuel [simp]: "get_capability (h\<lparr>fuel_remaining := f\<rparr>) = get_capability h"
  by (simp add: get_capability_def fun_eq_iff)

lemma mutex_capability_fuel [simp]: "mutex_capability (h\<lparr>fuel_remaining := f\<rparr>) = mutex_capability h"
  by (simp add: mutex_capability_def fun_eq_iff)

lemma read_evaluates:
  assumes mem: "export_memory c = Some m"
    and cap: "get_capability (host c) (CapId_from_u64 f) = Some cap" "cap_object cap = File v"
      "rights_contains (cap_rights cap) READ"
    and cont: "handle_view (root_fs k) (ucast v) = Some t" "t [] = Some (AFile content)"
    and fuel: "650 \<le> unat (fuel_remaining (host c))"
    and heap: "i32_as_usize buf_len \<le> isize_max" "heap_fits E (i32_as_usize buf_len)"
    and n: "n = min (i32_as_usize buf_len) (length content - i32_as_usize offset)"
  shows "\<exists>h. sp_fs_read E f buf_ptr buf_len offset c k =
    (case mem_write (memory E) m (i32_as_usize buf_ptr) (take n (drop (i32_as_usize offset) content)) of
       None \<Rightarrow> (Ret (as_i32 MEMORY_WRITE_FAILED), c\<lparr>host := h\<rparr>, k)
     | Some m' \<Rightarrow> (Ret (word_of_nat n), c\<lparr>host := h, export_memory := Some m'\<rparr>, k))"
proof -
  let ?F = "fuel_remaining (host c)" and ?off = "i32_as_usize offset"
  let ?c1 = "c\<lparr>host := (host c)\<lparr>fuel_remaining := ?F - FS_OPERATION\<rparr>\<rparr>"
  have f1: "unat FS_OPERATION + 500 \<le> unat ?F" and c: "unat FS_OPERATION = 100" "unat MEMORY_IO = 50"
    using fuel by (simp_all add: FS_OPERATION_def MEMORY_IO_def)
  have f2: "unat MEMORY_IO + 500 \<le> unat (fuel_remaining (host ?c1))"
    using fuel unat_fuel_after [OF f1] by (simp add: c)
  have "RamFs_read (root_fs k) (ucast v) (replicate (i32_as_usize buf_len) 0) ?off
      = Inr (n, take n (drop ?off content) @ drop n (replicate (i32_as_usize buf_len) 0))"
    using rf.read_content [OF cont] n by (simp add: Let_def)
  moreover have "take n (take n (drop ?off content) @ drop n (replicate (i32_as_usize buf_len) 0))
      = take n (drop ?off content)"
    using n by simp
  ultimately show ?thesis
    unfolding sp_fs_read_def check_fuel_enough [OF f1]
    using mem cap heap check_fuel_enough [OF f2]
    by (auto simp: vec_zeroed_def intro!: exI split: option.splits)
qed
lemma decode_caps_append:
  "16 * n \<le> length bs \<Longrightarrow> decode_caps n (bs @ cs) = decode_caps n bs"
  by (induction n arbitrary: bs) simp_all

lemma lock_succeeds:
  assumes ok: "registry_ok (registry k)" and cap: "mutex_capability (host c) x = Inr h"
    and m: "get_mutex (registry k) h = Some m" and fuel: "520 \<le> unat (fuel_remaining (host c))"
  shows "\<exists>c' k' m'. sp_mutex_lock E x c k = (Ret 0, c', k')
    \<and> get_mutex (registry k') h = Some m' \<and> registry_ok (registry k')"
proof -
  have f: "unat SYNC_OPERATION + 500 \<le> unat (fuel_remaining (host c))"
    using fuel by (simp add: SYNC_OPERATION_def)
  obtain b w m' where t: "try_lock_is_some (queue E) m = (b, w, m')"
    using prod_cases3 by blast
  with registry_ok_try_lock [OF ok m t] cap m show ?thesis
    by (simp add: sp_mutex_lock_def check_fuel_enough [OF f])
qed

lemma demo_env_memory: "memory demo_env = list_memory_ops"
  by (simp add: demo_env_def)

lemma demo_memory_length: "length demo_memory = 64"
  by (simp add: demo_memory_def)

text \<open>Process 0 of the example after it opened the file, and after it created a mutex.\<close>

definition demo_reader :: "u8 list Caller" where
  "demo_reader = \<lparr>host = \<lparr>capabilities = [(CapId 1 0, demo_cap), (CapId 2 0, demo_file_cap)],
     fuel_remaining = 9900\<rparr>, export_memory = Some demo_memory\<rparr>"

definition demo_locker :: "u8 list Caller" where
  "demo_locker = \<lparr>host = \<lparr>capabilities = [(CapId 1 0, demo_cap),
     (CapId 2 0, \<lparr>cap_id = CapId 2 0, cap_rights = CALL, cap_object = Mutex 1, cap_gen = 0\<rparr>)],
     fuel_remaining = 9950\<rparr>, export_memory = Some demo_memory\<rparr>"

definition demo_mutex_kernel :: "(nat \<times> nat list, nat) Kernel" where
  "demo_mutex_kernel = demo_kernel\<lparr>next_cap_index := 3,
     registry := \<lparr>mutex_registry = [(1, AsyncMutex_new list_queue_ops ())], sem_registry = [],
                  next_mutex_id = 2, next_sem_id = 1\<rparr>\<rparr>"

lemma demo_mutex_create:
  "sp_mutex_create demo_env demo_process demo_kernel = (Ret 2, demo_locker, demo_mutex_kernel)"
  by (simp add: sp_mutex_create_def check_fuel_def consume_fuel_def saturating_sub_def SYNC_CREATE_def
      YIELD_THRESHOLD_def create_mutex_def new_capability_def Capability_new_def fetch_add_one_def
      add_capability_def demo_process_eval demo_kernel_def demo_locker_def demo_mutex_kernel_def
      init_registries_def less_CapId_def CapId_as_u64_def demo_env_def)

section \<open>Properties\<close>

text \<open>C3: A read delivers the file: a process that holds a file capability with \<open>READ\<close>, enough fuel and a
  buffer inside its memory gets exactly the bytes of the file from the offset on, as many as the
  buffer and the file have, and no other byte of its memory and nothing in the kernel changes.\<close>

theorem host_read_delivers:
  assumes "linear_memory (memory E) bytes" and "export_memory c = Some m"
    and "get_capability (host c) (CapId_from_u64 f) = Some cap" and "cap_object cap = File v"
    and "rights_contains (cap_rights cap) READ"
    and "handle_view (root_fs k) (ucast v) = Some t" and "t [] = Some (AFile content)"
    and "650 \<le> unat (fuel_remaining (host c))"
    and "i32_as_usize len \<le> isize_max" and "heap_fits E (i32_as_usize len)"
    and "n = min (i32_as_usize len) (length content - i32_as_usize offset)"
    and "i32_as_usize ptr + n \<le> length (bytes m)"
  shows "\<exists>c' m'. sp_fs_read E f ptr len offset c k = (Ret (word_of_nat n), c', k)
    \<and> export_memory c' = Some m'
    \<and> bytes m' = take (i32_as_usize ptr) (bytes m) @ take n (drop (i32_as_usize offset) content)
        @ drop (i32_as_usize ptr + n) (bytes m)"
proof -
  have len: "length (take n (drop (i32_as_usize offset) content)) = n"
    using assms(11) by simp
  obtain m' where "mem_write (memory E) m (i32_as_usize ptr) (take n (drop (i32_as_usize offset) content)) = Some m'"
    and "bytes m' = take (i32_as_usize ptr) (bytes m) @ take n (drop (i32_as_usize offset) content)
      @ drop (i32_as_usize ptr + n) (bytes m)"
    using linear_memory.write_ok [OF assms(1), of "i32_as_usize ptr" "take n (drop (i32_as_usize offset) content)" m]
      assms(12) len by auto
  with read_evaluates [where buf_ptr = ptr, OF assms(2-11)] show ?thesis by fastforce
qed

theorem host_read_delivers_witness:
  "\<exists>c' m'. sp_fs_read demo_env 2 4 8 1 demo_reader (demo_kernel\<lparr>root_fs := demo_opened\<rparr>)
      = (Ret (word_of_nat 2), c', demo_kernel\<lparr>root_fs := demo_opened\<rparr>)
    \<and> export_memory c' = Some m'
    \<and> m' = take (i32_as_usize 4) demo_memory @ take 2 (drop (i32_as_usize 1) [7, 8, 9])
        @ drop (i32_as_usize 4 + 2) demo_memory"
proof (rule host_read_delivers)
  show "linear_memory (memory demo_env) (\<lambda>m. m)"
    using lm.linear_memory_axioms by (simp add: demo_env_memory)
  show "get_capability (host demo_reader) (CapId_from_u64 2) = Some demo_file_cap"
    by (simp add: demo_reader_def get_capability_def CapId_from_u64_def demo_file_cap_def)
  show "handle_view (root_fs (demo_kernel\<lparr>root_fs := demo_opened\<rparr>)) (ucast (10001 :: u64))
      = Some (view (arena demo_opened) 2)"
    by (simp add: handle_view_def demo_opened_def)
  show "view (arena demo_opened) 2 [] = Some (AFile [7, 8, 9])"
    by (simp add: view_top demo_opened_def demo_open_eval)
qed (simp_all add: demo_reader_def demo_file_cap_def i32_as_usize_small isize_max_def demo_env_def
    demo_memory_length)

text \<open>C15: A process can read its own capabilities: with enough fuel and room, \<open>sp_get_capabilities\<close> returns
  their number and writes a table which, decoded, lists the identifier, the kind and the rights of
  every capability in the order of the identifiers; the rest of the memory is untouched.\<close>

theorem get_capabilities_roundtrip:
  assumes "linear_memory (memory E) bytes" and "export_memory c = Some m"
    and "cs = bt_values (capabilities (host c))" and "length cs \<le> 2 ^ 32"
    and "510 + 50 * length cs \<le> unat (fuel_remaining (host c))"
    and "16 * length cs \<le> i32_as_usize len"
    and "i32_as_usize ptr + 16 * length cs \<le> length (bytes m)"
  shows "\<exists>c' m'. sp_get_capabilities E ptr len c k = (Ret (word_of_nat (length cs)), c', k)
    \<and> export_memory c' = Some m'
    \<and> decode_caps (length cs) (drop (i32_as_usize ptr) (bytes m'))
        = map (\<lambda>cap. (CapId_as_u64 (cap_id cap), type_val (cap_object cap), cap_rights cap)) cs
    \<and> take (i32_as_usize ptr) (bytes m') = take (i32_as_usize ptr) (bytes m)
    \<and> drop (i32_as_usize ptr + 16 * length cs) (bytes m')
        = drop (i32_as_usize ptr + 16 * length cs) (bytes m)"
proof -
  let ?p = "i32_as_usize ptr" and ?n = "length cs" and ?F = "fuel_remaining (host c)"
  let ?c1 = "c\<lparr>host := (host c)\<lparr>fuel_remaining := ?F - CAP_LOOKUP\<rparr>\<rparr>"
  obtain m' where w: "write_caps (memory E) cs ?p m = (True, m')"
    and b: "bytes m' = take ?p (bytes m) @ concat (map cap_entry cs) @ drop (?p + 16 * ?n) (bytes m)"
    using linear_memory.write_caps_bytes [OF assms(1,7)] by blast
  have f1: "unat CAP_LOOKUP + 500 \<le> unat ?F" and u: "unat CAP_LOOKUP = 10"
    using assms(5) by (simp_all add: CAP_LOOKUP_def)
  have io: "unat (MEMORY_IO * word_of_nat ?n) = 50 * ?n"
    using assms(4) by (simp add: MEMORY_IO_def unat_word_ariths unsigned_of_nat take_bit_nat_eq_self)
  have f2: "unat (MEMORY_IO * word_of_nat ?n) + 500 \<le> unat (fuel_remaining (host ?c1))"
    using assms(5) unat_fuel_after [OF f1] by (simp add: io u)
  have "\<exists>c'. sp_get_capabilities E ptr len c k = (Ret (word_of_nat ?n), c', k) \<and> export_memory c' = Some m'"
    unfolding sp_get_capabilities_def check_fuel_enough [OF f1]
    using assms(2,6) w
    by (simp add: assms(3) [symmetric] Let_def check_fuel_enough [OF f2])
  then show ?thesis
    using b assms(7) decode_cap_entries [of cs] length_entries16 [of cs]
    by (auto simp: decode_caps_append)
qed

theorem get_capabilities_roundtrip_witness:
  "\<exists>c' m'. sp_get_capabilities demo_env 8 16 demo_process demo_kernel = (Ret 1, c', demo_kernel)
    \<and> export_memory c' = Some m' \<and> decode_caps 1 (drop 8 m') = [(1, 1, READ)]"
proof -
  have "linear_memory (memory demo_env) (\<lambda>m. m)"
    using lm.linear_memory_axioms by (simp add: demo_env_memory)
  from get_capabilities_roundtrip [OF this, of demo_process demo_memory "[demo_cap]" 16 8 demo_kernel]
  obtain c' m' where "sp_get_capabilities demo_env 8 16 demo_process demo_kernel = (Ret 1, c', demo_kernel)"
    "export_memory c' = Some m'" "decode_caps 1 (drop 8 m') = [(1, 1, READ)]"
    by (auto simp: demo_process_eval bt_values_def demo_memory_length i32_as_usize_small demo_cap_def
        type_val_def CapId_as_u64_def)
  then show ?thesis by blast
qed

text \<open>A negative length stops the kernel: whatever capabilities a process holds, even none, calling
  \<open>sp_fs_open\<close> or \<open>sp_fs_mkdir\<close> with a negative path length panics, because the sign-extended
  length is allocated before the capability is looked at.\<close>

theorem negative_length_panics:
  assumes "sint len < 0" and "export_memory c = Some m" and "600 \<le> unat (fuel_remaining (host c))"
  shows "fst (sp_fs_open E d ptr len c k) = Panic \<and> fst (sp_fs_mkdir E d ptr len c k) = Panic"
proof -
  have "unat FS_OPERATION + 500 \<le> unat (fuel_remaining (host c))"
    using assms(3) by (simp add: FS_OPERATION_def)
  moreover have "read_path E m ptr len = None"
    using i32_as_usize_negative [OF assms(1)] by (simp add: read_path_def vec_zeroed_def)
  ultimately show ?thesis
    by (simp add: sp_fs_open_def sp_fs_mkdir_def check_fuel_enough assms(2))
qed

theorem negative_length_panics_witness:
  "fst (sp_fs_open demo_env 0 0 (- 1) (demo_process\<lparr>host := HostState_new\<lparr>fuel_remaining := 10000\<rparr>\<rparr>) demo_kernel) = Panic"
  using negative_length_panics [of "- 1" "demo_process\<lparr>host := HostState_new\<lparr>fuel_remaining := 10000\<rparr>\<rparr>" demo_memory
      demo_env 0 0 demo_kernel]
  by (simp add: demo_process_eval)

text \<open>The mutexes of processes exclude nobody: in every state that host calls reach from empty
  registries, any two processes with a capability on the same mutex both succeed in locking it,
  one after the other, with no unlock in between.\<close>

theorem host_mutex_excludes_nobody:
  assumes "system_after E calls (callers, k\<lparr>registry := init_registries\<rparr>) = (callers', k')"
    and "mutex_capability (host c1) x1 = Inr h" and "mutex_capability (host c2) x2 = Inr h"
    and "get_mutex (registry k') h = Some m"
    and "520 \<le> unat (fuel_remaining (host c1))" and "520 \<le> unat (fuel_remaining (host c2))"
  shows "case sp_mutex_lock E x1 c1 k' of (r1, _, k1) \<Rightarrow>
    r1 = Ret 0 \<and> fst (sp_mutex_lock E x2 c2 k1) = Ret 0"
proof -
  have "registry_ok (registry k')"
    using registry_ok_system [of "k\<lparr>registry := init_registries\<rparr>" E calls callers] registry_ok_init assms(1)
    by simp
  with lock_succeeds [where E = E, OF _ assms(2,4,5)] obtain c1' k1 m1 where
    1: "sp_mutex_lock E x1 c1 k' = (Ret 0, c1', k1)" "get_mutex (registry k1) h = Some m1"
      "registry_ok (registry k1)" by blast
  with lock_succeeds [where E = E, OF 1(3) assms(3) 1(2) assms(6)] show ?thesis by auto
qed

theorem host_mutex_excludes_nobody_witness:
  "case sp_mutex_lock demo_env 2 demo_locker demo_mutex_kernel of (r1, _, k1) \<Rightarrow>
    r1 = Ret 0 \<and> fst (sp_mutex_lock demo_env 2 demo_locker k1) = Ret 0"
proof -
  have run: "system_after demo_env [(0, Call_mutex_create)] (\<lambda>_. demo_process, demo_kernel\<lparr>registry := init_registries\<rparr>)
      = ((\<lambda>_. demo_process)(0 := demo_locker), demo_mutex_kernel)"
    using demo_mutex_create by (simp add: returns_def demo_kernel_def)
  have cap: "mutex_capability (host demo_locker) 2 = Inr 1"
    by (simp add: demo_locker_def mutex_capability_def get_capability_def CapId_from_u64_def)
  have "get_mutex (registry demo_mutex_kernel) 1 = Some (AsyncMutex_new list_queue_ops ())"
    and "520 \<le> unat (fuel_remaining (host demo_locker))"
    by (simp_all add: demo_mutex_kernel_def get_mutex_def demo_locker_def)
  from host_mutex_excludes_nobody [OF run cap cap this this(2)] show ?thesis .
qed

text \<open>C17: Semaphores stay in bounds and releasing one never panics: after any host calls from empty
  registries every semaphore has at most its maximum of permits, which is below $2^{31}$, and
  \<open>sp_sem_release\<close> does not overflow.\<close>

theorem host_semaphores_bounded:
  assumes "system_after E calls (callers, k\<lparr>registry := init_registries\<rparr>) = (callers', k')"
  shows "(\<forall>h s. get_semaphore (registry k') h = Some s \<longrightarrow> permits s \<le> max_permits s \<and> max_permits s < 2 ^ 31)
    \<and> fst (sp_sem_release E sp x c k') \<noteq> Panic"
proof -
  have ok: "registry_ok (registry k')"
    using registry_ok_system [of "k\<lparr>registry := init_registries\<rparr>" E calls callers] registry_ok_init assms
    by simp
  obtain r c1 k1 where "sp_sem_release E sp x c k' = (r, c1, k1)"
    using prod_cases3 by blast
  with registry_ok_sem_release [OF ok this] ok show ?thesis
    by (simp add: registry_ok_def)
qed

theorem host_semaphores_bounded_witness:
  "fst (sp_sem_release demo_env [] 2 demo_process
     (snd (system_after demo_env [(0, Call_sem_create 3)] (\<lambda>_. demo_process, demo_kernel\<lparr>registry := init_registries\<rparr>)))) \<noteq> Panic"
  using host_semaphores_bounded [OF surjective_pairing, of demo_env "[(0, Call_sem_create 3)]" "\<lambda>_. demo_process" demo_kernel] by blast

text \<open>A time slice bounds the host calls: with the 10000 units of fuel of a slice, a process makes at
  most 950 charged host calls before one of them yields, whatever the calls are; only \<open>print\<close>
  is free.\<close>

theorem slice_bounds_calls:
  assumes "all_return E calls c k" and "fuel_remaining (host c) = 10000"
  shows "length (filter charged calls) \<le> 950"
proof (cases "filter charged calls = []")
  case False
  from all_return_fuel [OF assms(1) False] assms(2) show ?thesis by simp
qed simp

theorem slice_bounds_calls_witness:
  "all_return demo_env [Call_fs_open 1 0 3, Call_print] demo_process demo_kernel
    \<and> length (filter charged [Call_fs_open 1 0 3, Call_print]) \<le> 950"
proof -
  have "all_return demo_env [Call_fs_open 1 0 3, Call_print] demo_process demo_kernel"
    by (simp add: returns_def demo_sp_fs_open host_print_def)
  with slice_bounds_calls [OF this] show ?thesis by (simp add: demo_process_eval)
qed

end
