(* ===== verification/Executor.thy ===== *)
theory Executor
  imports Array_Queue BTree_Map Sync
begin

text \<open>
  The cooperative executor (\<open>task/mod.rs\<close>, \<open>task/executor.rs\<close>): tasks with four
  priorities, one run queue per priority, and wakers that push a task's id back to its queue.
  A future is code of any crate, so what a poll does is a parameter: given the waker of its
  context it returns whether it is ready, its new state, the state of the rest of the kernel and
  the wakers that were woken meanwhile, by the future itself or by an interrupt handler. The
  loops that may run forever are partial functions; \<open>exec_step\<close> is the same executor as a
  step relation, in which interrupts wake tasks between any two steps.
\<close>

section \<open>Tasks\<close>

type_synonym TaskId = u64

datatype Priority = Idle | Normal | High | Critical

primrec priority_index :: "Priority \<Rightarrow> nat" where
  "priority_index Idle = 0"
| "priority_index Normal = 1"
| "priority_index High = 2"
| "priority_index Critical = 3"

instantiation Priority :: linorder
begin

definition less_eq_Priority :: "Priority \<Rightarrow> Priority \<Rightarrow> bool" where
  "less_eq_Priority a b \<longleftrightarrow> priority_index a \<le> priority_index b"

definition less_Priority :: "Priority \<Rightarrow> Priority \<Rightarrow> bool" where
  "less_Priority a b \<longleftrightarrow> priority_index a < priority_index b"

instance
proof
  fix a b :: Priority
  show "a \<le> b \<Longrightarrow> b \<le> a \<Longrightarrow> a = b"
    by (cases a; cases b) (simp_all add: less_eq_Priority_def)
qed (auto simp: less_eq_Priority_def less_Priority_def)

end

record 'f Task =
  task_id :: TaskId
  task_priority :: Priority
  task_future :: 'f

text \<open>\<open>NEXT_ID\<close> is passed and returned by the functions that draw from it.\<close>

definition TaskId_new :: "u64 \<Rightarrow> TaskId \<times> u64" where
  "TaskId_new next_id = fetch_add_one next_id"

definition Task_with_priority :: "u64 \<Rightarrow> 'f \<Rightarrow> Priority \<Rightarrow> 'f Task \<times> u64" where
  "Task_with_priority next_id f p =
     (let (i, next_id') = TaskId_new next_id in
      (\<lparr>task_id = i, task_priority = p, task_future = f\<rparr>, next_id'))"

definition Task_new :: "u64 \<Rightarrow> 'f \<Rightarrow> 'f Task \<times> u64" where
  "Task_new next_id f = Task_with_priority next_id f Normal"

section \<open>Wakers\<close>

text \<open>The queue of a waker is one of the executor's four; the model keeps its index.\<close>

record TaskWaker =
  waker_task :: TaskId
  waker_queue :: nat

definition TaskWaker_new :: "TaskId \<Rightarrow> nat \<Rightarrow> TaskWaker" where
  "TaskWaker_new i q = \<lparr>waker_task = i, waker_queue = q\<rparr>"

type_synonym ('f, 'w) poll_fn =
  "TaskWaker \<Rightarrow> 'f \<Rightarrow> 'w \<Rightarrow> unit Poll \<times> 'f \<times> 'w \<times> TaskWaker list"

text \<open>\<open>Task::poll\<close> polls the boxed future.\<close>

definition Task_poll ::
    "('f, 'w) poll_fn \<Rightarrow> TaskWaker \<Rightarrow> 'f Task \<Rightarrow> 'w
     \<Rightarrow> unit Poll \<times> 'f Task \<times> 'w \<times> TaskWaker list" where
  "Task_poll poll wk t w =
     (let (r, f', w', ws) = poll wk (task_future t) w in (r, t\<lparr>task_future := f'\<rparr>, w', ws))"

section \<open>The executor\<close>

definition QUEUE_CAPACITY :: nat where
  "QUEUE_CAPACITY = 100"

record ('f, 'q) Executor =
  tasks :: "(TaskId, 'f Task) btreemap"
  task_queues :: "'q list"
  waker_cache :: "(TaskId, TaskWaker) btreemap"

definition Executor_new :: "('q, TaskId) queue_ops \<Rightarrow> ('f, 'q) Executor" where
  "Executor_new Q = \<lparr>tasks = [], task_queues = replicate 4 (aq_new Q QUEUE_CAPACITY),
     waker_cache = []\<rparr>"

datatype spawn_message = DuplicateTaskId TaskId | QueueFull nat TaskId

definition spawn ::
    "('q, TaskId) queue_ops \<Rightarrow> 'f Task \<Rightarrow> ('f, 'q) Executor
     \<Rightarrow> ('f, 'q) Executor \<times> spawn_message option" where
  "spawn Q t ex =
     (let i = task_id t; p = priority_index (task_priority t) in
      if bt_contains_key (tasks ex) i then (ex, Some (DuplicateTaskId i))
      else
        let ex1 = ex\<lparr>tasks := bt_insert i t (tasks ex)\<rparr>;
            (q', ok) = aq_push Q (task_queues ex1 ! p) i;
            ex2 = ex1\<lparr>task_queues := (task_queues ex1)[p := q']\<rparr>
        in if ok then (ex2, None)
           else (ex2\<lparr>tasks := bt_remove i (tasks ex2)\<rparr>, Some (QueueFull p i)))"

text \<open>\<open>wake_by_ref\<close> ignores a failed push.\<close>

definition wake_by_ref ::
    "('q, TaskId) queue_ops \<Rightarrow> TaskWaker \<Rightarrow> ('f, 'q) Executor \<Rightarrow> ('f, 'q) Executor" where
  "wake_by_ref Q wk ex =
     ex\<lparr>task_queues := (task_queues ex)
          [waker_queue wk := fst (aq_push Q (task_queues ex ! waker_queue wk) (waker_task wk))]\<rparr>"

definition wake_all ::
    "('q, TaskId) queue_ops \<Rightarrow> TaskWaker list \<Rightarrow> ('f, 'q) Executor \<Rightarrow> ('f, 'q) Executor" where
  "wake_all Q ws ex = fold (wake_by_ref Q) ws ex"

definition pop_task ::
    "('q, TaskId) queue_ops \<Rightarrow> nat \<Rightarrow> ('f, 'q) Executor \<Rightarrow> ('f, 'q) Executor \<times> TaskId option" where
  "pop_task Q p ex =
     (let (q', r) = aq_pop Q (task_queues ex ! p) in
      (ex\<lparr>task_queues := (task_queues ex)[p := q']\<rparr>, r))"

text \<open>\<open>waker_cache.entry(id).or_insert_with\<close>: the cached waker, or a new one for the queue
  the task was taken from.\<close>

definition cached_waker :: "nat \<Rightarrow> TaskId \<Rightarrow> ('f, 'q) Executor \<Rightarrow> TaskWaker" where
  "cached_waker p i ex =
     (case bt_get (waker_cache ex) i of Some wk \<Rightarrow> wk | None \<Rightarrow> TaskWaker_new i p)"

text \<open>The body of the inner loop, for a task id taken from queue \<open>p\<close>.\<close>

definition poll_task ::
    "('q, TaskId) queue_ops \<Rightarrow> ('f, 'w) poll_fn \<Rightarrow> nat \<Rightarrow> TaskId \<Rightarrow> ('f, 'q) Executor \<Rightarrow> 'w
     \<Rightarrow> ('f, 'q) Executor \<times> 'w" where
  "poll_task Q poll p i ex w =
     (case bt_get (tasks ex) i of
        None \<Rightarrow> (ex, w)
      | Some t \<Rightarrow>
          let wk = cached_waker p i ex;
              ex1 = ex\<lparr>waker_cache := bt_insert i wk (waker_cache ex)\<rparr>;
              (r, t', w', ws) = Task_poll poll wk t w;
              ex2 = wake_all Q ws (ex1\<lparr>tasks := bt_insert i t' (tasks ex1)\<rparr>)
          in (case r of
                Ready _ \<Rightarrow> (ex2\<lparr>tasks := bt_remove i (tasks ex2),
                               waker_cache := bt_remove i (waker_cache ex2)\<rparr>, w')
              | Pending \<Rightarrow> (ex2, w')))"

text \<open>\<open>while let Some(task_id) = queue.pop()\<close>\<close>

partial_function (option) drain_queue ::
    "('q, TaskId) queue_ops \<Rightarrow> ('f, 'w) poll_fn \<Rightarrow> nat \<Rightarrow> ('f, 'q) Executor \<Rightarrow> 'w
     \<Rightarrow> (('f, 'q) Executor \<times> 'w) option" where
  "drain_queue Q poll p ex w =
     (case pop_task Q p ex of
        (ex1, None) \<Rightarrow> Some (ex1, w)
      | (ex1, Some i) \<Rightarrow>
          (case poll_task Q poll p i ex1 w of (ex2, w2) \<Rightarrow> drain_queue Q poll p ex2 w2))"

fun drain_queues ::
    "('q, TaskId) queue_ops \<Rightarrow> ('f, 'w) poll_fn \<Rightarrow> nat list \<Rightarrow> ('f, 'q) Executor \<Rightarrow> 'w
     \<Rightarrow> (('f, 'q) Executor \<times> 'w) option" where
  "drain_queues Q poll [] ex w = Some (ex, w)"
| "drain_queues Q poll (p # ps) ex w =
     (case drain_queue Q poll p ex w of
        None \<Rightarrow> None
      | Some (ex', w') \<Rightarrow> drain_queues Q poll ps ex' w')"

definition run_ready_tasks ::
    "('q, TaskId) queue_ops \<Rightarrow> ('f, 'w) poll_fn \<Rightarrow> ('f, 'q) Executor \<Rightarrow> 'w
     \<Rightarrow> (('f, 'q) Executor \<times> 'w) option" where
  "run_ready_tasks Q poll ex w = drain_queues Q poll (rev [0..<4]) ex w"

text \<open>Interrupts are off between the check and \<open>hlt\<close>; the result says whether it halts.\<close>

definition sleep_if_idle :: "('q, TaskId) queue_ops \<Rightarrow> ('f, 'q) Executor \<Rightarrow> bool" where
  "sleep_if_idle Q ex \<longleftrightarrow> list_all (aq_is_empty Q) (task_queues ex)"

section \<open>The executor as a step relation\<close>

text \<open>
  The state is the executor, the rest of the kernel and the queue the pass is at: \<open>Suc p\<close>
  while queue \<open>p\<close> is drained, 0 when the pass is over. A step polls a task (and is labelled
  with it), skips the id of a task that is gone, goes to the next queue, ends the pass with
  \<open>sleep_if_idle\<close> (which halts only if every queue is empty) and starts the next, or is an
  interrupt whose handler wakes some of the wakers \<open>W\<close> that the rest of the kernel holds.
\<close>

datatype exec_event = Polled TaskId | Skipped | NextQueue | Slept bool | Interrupt

inductive exec_step ::
    "('q, TaskId) queue_ops \<Rightarrow> ('f, 'w) poll_fn \<Rightarrow> TaskWaker set
     \<Rightarrow> ('f, 'q) Executor \<times> 'w \<times> nat \<Rightarrow> exec_event \<Rightarrow> ('f, 'q) Executor \<times> 'w \<times> nat \<Rightarrow> bool"
  for Q poll W where
  poll: "pop_task Q p ex = (ex1, Some i) \<Longrightarrow> bt_contains_key (tasks ex1) i \<Longrightarrow>
    poll_task Q poll p i ex1 w = (ex2, w2) \<Longrightarrow>
    exec_step Q poll W (ex, w, Suc p) (Polled i) (ex2, w2, Suc p)"
| skip: "pop_task Q p ex = (ex1, Some i) \<Longrightarrow> \<not> bt_contains_key (tasks ex1) i \<Longrightarrow>
    exec_step Q poll W (ex, w, Suc p) Skipped (ex1, w, Suc p)"
| next_queue: "pop_task Q p ex = (ex1, None) \<Longrightarrow>
    exec_step Q poll W (ex, w, Suc p) NextQueue (ex1, w, p)"
| sleep: "exec_step Q poll W (ex, w, 0) (Slept (sleep_if_idle Q ex)) (ex, w, 4)"
| interrupt: "set ws \<subseteq> W \<Longrightarrow>
    exec_step Q poll W (ex, w, c) Interrupt (wake_all Q ws ex, w, c)"

inductive exec_run ::
    "('q, TaskId) queue_ops \<Rightarrow> ('f, 'w) poll_fn \<Rightarrow> TaskWaker set
     \<Rightarrow> ('f, 'q) Executor \<times> 'w \<times> nat \<Rightarrow> exec_event list \<Rightarrow> ('f, 'q) Executor \<times> 'w \<times> nat \<Rightarrow> bool"
  for Q poll W where
  exec_nil: "exec_run Q poll W s [] s"
| exec_more: "exec_step Q poll W s e s' \<Longrightarrow> exec_run Q poll W s' es s'' \<Longrightarrow>
    exec_run Q poll W s (e # es) s''"

inductive_cases exec_stepE: "exec_step Q poll W (ex, w, c) e s'"
inductive_cases exec_run_NilE: "exec_run Q poll W s [] s'"
inductive_cases exec_run_ConsE: "exec_run Q poll W s (e # es) s'"

text \<open>The tasks polled in a run, and whether the run is the code of \<open>run_ready_tasks\<close> alone.\<close>

definition polled :: "exec_event list \<Rightarrow> TaskId list" where
  "polled es = concat (map (\<lambda>e. case e of Polled i \<Rightarrow> [i] | _ \<Rightarrow> []) es)"

definition in_pass :: "exec_event \<Rightarrow> bool" where
  "in_pass e \<longleftrightarrow> (case e of Slept _ \<Rightarrow> False | Interrupt \<Rightarrow> False | _ \<Rightarrow> True)"

section \<open>Futures of the kernel\<close>

text \<open>\<open>yield_now\<close>: pending once, after waking its own task.\<close>

record YieldNow =
  yielded :: bool

definition yield_now :: YieldNow where
  "yield_now = \<lparr>yielded = False\<rparr>"

definition YieldNow_poll :: "TaskWaker \<Rightarrow> YieldNow \<Rightarrow> unit Poll \<times> YieldNow \<times> TaskWaker list" where
  "YieldNow_poll wk y =
     (if yielded y then (Ready (), y, []) else (Pending, y\<lparr>yielded := True\<rparr>, [wk]))"

text \<open>
  The three tasks of \<open>main.rs\<close> have the form \<open>loop { body; yield_now().await }\<close>. The state
  of this async block is the \<open>YieldNow\<close> it awaits, if it has started; the body changes the
  rest of the kernel.
\<close>

definition loop_body :: "('w \<Rightarrow> 'w) \<Rightarrow> TaskWaker \<Rightarrow> 'w
    \<Rightarrow> unit Poll \<times> YieldNow option \<times> 'w \<times> TaskWaker list" where
  "loop_body body wk w =
     (let (r, y, ws) = YieldNow_poll wk yield_now in (Pending, Some y, body w, ws))"

definition loop_poll :: "('w \<Rightarrow> 'w) \<Rightarrow> (YieldNow option, 'w) poll_fn" where
  "loop_poll body wk st w =
     (case st of
        None \<Rightarrow> loop_body body wk w
      | Some y \<Rightarrow>
          (case YieldNow_poll wk y of
             (Pending, y', ws) \<Rightarrow> (Pending, Some y', w, ws)
           | (Ready _, y', ws) \<Rightarrow>
               (case loop_body body wk w of (r, st', w', ws') \<Rightarrow> (r, st', w', ws @ ws'))))"

end
