(* ===== verification/Executor_Spec.thy ===== *)
theory Executor_Spec
  imports Executor
begin

text \<open>
  Properties of the executor. The invariant \<open>executor_wf\<close> relates queues, cached wakers and
  tasks to the priority of each task id; the lemmas about the run queues are proved in the locale
  \<open>run_queues\<close>, for any bounded FIFO queue.
\<close>

section \<open>What an operation writes\<close>

lemma wake_by_ref_frame [frame_simps]:
  "tasks (wake_by_ref Q wk ex) = tasks ex"
  "waker_cache (wake_by_ref Q wk ex) = waker_cache ex"
  "length (task_queues (wake_by_ref Q wk ex)) = length (task_queues ex)"
  by (simp_all add: wake_by_ref_def)

lemma wake_all_simps [simp]:
  "wake_all Q [] ex = ex"
  "wake_all Q (wk # ws) ex = wake_all Q ws (wake_by_ref Q wk ex)"
  by (simp_all add: wake_all_def)

lemma wake_all_frame [frame_simps]:
  "tasks (wake_all Q ws ex) = tasks ex"
  "waker_cache (wake_all Q ws ex) = waker_cache ex"
  "length (task_queues (wake_all Q ws ex)) = length (task_queues ex)"
  by (induction ws arbitrary: ex) (simp_all add: frame_simps)

lemma wake_all_queues:
  "task_queues ex = task_queues ex2 \<Longrightarrow>
     task_queues (wake_all Q ws ex) = task_queues (wake_all Q ws ex2)"
  by (induction ws arbitrary: ex ex2) (simp_all add: wake_by_ref_def)

lemma pop_task_frame:
  assumes "pop_task Q p ex = (ex1, r)"
  shows "tasks ex1 = tasks ex" "waker_cache ex1 = waker_cache ex"
    "length (task_queues ex1) = length (task_queues ex)"
  using assms by (auto simp: pop_task_def split: prod.splits)

lemma poll_task_None: "bt_get (tasks ex) i = None \<Longrightarrow> poll_task Q poll p i ex w = (ex, w)"
  by (simp add: poll_task_def)

text \<open>One poll: its effect on the task table, the waker cache and the queues.\<close>

lemma poll_task_Some:
  assumes "bt_get (tasks ex) i = Some t"
    and "poll (cached_waker p i ex) (task_future t) w = (r, f', w1, ws)"
    and "poll_task Q poll p i ex w = (ex', w')"
  shows "w' = w1"
    "task_queues ex' = task_queues (wake_all Q ws ex)"
    "bt_get (tasks ex') =
       (bt_get (tasks ex))(i := if r = Pending then Some (t\<lparr>task_future := f'\<rparr>) else None)"
    "bt_get (waker_cache ex') =
       (bt_get (waker_cache ex))(i := if r = Pending then Some (cached_waker p i ex) else None)"
  using assms
  by (auto simp: poll_task_def Task_poll_def Let_def frame_simps bt_contains_key_def
      intro!: wake_all_queues split: Poll.splits)

section \<open>The run queues\<close>

definition queue_at :: "('q \<Rightarrow> TaskId list) \<Rightarrow> ('f, 'q) Executor \<Rightarrow> nat \<Rightarrow> TaskId list" where
  "queue_at items ex p = items (task_queues ex ! p)"

definition bounded_queues :: "('q \<Rightarrow> TaskId list) \<Rightarrow> ('q \<Rightarrow> nat) \<Rightarrow> ('f, 'q) Executor \<Rightarrow> bool" where
  "bounded_queues items capacity ex \<longleftrightarrow>
     (\<forall>p < length (task_queues ex). length (queue_at items ex p) \<le> capacity (task_queues ex ! p))"

definition ready_count :: "('q \<Rightarrow> TaskId list) \<Rightarrow> ('f, 'q) Executor \<Rightarrow> nat" where
  "ready_count items ex = (\<Sum>q\<leftarrow>task_queues ex. length (items q))"

lemma queue_at_cong: "task_queues ex = task_queues ex2 \<Longrightarrow> queue_at items ex p = queue_at items ex2 p"
  by (simp add: queue_at_def)

lemma bounded_queues_cong:
  "task_queues ex = task_queues ex2 \<Longrightarrow>
     bounded_queues items capacity ex = bounded_queues items capacity ex2"
  by (simp add: bounded_queues_def queue_at_def)

lemma ready_count_cong: "task_queues ex = task_queues ex2 \<Longrightarrow> ready_count items ex = ready_count items ex2"
  by (simp add: ready_count_def)

lemma sum_list_length_update:
  "p < length qs \<Longrightarrow>
     (\<Sum>q\<leftarrow>qs[p := q']. length (f q)) + length (f (qs ! p)) = (\<Sum>q\<leftarrow>qs. length (f q)) + length (f q')"
  by (induction qs arbitrary: p) (auto split: nat.splits simp: nth_Cons')

locale run_queues = array_queue Q items capacity
  for Q :: "('q, TaskId) queue_ops" and items :: "'q \<Rightarrow> TaskId list" and capacity :: "'q \<Rightarrow> nat"
begin

lemma wake_by_ref_cases:
  fixes ex :: "('f, 'q) Executor"
  assumes "p < length (task_queues ex)"
  obtains (queued) "waker_queue wk = p" "queue_at items (wake_by_ref Q wk ex) p
        = queue_at items ex p @ [waker_task wk]"
      "capacity (task_queues (wake_by_ref Q wk ex) ! p) = capacity (task_queues ex ! p)"
      "length (queue_at items ex p) < capacity (task_queues ex ! p)"
    | (full) "waker_queue wk = p" "task_queues (wake_by_ref Q wk ex) ! p = task_queues ex ! p"
      "capacity (task_queues ex ! p) \<le> length (queue_at items ex p)"
    | (other) "waker_queue wk \<noteq> p" "task_queues (wake_by_ref Q wk ex) ! p = task_queues ex ! p"
proof (cases "waker_queue wk = p")
  case True
  obtain q' ok where push: "aq_push Q (task_queues ex ! p) (waker_task wk) = (q', ok)"
    by (cases "aq_push Q (task_queues ex ! p) (waker_task wk)")
  from push show thesis
    by (cases rule: push_cases)
      (use True assms queued full push in \<open>simp_all add: wake_by_ref_def queue_at_def\<close>)
next
  case False
  then show thesis
    using other by (simp add: wake_by_ref_def)
qed

lemma wake_all_appends:
  fixes ex :: "('f, 'q) Executor"
  assumes "p < length (task_queues ex)"
  shows "\<exists>ys. queue_at items (wake_all Q ws ex) p = queue_at items ex p @ ys
    \<and> set ys \<subseteq> waker_task ` {wk \<in> set ws. waker_queue wk = p}"
  using assms
proof (induction ws arbitrary: ex)
  case (Cons wk ws)
  from Cons.prems have p: "p < length (task_queues (wake_by_ref Q wk ex))"
    by (simp add: frame_simps)
  obtain ys where ys: "queue_at items (wake_all Q ws (wake_by_ref Q wk ex)) p
      = queue_at items (wake_by_ref Q wk ex) p @ ys"
    "set ys \<subseteq> waker_task ` {wk \<in> set ws. waker_queue wk = p}"
    using Cons.IH [OF p] by blast
  from Cons.prems show ?case
    by (cases rule: wake_by_ref_cases [of _ _ wk])
      (use ys in \<open>auto simp: queue_at_def\<close>)
qed simp

lemma wake_by_ref_bounded:
  fixes ex :: "('f, 'q) Executor"
  assumes "bounded_queues items capacity ex"
  shows "bounded_queues items capacity (wake_by_ref Q wk ex)"
  unfolding bounded_queues_def
proof (intro allI impI)
  fix p
  assume "p < length (task_queues (wake_by_ref Q wk ex))"
  then have p: "p < length (task_queues ex)"
    by (simp add: frame_simps)
  then show "length (queue_at items (wake_by_ref Q wk ex) p) \<le> capacity (task_queues (wake_by_ref Q wk ex) ! p)"
    by (cases rule: wake_by_ref_cases [of _ _ wk])
      (use assms p in \<open>auto simp: bounded_queues_def queue_at_def\<close>)
qed

lemma wake_all_bounded:
  fixes ex :: "('f, 'q) Executor"
  shows "bounded_queues items capacity ex \<Longrightarrow> bounded_queues items capacity (wake_all Q ws ex)"
  by (induction ws arbitrary: ex) (simp_all add: wake_by_ref_bounded)

lemma wake_by_ref_count:
  fixes ex :: "('f, 'q) Executor"
  shows "ready_count items (wake_by_ref Q wk ex) \<le> Suc (ready_count items ex)"
proof (cases "waker_queue wk < length (task_queues ex)")
  case True
  obtain q' ok where push: "aq_push Q (task_queues ex ! waker_queue wk) (waker_task wk) = (q', ok)"
    by (cases "aq_push Q (task_queues ex ! waker_queue wk) (waker_task wk)")
  then have "length (items q') \<le> Suc (length (items (task_queues ex ! waker_queue wk)))"
    by (cases rule: push_cases) simp_all
  then show ?thesis
    using sum_list_length_update [OF True, of items q'] push
    by (simp add: ready_count_def wake_by_ref_def)
qed (simp add: ready_count_def wake_by_ref_def list_update_beyond)

lemma wake_all_count:
  fixes ex :: "('f, 'q) Executor"
  shows "ready_count items (wake_all Q ws ex) \<le> ready_count items ex + length ws"
proof (induction ws arbitrary: ex)
  case (Cons wk ws)
  from Cons.IH [of "wake_by_ref Q wk ex"] wake_by_ref_count [of wk ex] show ?case
    by simp
qed simp

lemma pop_task_cases [consumes 2, case_names empty item]:
  fixes ex :: "('f, 'q) Executor"
  assumes "pop_task Q p ex = (ex1, r)" "p < length (task_queues ex)"
  obtains (empty) "r = None" "ex1 = ex" "queue_at items ex p = []"
    | (item) i where "r = Some i" "queue_at items ex p = i # queue_at items ex1 p"
        "\<And>p'. p' \<noteq> p \<Longrightarrow> task_queues ex1 ! p' = task_queues ex ! p'"
        "capacity (task_queues ex1 ! p) = capacity (task_queues ex ! p)"
proof -
  obtain q' where pop: "aq_pop Q (task_queues ex ! p) = (q', r)"
    and ex1: "ex1 = ex\<lparr>task_queues := (task_queues ex)[p := q']\<rparr>"
    using assms(1) by (auto simp: pop_task_def split: prod.splits)
  from pop show thesis
  proof (cases rule: pop_cases)
    case empty
    then show thesis
      using that(1) ex1 by (simp add: queue_at_def)
  next
    case (item i)
    then show thesis
      using that(2) [of i] ex1 assms(2) by (simp add: queue_at_def)
  qed
qed

lemma pop_task_subset:
  fixes ex :: "('f, 'q) Executor"
  assumes "pop_task Q p ex = (ex1, r)" "p < length (task_queues ex)"
  shows "set (queue_at items ex1 p') \<subseteq> set (queue_at items ex p')"
    and "r = Some j \<Longrightarrow> j \<in> set (queue_at items ex p)"
  using assms by (cases rule: pop_task_cases; cases "p' = p"; auto simp: queue_at_def)+

lemma pop_task_bounded:
  fixes ex :: "('f, 'q) Executor"
  assumes "pop_task Q p ex = (ex1, r)" "p < length (task_queues ex)" "bounded_queues items capacity ex"
  shows "bounded_queues items capacity ex1"
  using assms(1,2)
proof (cases rule: pop_task_cases)
  case (item i)
  have "length (queue_at items ex1 p') \<le> capacity (task_queues ex1 ! p')"
    if "p' < length (task_queues ex1)" for p'
    using that assms(3) item pop_task_frame [OF assms(1)]
    by (cases "p' = p") (auto simp: bounded_queues_def queue_at_def)
  then show ?thesis
    by (simp add: bounded_queues_def)
qed (use assms(3) in simp)

lemma pop_task_count:
  fixes ex :: "('f, 'q) Executor"
  assumes "pop_task Q p ex = (ex1, Some i)" "p < length (task_queues ex)"
  shows "ready_count items ex = Suc (ready_count items ex1)"
proof -
  obtain q' where pop: "aq_pop Q (task_queues ex ! p) = (q', Some i)"
    and ex1: "ex1 = ex\<lparr>task_queues := (task_queues ex)[p := q']\<rparr>"
    using assms(1) by (auto simp: pop_task_def split: prod.splits)
  show ?thesis
    using sum_list_length_update [OF assms(2), of items q'] pop_length [OF pop]
    by (simp add: ready_count_def ex1)
qed

end

interpretation rq: run_queues list_queue_ops snd fst
  by unfold_locales

section \<open>The loops and the step relation\<close>

lemma drain_queue_item:
  "pop_task Q p ex = (ex1, Some i) \<Longrightarrow> poll_task Q poll p i ex1 w = (ex2, w2) \<Longrightarrow>
     drain_queue Q poll p ex w = drain_queue Q poll p ex2 w2"
  by (subst drain_queue.simps) simp

lemma drain_queue_empty:
  "pop_task Q p ex = (ex1, None) \<Longrightarrow> drain_queue Q poll p ex w = Some (ex1, w)"
  by (subst drain_queue.simps) simp

lemma drain_queue_run:
  assumes "drain_queue Q poll p ex w = Some s'"
  shows "\<exists>es. exec_run Q poll W (ex, w, Suc p) es (fst s', snd s', p) \<and> list_all in_pass es"
proof (rule drain_queue.raw_induct [OF _ assms])
  fix drain and Q :: "('q, TaskId) queue_ops" and poll :: "('f, 'w) poll_fn" and p ex w s'
  assume IH: "\<And>Q poll p ex w s'. drain Q poll p ex w = Some s' \<Longrightarrow>
      \<exists>es. exec_run Q poll W (ex, w, Suc p) es (fst s', snd s', p) \<and> list_all in_pass es"
    and body: "(case pop_task Q p ex of (ex1, None) \<Rightarrow> Some (ex1, w)
      | (ex1, Some i) \<Rightarrow> case poll_task Q poll p i ex1 w of (ex2, w2) \<Rightarrow> drain Q poll p ex2 w2) = Some s'"
  obtain ex1 r where pop: "pop_task Q p ex = (ex1, r)"
    by (cases "pop_task Q p ex")
  show "\<exists>es. exec_run Q poll W (ex, w, Suc p) es (fst s', snd s', p) \<and> list_all in_pass es"
  proof (cases r)
    case None
    then have "exec_step Q poll W (ex, w, Suc p) NextQueue (ex1, w, p)"
      using pop by (auto intro: exec_step.intros)
    then have "exec_run Q poll W (ex, w, Suc p) [NextQueue] (ex1, w, p)"
      by (auto intro: exec_run.intros)
    moreover have "s' = (ex1, w)"
      using body pop None by simp
    ultimately show ?thesis
      by (intro exI [of _ "[NextQueue]"]) (simp add: in_pass_def)
  next
    case (Some i)
    obtain ex2 w2 where poll: "poll_task Q poll p i ex1 w = (ex2, w2)"
      by (cases "poll_task Q poll p i ex1 w")
    obtain e where e: "exec_step Q poll W (ex, w, Suc p) e (ex2, w2, Suc p)" "in_pass e"
    proof (cases "bt_contains_key (tasks ex1) i")
      case True
      show ?thesis
        using that [of "Polled i"] exec_step.poll [OF pop [unfolded Some] True poll]
        by (simp add: in_pass_def)
    next
      case False
      then have "poll_task Q poll p i ex1 w = (ex1, w)"
        by (simp add: poll_task_None bt_contains_key_def)
      then show ?thesis
        using that [of Skipped] exec_step.skip [OF pop [unfolded Some] False, where poll = poll and W = W and w = w] poll
        by (simp add: in_pass_def)
    qed
    from body pop Some poll have "drain Q poll p ex2 w2 = Some s'"
      by simp
    from IH [OF this] e show ?thesis
      by (metis exec_run.exec_more list.pred_inject(2))
  qed
qed

lemma exec_run_append:
  "exec_run Q poll W s es s' \<Longrightarrow> exec_run Q poll W s' es' s'' \<Longrightarrow> exec_run Q poll W s (es @ es') s''"
  by (induction rule: exec_run.induct) (auto intro: exec_run.intros)

lemma drain_queues_run:
  "drain_queues Q poll (rev [0..<c]) ex w = Some (ex', w') \<Longrightarrow>
     \<exists>es. exec_run Q poll W (ex, w, c) es (ex', w', 0) \<and> list_all in_pass es"
proof (induction c arbitrary: ex w)
  case 0
  then show ?case
    by (auto intro!: exI [of _ "[]"] exec_run.exec_nil)
next
  case (Suc c)
  then obtain ex1 w1 where d: "drain_queue Q poll c ex w = Some (ex1, w1)"
    "drain_queues Q poll (rev [0..<c]) ex1 w1 = Some (ex', w')"
    by (auto split: option.splits)
  obtain es es' where "exec_run Q poll W (ex, w, Suc c) es (ex1, w1, c)" "list_all in_pass es"
    "exec_run Q poll W (ex1, w1, c) es' (ex', w', 0)" "list_all in_pass es'"
    using drain_queue_run [OF d(1), of W] Suc.IH [OF d(2)] by auto
  then show ?case
    by (intro exI [of _ "es @ es'"]) (simp add: exec_run_append)
qed

lemma run_drain_queues:
  "exec_run Q poll W (ex, w, c) es (ex', w', 0) \<Longrightarrow> list_all in_pass es \<Longrightarrow>
     drain_queues Q poll (rev [0..<c]) ex w = Some (ex', w')"
proof (induction es arbitrary: ex w c)
  case Nil
  then show ?case
    by (auto elim: exec_run_NilE)
next
  case (Cons e es)
  from Cons.prems(1) obtain ex1 w1 c1 where st: "exec_step Q poll W (ex, w, c) e (ex1, w1, c1)"
    and run: "exec_run Q poll W (ex1, w1, c1) es (ex', w', 0)"
    by (auto elim: exec_run_ConsE)
  have IH: "drain_queues Q poll (rev [0..<c1]) ex1 w1 = Some (ex', w')"
    using Cons.IH [OF run] Cons.prems(2) by simp
  from st show ?case
    by (cases rule: exec_stepE)
      (use IH Cons.prems(2) in \<open>auto simp: in_pass_def bt_contains_key_def poll_task_None
         drain_queue_item drain_queue_empty\<close>)
qed

section \<open>The invariant\<close>

text \<open>
  Task ids are never reused, so every id has one priority; \<open>prio\<close> is that assignment. A waker
  is valid if it pushes to the queue of its task's priority.
\<close>

definition valid_waker :: "(TaskId \<Rightarrow> Priority) \<Rightarrow> TaskWaker \<Rightarrow> bool" where
  "valid_waker prio wk \<longleftrightarrow> waker_queue wk = priority_index (prio (waker_task wk))"

definition executor_wf ::
    "('q \<Rightarrow> TaskId list) \<Rightarrow> ('q \<Rightarrow> nat) \<Rightarrow> (TaskId \<Rightarrow> Priority) \<Rightarrow> ('f, 'q) Executor \<Rightarrow> bool" where
  "executor_wf items capacity prio ex \<longleftrightarrow>
     length (task_queues ex) = 4 \<and> bounded_queues items capacity ex
     \<and> (\<forall>i t. bt_get (tasks ex) i = Some t \<longrightarrow> task_id t = i \<and> task_priority t = prio i)
     \<and> (\<forall>i wk. bt_get (waker_cache ex) i = Some wk \<longrightarrow>
          bt_contains_key (tasks ex) i \<and> waker_task wk = i \<and> valid_waker prio wk)
     \<and> (\<forall>p < 4. \<forall>i \<in> set (queue_at items ex p). priority_index (prio i) = p)"

text \<open>A future wakes its own waker or one of those the rest of the kernel holds.\<close>

definition wakes_within :: "('f, 'w) poll_fn \<Rightarrow> TaskWaker set \<Rightarrow> bool" where
  "wakes_within poll W \<longleftrightarrow>
     (\<forall>wk f w r f' w' ws. poll wk f w = (r, f', w', ws) \<longrightarrow> set ws \<subseteq> insert wk W)"

lemma priority_index_less: "priority_index p < 4"
  by (cases p) simp_all

lemma executor_wf_queue:
  assumes "executor_wf items capacity prio ex" "p < 4"
  shows "length (queue_at items ex p) \<le> capacity (task_queues ex ! p)"
    and "i \<in> set (queue_at items ex p) \<Longrightarrow> priority_index (prio i) = p"
  using assms by (auto simp: executor_wf_def bounded_queues_def)

lemma executor_wf_cached_waker:
  assumes "executor_wf items capacity prio ex" "priority_index (prio i) = p"
  shows "waker_task (cached_waker p i ex) = i" "valid_waker prio (cached_waker p i ex)"
  using assms
  by (auto simp: executor_wf_def cached_waker_def TaskWaker_new_def valid_waker_def split: option.splits)

text \<open>
  A future in a state with \<open>P\<close> spins if each poll wakes its own task and is pending, in a state
  with \<open>P\<close>.
\<close>

definition spins :: "('f, 'w) poll_fn \<Rightarrow> ('f \<Rightarrow> bool) \<Rightarrow> TaskId \<Rightarrow> bool" where
  "spins poll P i \<longleftrightarrow>
     (\<forall>wk f w. waker_task wk = i \<longrightarrow> P f \<longrightarrow> (\<exists>f' w'. poll wk f w = (Pending, f', w', [wk]) \<and> P f'))"

definition spinning ::
    "('q \<Rightarrow> TaskId list) \<Rightarrow> ('f \<Rightarrow> bool) \<Rightarrow> nat \<Rightarrow> TaskId \<Rightarrow> ('f, 'q) Executor \<Rightarrow> bool" where
  "spinning items P p i ex \<longleftrightarrow>
     i \<in> set (queue_at items ex p) \<and> (\<exists>t. bt_get (tasks ex) i = Some t \<and> P (task_future t))"

context run_queues
begin

lemma wake_all_wf:
  fixes ex :: "('f, 'q) Executor"
  assumes "executor_wf items capacity prio ex" "\<forall>wk \<in> set ws. valid_waker prio wk"
  shows "executor_wf items capacity prio (wake_all Q ws ex)"
proof -
  have "priority_index (prio i) = p"
    if "p < 4" "i \<in> set (queue_at items (wake_all Q ws ex) p)" for i p
  proof -
    have "p < length (task_queues ex)"
      using assms(1) that(1) by (simp add: executor_wf_def)
    from wake_all_appends [OF this, of ws] obtain ys where
      "queue_at items (wake_all Q ws ex) p = queue_at items ex p @ ys"
      "set ys \<subseteq> waker_task ` {wk \<in> set ws. waker_queue wk = p}"
      by blast
    with that assms(2) executor_wf_queue(2) [OF assms(1) that(1)] show ?thesis
      by (auto simp: valid_waker_def)
  qed
  with assms(1) wake_all_bounded [of ex ws] show ?thesis
    by (simp add: executor_wf_def frame_simps)
qed

lemma pop_task_wf:
  fixes ex :: "('f, 'q) Executor"
  assumes "executor_wf items capacity prio ex" "pop_task Q p ex = (ex1, r)" "p < 4"
  shows "executor_wf items capacity prio ex1"
    and "r = Some i \<Longrightarrow> priority_index (prio i) = p"
proof -
  have len: "p < length (task_queues ex)"
    using assms(1,3) by (simp add: executor_wf_def)
  note sub = pop_task_subset [OF assms(2) len]
  from assms(1) sub(1) pop_task_frame [OF assms(2)] pop_task_bounded [OF assms(2) len]
  show "executor_wf items capacity prio ex1"
    unfolding executor_wf_def by (simp add: subset_iff)
  show "r = Some i \<Longrightarrow> priority_index (prio i) = p"
    using sub(2) assms(1,3) by (auto simp: executor_wf_def)
qed

lemma poll_task_wf:
  fixes ex :: "('f, 'q) Executor"
  assumes "executor_wf items capacity prio ex" "priority_index (prio i) = p"
    and "wakes_within poll W" "\<forall>wk \<in> W. valid_waker prio wk"
    and "poll_task Q poll p i ex w = (ex', w')"
  shows "executor_wf items capacity prio ex'"
proof (cases "bt_get (tasks ex) i")
  case None
  with assms(1,5) show ?thesis
    by (simp add: poll_task_None)
next
  case (Some t)
  obtain r f' w1 ws where poll: "poll (cached_waker p i ex) (task_future t) w = (r, f', w1, ws)"
    by (cases "poll (cached_waker p i ex) (task_future t) w")
  note eff = poll_task_Some [OF Some poll assms(5)]
  have wk: "waker_task (cached_waker p i ex) = i" "valid_waker prio (cached_waker p i ex)"
    using executor_wf_cached_waker [OF assms(1,2)] by simp_all
  have "set ws \<subseteq> insert (cached_waker p i ex) W"
    using assms(3) poll unfolding wakes_within_def by blast
  with assms(4) wk(2) have ws: "\<forall>wk \<in> set ws. valid_waker prio wk"
    by auto
  from wake_all_wf [OF assms(1) ws] have wf: "executor_wf items capacity prio (wake_all Q ws ex)" .
  have q: "queue_at items ex' p' = queue_at items (wake_all Q ws ex) p'" for p'
    using eff(2) by (rule queue_at_cong)
  have b: "bounded_queues items capacity ex' = bounded_queues items capacity (wake_all Q ws ex)"
    using eff(2) by (rule bounded_queues_cong)
  from wf Some show ?thesis
    unfolding executor_wf_def q b eff
    by (auto simp: frame_simps eff bt_contains_key_def wk split: if_splits)
qed

lemma exec_step_wf:
  fixes ex :: "('f, 'q) Executor"
  assumes "exec_step Q poll W (ex, w, c) e (ex', w', c')"
    and "executor_wf items capacity prio ex" "c \<le> 4"
    and "wakes_within poll W" "\<forall>wk \<in> W. valid_waker prio wk"
  shows "executor_wf items capacity prio ex' \<and> c' \<le> 4
    \<and> (\<forall>i. e = Polled i \<longrightarrow> c = Suc (priority_index (prio i)))"
  using assms(1)
proof cases
  case (poll p ex1 i)
  with pop_task_wf [OF assms(2) poll(4)] assms(3) have
    "executor_wf items capacity prio ex1" "priority_index (prio i) = p"
    by simp_all
  with poll_task_wf [OF this assms(4,5) poll(6)] poll assms(3) show ?thesis
    by simp
next
  case (skip p i)
  with pop_task_wf [OF assms(2) skip(5)] assms(3) show ?thesis
    by simp
next
  case next_queue
  with pop_task_wf [OF assms(2) next_queue(4)] assms(3) show ?thesis
    by simp
next
  case (interrupt ws)
  with wake_all_wf [OF assms(2)] assms(3,5) show ?thesis
    by auto
qed (use assms in simp_all)

lemma exec_run_wf:
  fixes ex :: "('f, 'q) Executor"
  assumes "exec_run Q poll W (ex, w, c) es (ex', w', c')"
    and "executor_wf items capacity prio ex" "c \<le> 4"
    and "wakes_within poll W" "\<forall>wk \<in> W. valid_waker prio wk"
  shows "executor_wf items capacity prio ex' \<and> c' \<le> 4"
  using assms(1-3)
proof (induction es arbitrary: ex w c)
  case Nil
  then show ?case
    by (auto elim: exec_run_NilE)
next
  case (Cons e es)
  from Cons.prems(1) obtain ex1 w1 c1 where st: "exec_step Q poll W (ex, w, c) e (ex1, w1, c1)"
    and run: "exec_run Q poll W (ex1, w1, c1) es (ex', w', c')"
    by (auto elim: exec_run_ConsE)
  from exec_step_wf [OF st Cons.prems(2,3) assms(4,5)] Cons.IH [OF run] show ?case
    by simp
qed

text \<open>Within a pass the queue index only goes down, so tasks are polled by descending priority.\<close>

lemma exec_run_descending:
  fixes ex :: "('f, 'q) Executor"
  assumes "exec_run Q poll W (ex, w, c) es (ex', w', c')" "\<forall>b. Slept b \<notin> set es"
    and "executor_wf items capacity prio ex" "c \<le> 4"
    and "wakes_within poll W" "\<forall>wk \<in> W. valid_waker prio wk"
  shows "(\<forall>i \<in> set (polled es). priority_index (prio i) < c)
    \<and> sorted_wrt (\<lambda>i j. prio j \<le> prio i) (polled es)"
  using assms(1-4)
proof (induction es arbitrary: ex w c)
  case Nil
  then show ?case
    by (simp add: polled_def)
next
  case (Cons e es)
  from Cons.prems(1) obtain ex1 w1 c1 where st: "exec_step Q poll W (ex, w, c) e (ex1, w1, c1)"
    and run: "exec_run Q poll W (ex1, w1, c1) es (ex', w', c')"
    by (auto elim: exec_run_ConsE)
  note wf = exec_step_wf [OF st Cons.prems(3,4) assms(5,6)]
  have IH: "(\<forall>i \<in> set (polled es). priority_index (prio i) < c1)
      \<and> sorted_wrt (\<lambda>i j. prio j \<le> prio i) (polled es)"
    using Cons.IH [OF run] Cons.prems(2) wf by simp
  from st show ?case
    by cases (use IH wf Cons.prems(2) in \<open>auto simp: polled_def less_eq_Priority_def\<close>)
qed

text \<open>Polling a task leaves the others alone and appends to the queues.\<close>

lemma poll_task_others:
  fixes ex :: "('f, 'q) Executor"
  assumes "poll_task Q poll p j ex w = (ex', w')"
  shows "length (task_queues ex') = length (task_queues ex)"
    and "i \<noteq> j \<Longrightarrow> bt_get (tasks ex') i = bt_get (tasks ex) i"
    and "i \<noteq> j \<Longrightarrow> bt_get (waker_cache ex') i = bt_get (waker_cache ex) i"
    and "p' < length (task_queues ex) \<Longrightarrow> \<exists>ys. queue_at items ex' p' = queue_at items ex p' @ ys"
    and "p' < length (task_queues ex) \<Longrightarrow> wakes_within poll W \<Longrightarrow>
      i \<notin> set (queue_at items ex p') \<Longrightarrow> waker_task (cached_waker p j ex) \<noteq> i \<Longrightarrow>
      \<forall>wk \<in> W. waker_task wk \<noteq> i \<Longrightarrow> i \<notin> set (queue_at items ex' p')"
proof -
  have "length (task_queues ex') = length (task_queues ex)
    \<and> (i \<noteq> j \<longrightarrow> bt_get (tasks ex') i = bt_get (tasks ex) i)
    \<and> (i \<noteq> j \<longrightarrow> bt_get (waker_cache ex') i = bt_get (waker_cache ex) i)
    \<and> (p' < length (task_queues ex) \<longrightarrow>
        (\<exists>ys. queue_at items ex' p' = queue_at items ex p' @ ys
           \<and> (wakes_within poll W \<longrightarrow> set ys \<subseteq> waker_task ` insert (cached_waker p j ex) W)))"
  proof (cases "bt_get (tasks ex) j")
    case None
    with assms show ?thesis
      by (simp add: poll_task_None)
  next
    case (Some t)
    obtain r f' w1 ws where poll: "poll (cached_waker p j ex) (task_future t) w = (r, f', w1, ws)"
      by (cases "poll (cached_waker p j ex) (task_future t) w")
    note eff = poll_task_Some [OF Some poll assms]
    have q: "queue_at items ex' p' = queue_at items (wake_all Q ws ex) p'"
      using eff(2) by (rule queue_at_cong)
    have "\<exists>ys. queue_at items ex' p' = queue_at items ex p' @ ys
        \<and> (wakes_within poll W \<longrightarrow> set ys \<subseteq> waker_task ` insert (cached_waker p j ex) W)"
      if p': "p' < length (task_queues ex)"
    proof -
      obtain ys where ys: "queue_at items (wake_all Q ws ex) p' = queue_at items ex p' @ ys"
        "set ys \<subseteq> waker_task ` {wk \<in> set ws. waker_queue wk = p'}"
        using wake_all_appends [OF p', of ws] by blast
      have "set ys \<subseteq> waker_task ` insert (cached_waker p j ex) W" if "wakes_within poll W"
      proof -
        have "set ws \<subseteq> insert (cached_waker p j ex) W"
          using poll that unfolding wakes_within_def by blast
        then have "{wk \<in> set ws. waker_queue wk = p'} \<subseteq> insert (cached_waker p j ex) W"
          by blast
        with ys(2) show ?thesis
          by (meson image_mono subset_trans)
      qed
      with ys(1) q show ?thesis
        by simp
    qed
    with eff show ?thesis
      by (simp add: frame_simps)
  qed
  then show "length (task_queues ex') = length (task_queues ex)"
    and "i \<noteq> j \<Longrightarrow> bt_get (tasks ex') i = bt_get (tasks ex) i"
    and "i \<noteq> j \<Longrightarrow> bt_get (waker_cache ex') i = bt_get (waker_cache ex) i"
    and "p' < length (task_queues ex) \<Longrightarrow> \<exists>ys. queue_at items ex' p' = queue_at items ex p' @ ys"
    and "p' < length (task_queues ex) \<Longrightarrow> wakes_within poll W \<Longrightarrow>
      i \<notin> set (queue_at items ex p') \<Longrightarrow> waker_task (cached_waker p j ex) \<noteq> i \<Longrightarrow>
      \<forall>wk \<in> W. waker_task wk \<noteq> i \<Longrightarrow> i \<notin> set (queue_at items ex' p')"
    by auto
qed

lemma pop_task_keeps:
  fixes ex :: "('f, 'q) Executor"
  assumes "pop_task Q p ex = (ex1, Some j)" "p < length (task_queues ex)"
    and "i \<in> set (queue_at items ex p')" "i \<noteq> j"
  shows "i \<in> set (queue_at items ex1 p')"
  using assms(1,2)
  by (cases rule: pop_task_cases; cases "p' = p") (use assms(3,4) in \<open>auto simp: queue_at_def\<close>)

text \<open>A task that is queued stays queued until it is polled.\<close>

lemma queued_step:
  fixes ex :: "('f, 'q) Executor"
  assumes "exec_step Q poll W (ex, w, c) e (ex1, w1, c1)" "c \<le> length (task_queues ex)" "p < c"
    and "i \<in> set (queue_at items ex p)" "bt_contains_key (tasks ex) i" "e \<noteq> Polled i"
  shows "i \<in> set (queue_at items ex1 p) \<and> bt_get (tasks ex1) i = bt_get (tasks ex) i
    \<and> length (task_queues ex1) = length (task_queues ex) \<and> c1 \<le> c \<and> p < c1"
  using assms(1)
proof cases
  case (poll p0 exp j)
  have p0: "p0 < length (task_queues ex)" and p: "p < length (task_queues ex)"
    using assms(2,3) poll(1) by simp_all
  have i: "i \<in> set (queue_at items exp p)" "i \<noteq> j"
    using pop_task_keeps [OF poll(4) p0 assms(4)] assms(6) poll(2) by auto
  obtain ys where ys: "queue_at items ex1 p = queue_at items exp p @ ys"
    using poll_task_others(4) [OF poll(6), of p] p pop_task_frame(3) [OF poll(4)] by auto
  from poll_task_others(1) [OF poll(6)] poll_task_others(2) [OF poll(6) i(2)]
    pop_task_frame [OF poll(4)] poll(1,3) i ys assms(3)
  show ?thesis
    by simp
next
  case (skip p0 j)
  then have "i \<noteq> j"
    using assms(5) pop_task_frame(1) [OF skip(5)] by auto
  with pop_task_keeps [OF skip(5) _ assms(4)] pop_task_frame [OF skip(5)] skip assms(2,3) show ?thesis
    by simp
next
  case next_queue
  have "p \<noteq> c1"
    using next_queue(4) assms(2,4) next_queue(1) by (auto elim!: pop_task_cases)
  with next_queue assms show ?thesis
    by (auto elim!: pop_task_cases)
next
  case (interrupt ws)
  with wake_all_appends [of p ex ws] assms(2,3,4) show ?thesis
    by (auto simp: frame_simps)
qed (use assms(3) in simp)

lemma pass_polls_queued:
  fixes ex :: "('f, 'q) Executor"
  assumes "exec_run Q poll W (ex, w, c) es (ex', w', 0)"
    and "c \<le> length (task_queues ex)"
    and "p < c" "i \<in> set (queue_at items ex p)" "bt_contains_key (tasks ex) i"
  shows "i \<in> set (polled es)"
  using assms
proof (induction es arbitrary: ex w c)
  case Nil
  then show ?case
    by (auto elim: exec_run_NilE)
next
  case (Cons e es)
  from Cons.prems(1) obtain ex1 w1 c1 where st: "exec_step Q poll W (ex, w, c) e (ex1, w1, c1)"
    and run: "exec_run Q poll W (ex1, w1, c1) es (ex', w', 0)"
    by (auto elim: exec_run_ConsE)
  show ?case
  proof (cases "e = Polled i")
    case True
    then show ?thesis
      by (simp add: polled_def)
  next
    case False
    from queued_step [OF st Cons.prems(2-5) False] Cons.IH [OF run] Cons.prems(2,5)
    have "i \<in> set (polled es)"
      by (simp add: bt_contains_key_def)
    then show ?thesis
      by (simp add: polled_def)
  qed
qed

lemma spinner_polled:
  fixes ex :: "('f, 'q) Executor"
  assumes wf: "executor_wf items capacity prio ex" and p: "priority_index (prio i) = p"
    and pop: "pop_task Q p ex = (exp, Some i)" and poll: "poll_task Q poll p i exp w = (ex', w')"
    and "spins poll P i" "spinning items P p i ex"
  shows "spinning items P p i ex'"
proof -
  have len: "p < length (task_queues ex)"
    using wf p priority_index_less [of "prio i"] by (simp add: executor_wf_def)
  note fr = pop_task_frame [OF pop]
  have wfp: "executor_wf items capacity prio exp"
    using pop_task_wf(1) [OF wf pop] p priority_index_less [of "prio i"] by simp
  obtain t where t: "bt_get (tasks exp) i = Some t" "P (task_future t)"
    using assms(6) fr by (auto simp: spinning_def)
  let ?wk = "cached_waker p i exp"
  have wk: "waker_task ?wk = i" "waker_queue ?wk = p"
    using executor_wf_cached_waker [OF wfp p] p by (simp_all add: valid_waker_def)
  obtain f' w1 where f': "poll ?wk (task_future t) w = (Pending, f', w1, [?wk])" "P f'"
    using assms(5) wk(1) t(2) unfolding spins_def by blast
  note eff = poll_task_Some [OF t(1) f'(1) poll]
  have room: "length (queue_at items exp p) < capacity (task_queues exp ! p)"
    using pop len
  proof (cases rule: pop_task_cases)
    case (item j)
    then show ?thesis
      using wf len by (auto simp: executor_wf_def bounded_queues_def)
  qed simp
  have "p < length (task_queues exp)"
    using len fr by simp
  then have "i \<in> set (queue_at items (wake_by_ref Q ?wk exp) p)"
    by (cases rule: wake_by_ref_cases [of p exp ?wk]) (use wk room in auto)
  with eff f'(2) show ?thesis
    by (simp add: spinning_def queue_at_def)
qed

lemma spinner_step:
  fixes ex :: "('f, 'q) Executor"
  assumes st: "exec_step Q poll W (ex, w, c) e (ex', w', c')"
    and wf: "executor_wf items capacity prio ex" and c: "c \<le> 4" "priority_index (prio i) < c"
    and W: "wakes_within poll W" "\<forall>wk \<in> W. valid_waker prio wk"
    and sp: "spins poll P i" "spinning items P (priority_index (prio i)) i ex"
  shows "spinning items P (priority_index (prio i)) i ex' \<and> priority_index (prio i) < c'
    \<and> (\<forall>b. e \<noteq> Slept b) \<and> (\<forall>j. e = Polled j \<longrightarrow> prio i \<le> prio j)"
proof -
  have j: "prio i \<le> prio j" if "e = Polled j" for j
    using exec_step_wf [OF st wf c(1) W] c that by (auto simp: less_eq_Priority_def)
  have sl: "e \<noteq> Slept b" for b
    using st c(2) by (cases rule: exec_stepE) auto
  show ?thesis
  proof (cases "e = Polled i")
    case True
    have "c = Suc (priority_index (prio i))"
      using exec_step_wf [OF st wf c(1) W] True by simp
    with st [unfolded True] obtain exp where "c' = c"
      "pop_task Q (priority_index (prio i)) ex = (exp, Some i)"
      "poll_task Q poll (priority_index (prio i)) i exp w = (ex', w')"
      by cases auto
    with c(2) spinner_polled [OF wf refl this(2,3) sp] j sl show ?thesis
      by simp
  next
    case False
    have "i \<in> set (queue_at items ex (priority_index (prio i)))" "bt_contains_key (tasks ex) i"
      using sp(2) by (auto simp: spinning_def bt_contains_key_def)
    from queued_step [OF st _ c(2) this False] c(1) wf sp(2) j sl show ?thesis
      by (auto simp: executor_wf_def spinning_def)
  qed
qed

lemma spinner_run:
  fixes ex :: "('f, 'q) Executor"
  assumes "exec_run Q poll W (ex, w, c) es (ex', w', c')"
    and "executor_wf items capacity prio ex" "c \<le> 4" "priority_index (prio i) < c"
    and W: "wakes_within poll W" "\<forall>wk \<in> W. valid_waker prio wk"
    and sp: "spins poll P i" and "spinning items P (priority_index (prio i)) i ex"
  shows "priority_index (prio i) < c' \<and> (\<forall>b. Slept b \<notin> set es)
    \<and> (\<forall>j \<in> set (polled es). prio i \<le> prio j)"
  using assms(1-4,8)
proof (induction es arbitrary: ex w c)
  case Nil
  then show ?case
    by (auto elim: exec_run_NilE simp: polled_def)
next
  case (Cons e es)
  from Cons.prems(1) obtain ex1 w1 c1 where st: "exec_step Q poll W (ex, w, c) e (ex1, w1, c1)"
    and run: "exec_run Q poll W (ex1, w1, c1) es (ex', w', c')"
    by (auto elim: exec_run_ConsE)
  note stp = spinner_step [OF st Cons.prems(2-4) W sp Cons.prems(5)]
  from exec_step_wf [OF st Cons.prems(2,3) W] stp Cons.IH [OF run]
  have IH: "priority_index (prio i) < c' \<and> (\<forall>b. Slept b \<notin> set es)
      \<and> (\<forall>j \<in> set (polled es). prio i \<le> prio j)"
    by simp
  have "set (polled (e # es)) = {j. e = Polled j} \<union> set (polled es)"
    by (auto simp: polled_def split: exec_event.splits)
  with IH stp show ?case
    by auto
qed

text \<open>A task whose waker nobody holds is not polled again.\<close>

lemma unwoken_step:
  fixes ex :: "('f, 'q) Executor"
  assumes st: "exec_step Q poll W (ex, w, c) e (ex', w', c')"
    and wf: "executor_wf items capacity prio ex" and c: "c \<le> 4"
    and W: "wakes_within poll W" "\<forall>wk \<in> W. valid_waker prio wk" "\<forall>wk \<in> W. waker_task wk \<noteq> i"
    and out: "\<forall>p < 4. i \<notin> set (queue_at items ex p)"
  shows "e \<noteq> Polled i \<and> (\<forall>p < 4. i \<notin> set (queue_at items ex' p))
    \<and> bt_get (tasks ex') i = bt_get (tasks ex) i"
  using st
proof cases
  case (poll p exp j)
  have p: "p < 4" "length (task_queues ex) = 4"
    using wf c poll(1) by (simp_all add: executor_wf_def)
  have sub: "set (queue_at items exp p') \<subseteq> set (queue_at items ex p')" for p'
    using pop_task_subset(1) [OF poll(4)] p by simp
  have "i \<noteq> j"
    using pop_task_subset(2) [OF poll(4)] p out by auto
  have wfp: "executor_wf items capacity prio exp" and j: "priority_index (prio j) = p"
    using pop_task_wf [OF wf poll(4) p(1)] by simp_all
  have "i \<notin> set (queue_at items ex' p')" if "p' < 4" for p'
  proof (rule poll_task_others(5) [OF poll(6) _ W(1) _ _ W(3)])
    show "p' < length (task_queues exp)"
      using that p(2) pop_task_frame(3) [OF poll(4)] by simp
    show "i \<notin> set (queue_at items exp p')"
      using out sub that by blast
    show "waker_task (cached_waker p j exp) \<noteq> i"
      using executor_wf_cached_waker(1) [OF wfp j] \<open>i \<noteq> j\<close> by simp
  qed
  with poll_task_others(2) [OF poll(6) \<open>i \<noteq> j\<close>] pop_task_frame(1) [OF poll(4)] poll(2) \<open>i \<noteq> j\<close>
  show ?thesis
    by simp
next
  case (skip p j)
  have "set (queue_at items ex' p') \<subseteq> set (queue_at items ex p')" for p'
    using pop_task_subset(1) [OF skip(5)] wf c skip(1) by (simp add: executor_wf_def)
  with skip out pop_task_frame(1) [OF skip(5)] show ?thesis
    by auto
next
  case next_queue
  have "ex' = ex"
    using next_queue(4) by (cases rule: pop_task_cases) (use wf c next_queue(1) in \<open>auto simp: executor_wf_def\<close>)
  with next_queue out show ?thesis
    by simp
next
  case (interrupt ws)
  have "i \<notin> set (queue_at items ex' p)" if "p < 4" for p
  proof -
    have "p < length (task_queues ex)"
      using wf that by (simp add: executor_wf_def)
    from wake_all_appends [OF this, of ws] obtain ys where
      ys: "queue_at items (wake_all Q ws ex) p = queue_at items ex p @ ys"
        "set ys \<subseteq> waker_task ` {wk \<in> set ws. waker_queue wk = p}"
      by blast
    have "i \<notin> set ys"
      using ys(2) interrupt(5) W(3) by blast
    with ys(1) out that interrupt(2) show ?thesis
      by simp
  qed
  with interrupt show ?thesis
    by (simp add: frame_simps)
qed (use out in simp)

lemma unwoken_run:
  fixes ex :: "('f, 'q) Executor"
  assumes "exec_run Q poll W (ex, w, c) es (ex', w', c')"
    and "executor_wf items capacity prio ex" "c \<le> 4"
    and W: "wakes_within poll W" "\<forall>wk \<in> W. valid_waker prio wk" "\<forall>wk \<in> W. waker_task wk \<noteq> i"
    and "\<forall>p < 4. i \<notin> set (queue_at items ex p)"
  shows "i \<notin> set (polled es) \<and> bt_get (tasks ex') i = bt_get (tasks ex) i"
  using assms(1-3,7)
proof (induction es arbitrary: ex w c)
  case Nil
  then show ?case
    by (auto elim: exec_run_NilE simp: polled_def)
next
  case (Cons e es)
  from Cons.prems(1) obtain ex1 w1 c1 where st: "exec_step Q poll W (ex, w, c) e (ex1, w1, c1)"
    and run: "exec_run Q poll W (ex1, w1, c1) es (ex', w', c')"
    by (auto elim: exec_run_ConsE)
  from exec_step_wf [OF st Cons.prems(2,3) W(1,2)] unwoken_step [OF st Cons.prems(2,3) W Cons.prems(4)]
    Cons.IH [OF run]
  show ?case
    by (auto simp: polled_def split: exec_event.splits)
qed

text \<open>A pass ends if the wakes that polls can still make are bounded.\<close>

lemma drain_queue_ends:
  fixes ex :: "('f, 'q) Executor" and budget :: "'w \<Rightarrow> nat"
  assumes b: "\<forall>wk f w r f' w' ws. poll wk f w = (r, f', w', ws) \<longrightarrow> length ws + budget w' \<le> budget w"
  shows "p < length (task_queues ex) \<Longrightarrow>
    \<exists>ex' w'. drain_queue Q poll p ex w = Some (ex', w') \<and> length (task_queues ex') = length (task_queues ex)"
proof (induction "ready_count items ex + budget w" arbitrary: ex w rule: less_induct)
  case less
  obtain ex1 r where pop: "pop_task Q p ex = (ex1, r)"
    by (cases "pop_task Q p ex")
  show ?case
  proof (cases r)
    case None
    with pop pop_task_frame [OF pop] show ?thesis
      by (simp add: drain_queue_empty)
  next
    case (Some i)
    obtain ex2 w2 where poll: "poll_task Q poll p i ex1 w = (ex2, w2)"
      by (cases "poll_task Q poll p i ex1 w")
    have "ready_count items ex2 + budget w2 \<le> ready_count items ex1 + budget w"
    proof (cases "bt_get (tasks ex1) i")
      case None
      with poll show ?thesis
        by (simp add: poll_task_None)
    next
      case (Some t)
      obtain r' f' w1 ws where p': "poll (cached_waker p i ex1) (task_future t) w = (r', f', w1, ws)"
        by (cases "poll (cached_waker p i ex1) (task_future t) w")
      note eff = poll_task_Some [OF Some p' poll]
      have "length ws + budget w2 \<le> budget w"
        using b p' eff(1) by blast
      moreover have "ready_count items ex2 \<le> ready_count items ex1 + length ws"
        using wake_all_count [of ws ex1] ready_count_cong [OF eff(2), of items] by simp
      ultimately show ?thesis
        by simp
    qed
    moreover have "ready_count items ex = Suc (ready_count items ex1)"
      using pop_task_count [of p ex ex1 i] pop Some less.prems by simp
    moreover have "length (task_queues ex2) = length (task_queues ex)"
      using poll_task_others(1) [OF poll] pop_task_frame(3) [OF pop] by simp
    ultimately show ?thesis
      using less.hyps [of ex2 w2] less.prems drain_queue_item [OF pop [unfolded Some] poll] by simp
  qed
qed

lemma drain_queues_end:
  fixes ex :: "('f, 'q) Executor" and budget :: "'w \<Rightarrow> nat"
  assumes b: "\<forall>wk f w r f' w' ws. poll wk f w = (r, f', w', ws) \<longrightarrow> length ws + budget w' \<le> budget w"
  shows "c \<le> length (task_queues ex) \<Longrightarrow> \<exists>ex' w'. drain_queues Q poll (rev [0..<c]) ex w = Some (ex', w')"
proof (induction c arbitrary: ex w)
  case (Suc c)
  obtain ex1 w1 where "drain_queue Q poll c ex w = Some (ex1, w1)"
    "length (task_queues ex1) = length (task_queues ex)"
    using drain_queue_ends [OF b, of c ex w] Suc.prems by auto
  with Suc.IH [of ex1 w1] Suc.prems show ?case
    by simp
qed simp

text \<open>Spawning.\<close>

lemma spawn_cases:
  fixes ex :: "('f, 'q) Executor"
  assumes "spawn Q t ex = (ex', m)" "length (task_queues ex) = 4"
  defines "p \<equiv> priority_index (task_priority t)"
  obtains (duplicate) "bt_contains_key (tasks ex) (task_id t)" "m = Some (DuplicateTaskId (task_id t))"
      "ex' = ex"
    | (full) "\<not> bt_contains_key (tasks ex) (task_id t)" "m = Some (QueueFull p (task_id t))"
      "capacity (task_queues ex ! p) \<le> length (queue_at items ex p)"
      "bt_get (tasks ex') = bt_get (tasks ex)" "task_queues ex' = task_queues ex"
      "waker_cache ex' = waker_cache ex"
    | (queued) "\<not> bt_contains_key (tasks ex) (task_id t)" "m = None"
      "bt_get (tasks ex') = (bt_get (tasks ex))(task_id t \<mapsto> t)"
      "queue_at items ex' p = queue_at items ex p @ [task_id t]"
      "\<And>p'. p' \<noteq> p \<Longrightarrow> task_queues ex' ! p' = task_queues ex ! p'"
      "capacity (task_queues ex' ! p) = capacity (task_queues ex ! p)"
      "length (queue_at items ex p) < capacity (task_queues ex ! p)"
      "length (task_queues ex') = 4" "waker_cache ex' = waker_cache ex"
proof (cases "bt_contains_key (tasks ex) (task_id t)")
  case True
  then have "m = Some (DuplicateTaskId (task_id t))" "ex' = ex"
    using assms(1) by (simp_all add: spawn_def Let_def)
  with True show thesis
    by (rule duplicate)
next
  case False
  obtain q' ok where push: "aq_push Q (task_queues ex ! p) (task_id t) = (q', ok)"
    by (cases "aq_push Q (task_queues ex ! p) (task_id t)")
  have p: "p < length (task_queues ex)"
    using priority_index_less assms(2) by (simp add: p_def)
  have None: "bt_get (tasks ex) (task_id t) = None"
    using False by (simp add: bt_contains_key_def)
  from push show thesis
  proof (cases rule: push_cases)
    case room
    have "ex' = ex\<lparr>tasks := bt_insert (task_id t) t (tasks ex), task_queues := (task_queues ex)[p := q']\<rparr>"
      "m = None"
      using assms(1) push room(1) False by (simp_all add: spawn_def Let_def p_def)
    then show thesis
      by (intro queued) (use room p False assms(2) in \<open>simp_all add: queue_at_def fun_eq_iff\<close>)
  next
    case full
    have "ex' = ex\<lparr>task_queues := (task_queues ex)[p := q'],
        tasks := bt_remove (task_id t) (bt_insert (task_id t) t (tasks ex))\<rparr>" "m = Some (QueueFull p (task_id t))"
      using assms(1) push full(1) False by (auto simp: spawn_def Let_def p_def)
    then show thesis
      by (intro that(2)) (use full False None in \<open>simp_all add: queue_at_def fun_eq_iff\<close>)
  qed
qed

lemma spawn_wf:
  fixes ex :: "('f, 'q) Executor"
  assumes wf: "executor_wf items capacity prio ex" and "task_priority t = prio (task_id t)"
    and "spawn Q t ex = (ex', m)"
  shows "executor_wf items capacity prio ex'"
proof -
  have len: "length (task_queues ex) = 4"
    using wf by (simp add: executor_wf_def)
  from assms(3) len show ?thesis
  proof (cases rule: spawn_cases)
    case queued
    let ?p = "priority_index (task_priority t)"
    have "length (queue_at items ex' p') \<le> capacity (task_queues ex' ! p')
        \<and> (\<forall>i \<in> set (queue_at items ex' p'). priority_index (prio i) = p')" if "p' < 4" for p'
    proof (cases "p' = ?p")
      case True
      with executor_wf_queue [OF wf that] queued(4,6,7) assms(2) show ?thesis
        by auto
    next
      case False
      with executor_wf_queue [OF wf that] queued(5) show ?thesis
        by (simp add: queue_at_def)
    qed
    with queued(3,8,9) wf assms(2) show ?thesis
      by (auto simp: executor_wf_def bounded_queues_def bt_contains_key_def)
  next
    case full
    with wf show ?thesis
      by (auto simp: executor_wf_def bounded_queues_def bt_contains_key_def queue_at_def)
  qed (use wf in simp)
qed

lemma Executor_new_wf: "executor_wf items capacity prio (Executor_new Q)"
  using items_new [of QUEUE_CAPACITY]
  by (auto simp: executor_wf_def Executor_new_def bounded_queues_def queue_at_def QUEUE_CAPACITY_def)

lemma spawn_all_wf:
  fixes ex :: "('f, 'q) Executor"
  shows "executor_wf items capacity prio ex \<Longrightarrow> \<forall>t \<in> set ts. task_priority t = prio (task_id t) \<Longrightarrow>
    executor_wf items capacity prio (fold (\<lambda>t ex. fst (spawn Q t ex)) ts ex)"
proof (induction ts arbitrary: ex)
  case (Cons t ts)
  obtain ex' m where sp: "spawn Q t ex = (ex', m)"
    by (cases "spawn Q t ex")
  from spawn_wf [OF Cons.prems(1) _ sp] Cons.IH [of ex'] Cons.prems(2) sp show ?case
    by simp
qed simp

end

lemma run_queuesI: "array_queue Q items capacity \<Longrightarrow> run_queues Q items capacity"
  by (rule run_queues.intro)

lemma interrupt_run:
  "set ws \<subseteq> W \<Longrightarrow> exec_run Q poll W (ex, w, c) [Interrupt] (wake_all Q ws ex, w, c)"
  by (rule exec_run.exec_more [OF exec_step.interrupt exec_run.exec_nil])

section \<open>The tasks of the kernel\<close>

lemma loop_poll_spins: "spins (loop_poll body) (\<lambda>_. True) i"
  by (auto simp: spins_def loop_poll_def loop_body_def YieldNow_poll_def yield_now_def split: option.splits)

lemma loop_poll_wakes: "wakes_within (loop_poll body) W"
  by (auto simp: wakes_within_def loop_poll_def loop_body_def YieldNow_poll_def yield_now_def
      split: option.splits if_splits)

text \<open>The executor when \<open>main.rs\<close> calls \<open>run\<close>: three Normal tasks with ids 0, 1 and 2.\<close>

definition main_tasks :: "YieldNow option Task list" where
  "main_tasks = (let (t0, n1) = Task_new 0 None; (t1, n2) = Task_new n1 None; (t2, n3) = Task_new n2 None
     in [t0, t1, t2])"

definition main_executor :: "(YieldNow option, nat \<times> TaskId list) Executor" where
  "main_executor = fold (\<lambda>t ex. fst (spawn list_queue_ops t ex)) main_tasks (Executor_new list_queue_ops)"

lemma main_tasks_eval:
  "main_tasks = [\<lparr>task_id = 0, task_priority = Normal, task_future = None\<rparr>,
     \<lparr>task_id = 1, task_priority = Normal, task_future = None\<rparr>,
     \<lparr>task_id = 2, task_priority = Normal, task_future = None\<rparr>]"
  by (simp add: main_tasks_def Task_new_def Task_with_priority_def TaskId_new_def fetch_add_one_def)

lemma main_executor_eval:
  "task_queues main_executor = [(100, []), (100, [0, 1, 2]), (100, []), (100, [])]"
  "bt_get (tasks main_executor) 0 = Some \<lparr>task_id = 0, task_priority = Normal, task_future = None\<rparr>"
  by (simp_all add: main_executor_def main_tasks_eval spawn_def Executor_new_def Let_def
      list_queue_ops_def bt_contains_key_def QUEUE_CAPACITY_def eval_nat_numeral)

lemma main_executor_wf: "executor_wf snd fst (\<lambda>_. Normal) main_executor"
  unfolding main_executor_def
  by (rule rq.spawn_all_wf [OF rq.Executor_new_wf]) (simp add: main_tasks_eval)

text \<open>A small executor: task 0 is Idle, task 1 is Critical, and a poll is done at once.\<close>

definition two_tasks :: "unit Task list" where
  "two_tasks = [\<lparr>task_id = 0, task_priority = Idle, task_future = ()\<rparr>,
     \<lparr>task_id = 1, task_priority = Critical, task_future = ()\<rparr>]"

definition two_executor :: "(unit, nat \<times> TaskId list) Executor" where
  "two_executor = fold (\<lambda>t ex. fst (spawn list_queue_ops t ex)) two_tasks (Executor_new list_queue_ops)"

definition poll_once :: "(unit, nat) poll_fn" where
  "poll_once wk f n = (Ready (), f, Suc n, [])"

definition poll_never :: "(unit, nat) poll_fn" where
  "poll_never wk f n = (Pending, f, n, [])"

definition two_prio :: "TaskId \<Rightarrow> Priority" where
  "two_prio i = (if i = 0 then Idle else Critical)"

lemma two_executor_eval:
  "bt_get (tasks two_executor) 2 = None"
  "task_queues two_executor = [(100, [0]), (100, []), (100, []), (100, [1])]"
  "bt_contains_key (tasks two_executor) 0" "bt_contains_key (tasks two_executor) 1"
  by (simp_all add: two_executor_def two_tasks_def spawn_def Executor_new_def Let_def
      list_queue_ops_def bt_contains_key_def QUEUE_CAPACITY_def eval_nat_numeral)

lemma two_executor_wf: "executor_wf snd fst two_prio two_executor"
  unfolding two_executor_def
  by (rule rq.spawn_all_wf [OF rq.Executor_new_wf]) (simp add: two_tasks_def two_prio_def)

lemma poll_once_wakes: "wakes_within poll_once W"
  by (simp add: wakes_within_def poll_once_def)

lemma two_executor_pass:
  "\<exists>ex' w' es. run_ready_tasks list_queue_ops poll_once two_executor 0 = Some (ex', w')
     \<and> exec_run list_queue_ops poll_once {} (two_executor, 0, 4) es (ex', w', 0) \<and> list_all in_pass es
     \<and> {0, 1} \<subseteq> set (polled es)"
proof -
  obtain ex' w' where run: "run_ready_tasks list_queue_ops poll_once two_executor 0 = Some (ex', w')"
    using rq.drain_queues_end [of poll_once "\<lambda>_. 0" 4 two_executor 0]
    by (auto simp: poll_once_def two_executor_eval run_ready_tasks_def)
  then obtain es where es: "exec_run list_queue_ops poll_once {} (two_executor, 0, 4) es (ex', w', 0)"
    "list_all in_pass es"
    using drain_queues_run [of _ _ 4] by (force simp: run_ready_tasks_def)
  have "0 \<in> set (polled es)" "1 \<in> set (polled es)"
    using rq.pass_polls_queued [OF es(1), of 0 0] rq.pass_polls_queued [OF es(1), of 3 1]
    by (simp_all add: two_executor_eval queue_at_def)
  with run es show ?thesis
    by blast
qed

text \<open>The executor after it polled task 1, when that poll is pending and wakes nobody.\<close>

definition stuck_executor :: "(unit, nat \<times> TaskId list) Executor" where
  "stuck_executor = fst (poll_task list_queue_ops poll_never 3 1 (fst (pop_task list_queue_ops 3 two_executor)) 0)"

lemma poll_never_wakes: "wakes_within poll_never W"
  by (simp add: wakes_within_def poll_never_def)

lemma stuck_executor_run:
  "exec_run list_queue_ops poll_never {} (two_executor, 0, 4) [Polled 1] (stuck_executor, 0, 4)"
proof -
  let ?ex = "two_executor\<lparr>task_queues := [(100, [0]), (100, []), (100, []), (100, [])]\<rparr>"
  have pop: "pop_task list_queue_ops 3 two_executor = (?ex, Some 1)"
    by (simp add: pop_task_def list_queue_ops_def two_executor_eval eval_nat_numeral)
  obtain w where w: "poll_task list_queue_ops poll_never 3 1 ?ex 0 = (stuck_executor, w)"
    unfolding stuck_executor_def pop fst_conv by (metis prod.collapse)
  then have "w = 0"
    using two_executor_eval(4)
    by (auto simp: poll_task_def Task_poll_def poll_never_def Let_def bt_contains_key_def)
  with exec_step.poll [OF pop _ w, of "{}"] two_executor_eval(4)
  have "exec_step list_queue_ops poll_never {} (two_executor, 0, 4) (Polled 1) (stuck_executor, 0, 4)"
    by simp
  then show ?thesis
    by (rule exec_run.exec_more [OF _ exec_run.exec_nil])
qed

lemma stuck_executor_wf: "executor_wf snd fst two_prio stuck_executor"
  using rq.exec_run_wf [OF stuck_executor_run two_executor_wf _ poll_never_wakes] by simp

lemma stuck_executor_eval: "task_queues stuck_executor = [(100, [0]), (100, []), (100, []), (100, [])]"
  using two_executor_eval(4)
  by (auto simp: stuck_executor_def poll_task_def Task_poll_def poll_never_def Let_def pop_task_def
      list_queue_ops_def two_executor_eval eval_nat_numeral bt_contains_key_def)

section \<open>Properties\<close>

text \<open>The loops of \<open>run_ready_tasks\<close> and the step relation describe the same executor: the
  function returns exactly when a run of the steps without interrupts reaches the end of the pass,
  with the same result.\<close>

theorem run_ready_tasks_steps:
  "run_ready_tasks Q poll ex w = Some (ex', w') \<longleftrightarrow>
     (\<exists>es. exec_run Q poll W (ex, w, 4) es (ex', w', 0) \<and> list_all in_pass es)"
  using drain_queues_run [of Q poll 4 ex w ex' w' W] run_drain_queues [of Q poll W ex w 4 _ ex' w']
  by (auto simp: run_ready_tasks_def simp del: upt_Suc)

text \<open>C22: However tasks are spawned and run, and whatever interrupts wake, the queues hold only
  tasks of their priority, within their capacity, and every cached waker belongs to a live task and
  re-queues it at its own priority.\<close>

theorem executor_wf_reachable:
  fixes poll :: "('f, 'w) poll_fn"
  assumes "array_queue Q items capacity"
    and "\<forall>t \<in> set ts. task_priority t = prio (task_id t)"
    and "wakes_within poll W" "\<forall>wk \<in> W. valid_waker prio wk"
    and "exec_run Q poll W (fold (\<lambda>t ex. fst (spawn Q t ex)) ts (Executor_new Q), w, 4) es (ex', w', c)"
  shows "executor_wf items capacity prio ex'"
proof -
  note rq = run_queuesI [OF assms(1)]
  note wf = run_queues.spawn_all_wf [OF rq run_queues.Executor_new_wf [OF rq] assms(2)]
  show ?thesis
    using run_queues.exec_run_wf [OF rq assms(5) wf _ assms(3,4)] by simp
qed

theorem executor_wf_reachable_witness:
  "executor_wf snd fst (\<lambda>_. Normal) (wake_all list_queue_ops [\<lparr>waker_task = 1, waker_queue = 1\<rparr>] main_executor)"
proof (rule executor_wf_reachable [OF lq.array_queue_axioms, where ts = main_tasks
      and poll = "loop_poll Suc" and W = "{\<lparr>waker_task = 1, waker_queue = 1\<rparr>}" and es = "[Interrupt]" and w = 0])
  show "exec_run list_queue_ops (loop_poll Suc) {\<lparr>waker_task = 1, waker_queue = 1\<rparr>}
     (fold (\<lambda>t ex. fst (spawn list_queue_ops t ex)) main_tasks (Executor_new list_queue_ops), 0, 4)
     [Interrupt] (wake_all list_queue_ops [\<lparr>waker_task = 1, waker_queue = 1\<rparr>] main_executor, 0, 4)"
    unfolding main_executor_def by (rule interrupt_run) simp
qed (simp_all add: main_tasks_eval loop_poll_wakes valid_waker_def)

text \<open>C19: Within one pass, interrupts included, tasks are polled in descending order of priority.\<close>

theorem pass_by_priority:
  fixes poll :: "('f, 'w) poll_fn"
  assumes "array_queue Q items capacity" "executor_wf items capacity prio ex"
    and "wakes_within poll W" "\<forall>wk \<in> W. valid_waker prio wk"
    and "exec_run Q poll W (ex, w, 4) es (ex', w', c)" "\<forall>b. Slept b \<notin> set es"
  shows "sorted_wrt (\<lambda>i j. prio j \<le> prio i) (polled es)"
  using run_queues.exec_run_descending [OF run_queuesI [OF assms(1)] assms(5,6,2) _ assms(3,4)] by simp

theorem pass_by_priority_witness:
  "\<exists>es ex' w'. exec_run list_queue_ops poll_once {} (two_executor, 0, 4) es (ex', w', 0)
     \<and> {0, 1} \<subseteq> set (polled es) \<and> sorted_wrt (\<lambda>i j. two_prio j \<le> two_prio i) (polled es)"
proof -
  obtain ex' w' es where es: "exec_run list_queue_ops poll_once {} (two_executor, 0, 4) es (ex', w', 0)"
    "list_all in_pass es" "{0, 1} \<subseteq> set (polled es)"
    using two_executor_pass by (elim exE conjE) (rule that)
  have "\<forall>b. Slept b \<notin> set es"
    using es(2) by (auto simp: list_all_iff in_pass_def)
  with pass_by_priority [OF lq.array_queue_axioms two_executor_wf poll_once_wakes _ es(1)] es show ?thesis
    by auto
qed

text \<open>C20: A pass that returns has polled every live task that was ready when it began.\<close>

theorem ready_tasks_polled:
  fixes poll :: "('f, 'w) poll_fn"
  assumes "array_queue Q items capacity" "executor_wf items capacity prio ex"
    and "run_ready_tasks Q poll ex w = Some (ex', w')"
  shows "\<exists>es. exec_run Q poll {} (ex, w, 4) es (ex', w', 0) \<and> list_all in_pass es
    \<and> (\<forall>p < 4. \<forall>i \<in> set (queue_at items ex p). bt_contains_key (tasks ex) i \<longrightarrow> i \<in> set (polled es))"
proof -
  obtain es where es: "exec_run Q poll {} (ex, w, 4) es (ex', w', 0)" "list_all in_pass es"
    using drain_queues_run [of Q poll 4 ex w ex' w' "{}"] assms(3) by (auto simp: run_ready_tasks_def)
  have "length (task_queues ex) = 4"
    using assms(2) by (simp add: executor_wf_def)
  with run_queues.pass_polls_queued [OF run_queuesI [OF assms(1)] es(1)] es show ?thesis
    by (intro exI [of _ es]) simp
qed

theorem ready_tasks_polled_witness:
  "\<exists>es ex' w'. run_ready_tasks list_queue_ops poll_once two_executor 0 = Some (ex', w')
     \<and> exec_run list_queue_ops poll_once {} (two_executor, 0, 4) es (ex', w', 0) \<and> {0, 1} \<subseteq> set (polled es)"
proof -
  obtain ex' w' where run: "run_ready_tasks list_queue_ops poll_once two_executor 0 = Some (ex', w')"
    using two_executor_pass by (elim exE conjE) (rule that)
  obtain es where "exec_run list_queue_ops poll_once {} (two_executor, 0, 4) es (ex', w', 0)"
    "\<forall>p < 4. \<forall>i \<in> set (queue_at snd two_executor p). bt_contains_key (tasks two_executor) i
       \<longrightarrow> i \<in> set (polled es)"
    using ready_tasks_polled [OF lq.array_queue_axioms two_executor_wf run] by (elim exE conjE) (rule that)
  with run show ?thesis
    by (intro exI [of _ es] exI [of _ ex'] exI [of _ w'])
      (auto simp: two_executor_eval queue_at_def dest: spec [of _ 0] spec [of _ 3])
qed

text \<open>C21: If the wakes that polls can still make are bounded (every poll that wakes \<open>n\<close> tasks uses
  up \<open>n\<close> of a budget of the kernel's state), then \<open>run_ready_tasks\<close> returns.\<close>

theorem run_ready_tasks_terminates:
  fixes budget :: "'w \<Rightarrow> nat"
  assumes "array_queue Q items capacity" "length (task_queues ex) = 4"
    and "\<forall>wk f w r f' w' ws. poll wk f w = (r, f', w', ws) \<longrightarrow> length ws + budget w' \<le> budget w"
  shows "\<exists>ex' w'. run_ready_tasks Q poll ex w = Some (ex', w')"
  using run_queues.drain_queues_end [OF run_queuesI [OF assms(1)] assms(3), of 4 ex w] assms(2)
  by (simp add: run_ready_tasks_def)

theorem run_ready_tasks_terminates_witness:
  "\<exists>ex' w'. run_ready_tasks list_queue_ops poll_once two_executor 0 = Some (ex', w')"
  by (rule run_ready_tasks_terminates [OF lq.array_queue_axioms, where budget = "\<lambda>_. 0"])
    (simp_all add: two_executor_eval poll_once_def)

text \<open>A task that wakes itself in every poll, as every task of \<open>main.rs\<close> does, keeps the
  executor at its queue: \<open>run_ready_tasks\<close> does not return, whatever interrupts wake no task of
  lower priority is polled, and the executor never reaches \<open>sleep_if_idle\<close>.\<close>

theorem self_waking_task_starves:
  fixes poll :: "('f, 'w) poll_fn"
  assumes "array_queue Q items capacity" "executor_wf items capacity prio ex"
    and "wakes_within poll W" "\<forall>wk \<in> W. valid_waker prio wk"
    and "spins poll P i" "spinning items P (priority_index (prio i)) i ex"
  shows "run_ready_tasks Q poll ex w = None
    \<and> (\<forall>es ex' w' c. exec_run Q poll W (ex, w, 4) es (ex', w', c) \<longrightarrow>
         (\<forall>j \<in> set (polled es). prio i \<le> prio j) \<and> (\<forall>b. Slept b \<notin> set es))"
proof -
  note run = run_queues.spinner_run [OF run_queuesI [OF assms(1)] _ assms(2) _ _ assms(3-6)]
  have runs: "exec_run Q poll W (ex, w, 4) es (ex', w', c) \<Longrightarrow>
      (\<forall>j \<in> set (polled es). prio i \<le> prio j) \<and> (\<forall>b. Slept b \<notin> set es)" for es ex' w' c
    using run [of w 4 es ex' w' c] priority_index_less [of "prio i"] by simp
  have none: "run_ready_tasks Q poll ex w = None"
  proof (rule ccontr)
    assume "run_ready_tasks Q poll ex w \<noteq> None"
    then obtain ex' w' where "run_ready_tasks Q poll ex w = Some (ex', w')"
      by auto
    then obtain es where "exec_run Q poll W (ex, w, 4) es (ex', w', 0)"
      using drain_queues_run [of Q poll 4 ex w ex' w' W] by (auto simp: run_ready_tasks_def)
    with run [of w 4 es ex' w' 0] priority_index_less [of "prio i"] show False
      by simp
  qed
  show ?thesis
    by (rule conjI [OF none], intro allI impI, erule runs)
qed

theorem self_waking_task_starves_witness:
  "spinning snd (\<lambda>_. True) (priority_index Normal) 0 main_executor
   \<and> run_ready_tasks list_queue_ops (loop_poll Suc) main_executor 0 = None"
proof
  show spin: "spinning snd (\<lambda>_. True) (priority_index Normal) 0 main_executor"
    by (simp add: spinning_def queue_at_def main_executor_eval)
  from self_waking_task_starves [OF lq.array_queue_axioms main_executor_wf loop_poll_wakes [of Suc "{}"] _
      loop_poll_spins, of 0] spin
  show "run_ready_tasks list_queue_ops (loop_poll Suc) main_executor 0 = None"
    by simp
qed

text \<open>A task that is in no queue and whose waker no other part of the kernel holds is never
  polled again, and stays in the task table as it is.\<close>

theorem unwoken_never_polled:
  fixes poll :: "('f, 'w) poll_fn"
  assumes "array_queue Q items capacity" "executor_wf items capacity prio ex"
    and "wakes_within poll W" "\<forall>wk \<in> W. valid_waker prio wk" "\<forall>wk \<in> W. waker_task wk \<noteq> i"
    and "\<forall>p < 4. i \<notin> set (queue_at items ex p)" "exec_run Q poll W (ex, w, c) es (ex', w', c')" "c \<le> 4"
  shows "i \<notin> set (polled es) \<and> bt_get (tasks ex') i = bt_get (tasks ex) i"
  using run_queues.unwoken_run [OF run_queuesI [OF assms(1)] assms(7,2,8,3-6)] .

theorem unwoken_never_polled_witness:
  "bt_contains_key (tasks stuck_executor) 1
   \<and> (\<exists>ex'. exec_run list_queue_ops poll_never {} (stuck_executor, 0, 4) [NextQueue, Interrupt] (ex', 0, 3)
        \<and> bt_get (tasks ex') 1 = bt_get (tasks stuck_executor) 1)"
proof
  show "bt_contains_key (tasks stuck_executor) 1"
    using two_executor_eval(4)
    by (auto simp: stuck_executor_def poll_task_def Task_poll_def poll_never_def Let_def pop_task_def
        list_queue_ops_def two_executor_eval eval_nat_numeral bt_contains_key_def)
next
  obtain ex1 where "pop_task list_queue_ops 3 stuck_executor = (ex1, None)"
    by (auto simp: pop_task_def list_queue_ops_def stuck_executor_eval eval_nat_numeral Let_def)
  then have "exec_step list_queue_ops poll_never {} (stuck_executor, 0, Suc 3) NextQueue (ex1, 0, 3)"
    by (rule exec_step.next_queue)
  then have run: "exec_run list_queue_ops poll_never {} (stuck_executor, 0, 4) [NextQueue, Interrupt]
      (wake_all list_queue_ops [] ex1, 0, 3)"
    by (intro exec_more) (simp, rule exec_step.interrupt, simp, rule exec_nil)
  have "\<forall>p < 4. 1 \<notin> set (queue_at snd stuck_executor p)"
    by (auto simp: queue_at_def stuck_executor_eval nth_Cons' split: if_splits)
  from unwoken_never_polled [OF lq.array_queue_axioms stuck_executor_wf poll_never_wakes _ _ this run] run
  show "\<exists>ex'. exec_run list_queue_ops poll_never {} (stuck_executor, 0, 4) [NextQueue, Interrupt] (ex', 0, 3)
      \<and> bt_get (tasks ex') 1 = bt_get (tasks stuck_executor) 1"
    by auto
qed

text \<open>Spawning: a duplicate id changes nothing, a task whose queue is full is dropped with a
  warning and leaves tables and queues as they were, and otherwise the task is in the table and
  last in the queue of its priority.\<close>

theorem spawn_behaviour:
  assumes "array_queue Q items capacity" "length (task_queues ex) = 4"
  shows "let p = priority_index (task_priority t) in
    case spawn Q t ex of
      (ex', Some (DuplicateTaskId i)) \<Rightarrow> i = task_id t \<and> ex' = ex \<and> bt_contains_key (tasks ex) i
    | (ex', Some (QueueFull q i)) \<Rightarrow> i = task_id t \<and> q = p \<and> task_queues ex' = task_queues ex
        \<and> bt_get (tasks ex') = bt_get (tasks ex) \<and> capacity (task_queues ex ! p) \<le> length (queue_at items ex p)
    | (ex', None) \<Rightarrow> bt_get (tasks ex') = (bt_get (tasks ex))(task_id t \<mapsto> t)
        \<and> queue_at items ex' p = queue_at items ex p @ [task_id t]
        \<and> (\<forall>p'. p' \<noteq> p \<longrightarrow> queue_at items ex' p' = queue_at items ex p')"
proof -
  obtain ex' m where sp: "spawn Q t ex = (ex', m)"
    by (cases "spawn Q t ex")
  show ?thesis
    unfolding sp Let_def
    by (rule run_queues.spawn_cases [OF run_queuesI [OF assms(1)] sp assms(2)])
      (simp_all add: queue_at_def)
qed

theorem spawn_behaviour_witness:
  "queue_at snd (fst (spawn list_queue_ops \<lparr>task_id = 2, task_priority = Critical, task_future = ()\<rparr> two_executor)) 3
     = [1, 2]"
  using spawn_behaviour [OF lq.array_queue_axioms, of two_executor "\<lparr>task_id = 2, task_priority = Critical, task_future = ()\<rparr>"]
  by (auto simp: two_executor_eval bt_contains_key_def list_queue_ops_def Let_def queue_at_def spawn_def)

end
