(* ===== verification/Wasm_Runtime.thy ===== *)
theory Wasm_Runtime
  imports Host_Calls Executor
begin

text \<open>
  WebAssembly processes as kernel tasks (\<open>wasm/mod.rs\<close>). The interpreter is the \<open>wasmi\<close>
  crate: a record of the operations the kernel calls, with the store, instances, functions,
  suspended invocations, modules and errors as type parameters. Executing code may call host
  functions, so the operations that execute take and return the kernel's global state. The locale
  \<open>wasm_engine\<close> states the documented behaviour used here; \<open>script_ops\<close> is an engine with this
  behaviour whose functions are lists of host calls, executed by the model of the host functions.
\<close>

section \<open>The interpreter\<close>

datatype 'inv ResumableCall = Finished | Resumable 'inv

record ('s, 'inst, 'fn, 'inv, 'mod, 'err, 'k) wasmi_ops =
  wm_module_new :: "u8 list \<Rightarrow> 'err + 'mod"
  wm_store_new :: "HostState \<Rightarrow> 's"
  wm_instantiate :: "'mod \<Rightarrow> 's \<Rightarrow> 'k \<Rightarrow> ('err + 'inst) \<times> 's \<times> 'k"
  wm_add_fuel :: "u64 \<Rightarrow> 's \<Rightarrow> 'err option \<times> 's"
  wm_data :: "'s \<Rightarrow> HostState"
  wm_set_data :: "HostState \<Rightarrow> 's \<Rightarrow> 's"
  wm_get_func :: "'inst \<Rightarrow> 's \<Rightarrow> str \<Rightarrow> 'fn option"
  wm_call :: "'fn \<Rightarrow> host_value list \<Rightarrow> 's \<Rightarrow> 'k \<Rightarrow> ('err + host_value list) \<times> 's \<times> 'k"
  wm_call_resumable :: "'fn \<Rightarrow> host_value list \<Rightarrow> 's \<Rightarrow> 'k \<Rightarrow> ('err + 'inv ResumableCall) \<times> 's \<times> 'k"
  wm_resume :: "'inv \<Rightarrow> host_value list \<Rightarrow> 's \<Rightarrow> 'k \<Rightarrow> ('err + 'inv ResumableCall) \<times> 's \<times> 'k"
  wm_unreachable :: 'err
  wm_debug :: "'err \<Rightarrow> str"

section \<open>Processes\<close>

definition FUEL_PER_SLICE :: u64 where
  "FUEL_PER_SLICE = 10000"

record ('s, 'inst) WasmProcess =
  wp_store :: 's
  wp_instance :: 'inst

definition println :: "str \<Rightarrow> ('q, 'w) Kernel \<Rightarrow> ('q, 'w) Kernel" where
  "println s k = k\<lparr>console := console k @ [s]\<rparr>"

text \<open>\<open>store.add_fuel(FUEL_PER_SLICE)\<close>, logging a failure.\<close>

definition grant_fuel ::
    "('s, 'inst, 'fn, 'inv, 'mod, 'err, ('q, 'w) Kernel) wasmi_ops \<Rightarrow> 's \<Rightarrow> ('q, 'w) Kernel
     \<Rightarrow> 's \<times> ('q, 'w) Kernel" where
  "grant_fuel M s k =
     (case wm_add_fuel M FUEL_PER_SLICE s of
        (None, s') \<Rightarrow> (s', k)
      | (Some e, s') \<Rightarrow> (s', println (''[WASM] Failed to add fuel: '' @ wm_debug M e) k))"

definition spawn_process_with_caps ::
    "('s, 'inst, 'fn, 'inv, 'mod, 'err, ('q, 'w) Kernel) wasmi_ops \<Rightarrow> u8 list \<Rightarrow> Capability list
     \<Rightarrow> ('q, 'w) Kernel \<Rightarrow> ('err + ('s, 'inst) WasmProcess) \<times> ('q, 'w) Kernel" where
  "spawn_process_with_caps M wasm_bytes initial_caps k =
     (case wm_module_new M wasm_bytes of
        Inl e \<Rightarrow> (Inl e, k)
      | Inr module \<Rightarrow>
          let host_state = with_capabilities initial_caps;
              s = wm_store_new M host_state
          in (case wm_instantiate M module s k of
                (Inl e, s', k') \<Rightarrow> (Inl e, k')
              | (Inr inst, s', k') \<Rightarrow>
                  let (s'', k'') = grant_fuel M s' k'
                  in (Inr \<lparr>wp_store = s'', wp_instance = inst\<rparr>, k'')))"

definition spawn_process ::
    "('s, 'inst, 'fn, 'inv, 'mod, 'err, ('q, 'w) Kernel) wasmi_ops \<Rightarrow> u8 list
     \<Rightarrow> ('q, 'w) Kernel \<Rightarrow> ('err + ('s, 'inst) WasmProcess) \<times> ('q, 'w) Kernel" where
  "spawn_process M wasm_bytes k = spawn_process_with_caps M wasm_bytes [] k"

text \<open>\<open>WasmProcess::call\<close>, the blocking call.\<close>

definition WasmProcess_call ::
    "('s, 'inst, 'fn, 'inv, 'mod, 'err, ('q, 'w) Kernel) wasmi_ops \<Rightarrow> str \<Rightarrow> host_value list
     \<Rightarrow> ('s, 'inst) WasmProcess \<Rightarrow> ('q, 'w) Kernel
     \<Rightarrow> ('err + host_value list) \<times> ('s, 'inst) WasmProcess \<times> ('q, 'w) Kernel" where
  "WasmProcess_call M name params p k =
     (case wm_get_func M (wp_instance p) (wp_store p) name of
        None \<Rightarrow> (Inl (wm_unreachable M), p, k)
      | Some func \<Rightarrow>
          (case wm_call M func params (wp_store p) k of
             (r, s', k') \<Rightarrow> (r, p\<lparr>wp_store := s'\<rparr>, k')))"

section \<open>Futures\<close>

text \<open>The first statements of both polls: fuel of the interpreter, fuel of the host functions.\<close>

definition start_slice ::
    "('s, 'inst, 'fn, 'inv, 'mod, 'err, ('q, 'w) Kernel) wasmi_ops \<Rightarrow> ('s, 'inst) WasmProcess
     \<Rightarrow> ('q, 'w) Kernel \<Rightarrow> ('s, 'inst) WasmProcess \<times> ('q, 'w) Kernel" where
  "start_slice M p k =
     (let (s, k) = grant_fuel M (wp_store p) k;
          s = wm_set_data M ((wm_data M s)\<lparr>fuel_remaining := FUEL_PER_SLICE\<rparr>) s
      in (p\<lparr>wp_store := s\<rparr>, k))"

record ('s, 'inst, 'inv) WasmTask =
  wt_process :: "('s, 'inst) WasmProcess"
  wt_func_name :: str
  wt_invocation :: "'inv option"

definition WasmTask_poll ::
    "('s, 'inst, 'fn, 'inv, 'mod, 'err, ('q, 'w) Kernel) wasmi_ops \<Rightarrow> ('s, 'inst, 'inv) WasmTask
     \<Rightarrow> ('q, 'w) Kernel \<Rightarrow> ('err + unit) Poll \<times> ('s, 'inst, 'inv) WasmTask \<times> ('q, 'w) Kernel" where
  "WasmTask_poll M t k =
     (let (p, k) = start_slice M (wt_process t) k;
          taken = wt_invocation t;
          t = t\<lparr>wt_process := p, wt_invocation := None\<rparr>;
          run = (case taken of
                   None \<Rightarrow>
                     (case wm_get_func M (wp_instance p) (wp_store p) (wt_func_name t) of
                        None \<Rightarrow> (Inl (wm_unreachable M), wp_store p, k)
                      | Some func \<Rightarrow> wm_call_resumable M func [] (wp_store p) k)
                 | Some invocation \<Rightarrow> wm_resume M invocation [] (wp_store p) k)
      in case run of
           (result, s, k) \<Rightarrow>
             let t = t\<lparr>wt_process := p\<lparr>wp_store := s\<rparr>\<rparr> in
             (case result of
                Inr Finished \<Rightarrow> (Ready (Inr ()), t, k)
              | Inr (Resumable invocation) \<Rightarrow> (Pending, t\<lparr>wt_invocation := Some invocation\<rparr>, k)
              | Inl e \<Rightarrow> (Ready (Inl e), t, k)))"

text \<open>\<open>WasmCallFuture\<close> borrows its process, so a poll returns the process to its owner.\<close>

record 'inv WasmCallFuture =
  wc_func_name :: str
  wc_invocation :: "'inv option"

definition call_async :: "str \<Rightarrow> 'inv WasmCallFuture" where
  "call_async name = \<lparr>wc_func_name = name, wc_invocation = None\<rparr>"

definition WasmCallFuture_poll ::
    "('s, 'inst, 'fn, 'inv, 'mod, 'err, ('q, 'w) Kernel) wasmi_ops \<Rightarrow> 'inv WasmCallFuture
     \<Rightarrow> ('s, 'inst) WasmProcess \<Rightarrow> ('q, 'w) Kernel
     \<Rightarrow> ('err + unit) Poll \<times> 'inv WasmCallFuture \<times> ('s, 'inst) WasmProcess \<times> ('q, 'w) Kernel" where
  "WasmCallFuture_poll M c p k =
     (let (p, k) = start_slice M p k;
          taken = wc_invocation c;
          c = c\<lparr>wc_invocation := None\<rparr>;
          run = (case taken of
                   None \<Rightarrow>
                     (case wm_get_func M (wp_instance p) (wp_store p) (wc_func_name c) of
                        None \<Rightarrow> (Inl (wm_unreachable M), wp_store p, k)
                      | Some func \<Rightarrow> wm_call_resumable M func [] (wp_store p) k)
                 | Some invocation \<Rightarrow> wm_resume M invocation [] (wp_store p) k)
      in case run of
           (result, s, k) \<Rightarrow>
             let p = p\<lparr>wp_store := s\<rparr> in
             (case result of
                Inr Finished \<Rightarrow> (Ready (Inr ()), c, p, k)
              | Inr (Resumable invocation) \<Rightarrow> (Pending, c\<lparr>wc_invocation := Some invocation\<rparr>, p, k)
              | Inl e \<Rightarrow> (Ready (Inl e), c, p, k)))"

section \<open>Processes as kernel tasks\<close>

text \<open>
  The async block of \<open>spawn_task\<close>. \<open>WasmTask::poll\<close> ignores its context, so the only wakers that
  are woken during a poll are those host functions wake, which the kernel's state records.
\<close>

definition wasm_task_poll ::
    "('s, 'inst, 'fn, 'inv, 'mod, 'err, ('q, TaskWaker) Kernel) wasmi_ops
     \<Rightarrow> (('s, 'inst, 'inv) WasmTask, ('q, TaskWaker) Kernel) poll_fn" where
  "wasm_task_poll M wk t k =
     (case WasmTask_poll M t k of
        (r, t', k') \<Rightarrow>
          let ws = drop (length (wakes k)) (wakes k') in
          (case r of
             Ready (Inr _) \<Rightarrow> (Ready (), t', println ''[WASM] Completed.'' k', ws)
           | Ready (Inl e) \<Rightarrow> (Ready (), t', println (''[WASM] Error: '' @ wm_debug M e) k', ws)
           | Pending \<Rightarrow> (Pending, t', k', ws)))"

definition spawn_task ::
    "('qq, TaskId) queue_ops \<Rightarrow> ('s, 'inst) WasmProcess \<Rightarrow> str \<Rightarrow> u64
     \<Rightarrow> (('s, 'inst, 'inv) WasmTask, 'qq) Executor
     \<Rightarrow> (('s, 'inst, 'inv) WasmTask, 'qq) Executor \<times> spawn_message option \<times> u64" where
  "spawn_task Q p name next_id ex =
     (let t = \<lparr>wt_process = p, wt_func_name = name, wt_invocation = None\<rparr>;
          (task, next_id) = Task_with_priority next_id t Normal;
          (ex, m) = spawn Q task ex
      in (ex, m, next_id))"

end
