(* ===== verification/Wasm_Runtime_Spec.thy ===== *)
theory Wasm_Runtime_Spec
  imports Wasm_Runtime Executor_Spec
begin

text \<open>
  Properties of the WebAssembly runtime: what a slice grants a process, what happens to a process
  that yields, and the fuel of processes run by the blocking call.
\<close>

section \<open>The engine\<close>

text \<open>
  The documented behaviour of the interpreter. Host data changes only where the kernel writes it or
  a host function runs, and host functions never add fuel; an invocation that is suspended in a
  host function is resumed with as many values as that function returns (\<open>arity\<close>), any other
  number is an error.
\<close>

lemma with_capabilities_fuel: "fuel_remaining (with_capabilities cs) = 0"
proof -
  have "fuel_remaining (fold (\<lambda>cap state. state\<lparr>capabilities := bt_insert (cap_id cap) cap (capabilities state)\<rparr>)
      cs h) = fuel_remaining h" for h :: HostState
    by (induction cs arbitrary: h) simp_all
  then show ?thesis
    by (simp add: with_capabilities_def HostState_new_def)
qed

locale wasm_engine =
  fixes M :: "('s, 'inst, 'fn, 'inv, 'mod, 'err, ('q, 'w) Kernel) wasmi_ops"
    and arity :: "'inv \<Rightarrow> nat"
  assumes data_set: "wm_data M (wm_set_data M h s) = h"
    and add_fuel_data: "wm_data M (snd (wm_add_fuel M n s)) = wm_data M s"
    and store_data: "wm_data M (wm_store_new M h) = h"
    and instantiate_fuel: "wm_instantiate M m s k = (Inr i, s', k') \<Longrightarrow>
      fuel_remaining (wm_data M s') \<le> fuel_remaining (wm_data M s)"
    and resume_arity: "length vs \<noteq> arity v \<Longrightarrow> \<exists>e s' k'. wm_resume M v vs s k = (Inl e, s', k')"
begin

lemma grant_fuel_data: "grant_fuel M s k = (s', k') \<Longrightarrow> wm_data M s' = wm_data M s"
  using add_fuel_data [of FUEL_PER_SLICE s]
  by (auto simp: grant_fuel_def split: prod.splits option.splits)

lemma start_slice_data:
  "start_slice M p k = (p', k') \<Longrightarrow>
     wm_data M (wp_store p') = (wm_data M (wp_store p))\<lparr>fuel_remaining := FUEL_PER_SLICE\<rparr>"
  using grant_fuel_data [of "wp_store p" k]
  by (auto simp: start_slice_def data_set Let_def split: prod.splits)

lemma spawned_fuel:
  assumes "spawn_process_with_caps M bytes cs k = (Inr p, k')"
  shows "fuel_remaining (wm_data M (wp_store p)) = 0"
proof -
  obtain m i s1 k1 where m: "wm_module_new M bytes = Inr m"
    and i: "wm_instantiate M m (wm_store_new M (with_capabilities cs)) k = (Inr i, s1, k1)"
    and g: "wp_store p = fst (grant_fuel M s1 k1)"
    using assms by (auto simp: spawn_process_with_caps_def Let_def split: sum.splits prod.splits)
  have "wm_data M (wp_store p) = wm_data M s1"
    using grant_fuel_data [of s1 k1] g by (metis prod.collapse)
  moreover have "fuel_remaining (with_capabilities cs) = 0"
    by (rule with_capabilities_fuel)
  ultimately show ?thesis
    using instantiate_fuel [OF i] by (simp add: store_data)
qed

lemma resume_with_nothing:
  assumes "wt_invocation t = Some v" "arity v \<noteq> 0"
  shows "\<exists>e t' k'. WasmTask_poll M t k = (Ready (Inl e), t', k')"
proof -
  obtain p k1 where s: "start_slice M (wt_process t) k = (p, k1)"
    by (cases "start_slice M (wt_process t) k")
  obtain e s' k' where "wm_resume M v [] (wp_store p) k1 = (Inl e, s', k')"
    using resume_arity [of "[]" v "wp_store p" k1] assms(2) by auto
  with s assms(1) show ?thesis
    by (simp add: WasmTask_poll_def)
qed

end

section \<open>An engine that runs scripts\<close>

fun result_arity :: "host_call \<Rightarrow> nat" where
  "result_arity Call_print = 0"
| "result_arity (Call_fs_close _) = 0"
| "result_arity Call_sched_yield = 0"
| "result_arity _ = 1"

fun run_script ::
    "('q, 'w, 'm) host_env \<Rightarrow> host_call list \<Rightarrow> 'm Caller \<Rightarrow> ('q, 'w) Kernel
     \<Rightarrow> (str + (nat \<times> host_call list) ResumableCall) \<times> 'm Caller \<times> ('q, 'w) Kernel" where
  "run_script E [] c k = (Inr Finished, c, k)"
| "run_script E (call # calls) c k =
     (case register_functions E call c k of
        (Ret _, c', k') \<Rightarrow> run_script E calls c' k'
      | (Trap _, c', k') \<Rightarrow> (Inr (Resumable (result_arity call, calls)), c', k')
      | (Panic, c', k') \<Rightarrow> (Inl ''panic'', c', k'))"

definition script_ops ::
    "('q, 'w, 'm) host_env \<Rightarrow> 'm \<Rightarrow> (str \<rightharpoonup> host_call list)
     \<Rightarrow> ('m Caller, unit, host_call list, nat \<times> host_call list, unit, str, ('q, 'w) Kernel) wasmi_ops" where
  "script_ops E mem funcs = \<lparr>
     wm_module_new = (\<lambda>bytes. if bytes = [] then Inl ''empty module'' else Inr ()),
     wm_store_new = (\<lambda>h. \<lparr>host = h, export_memory = Some mem\<rparr>),
     wm_instantiate = (\<lambda>m c k. (Inr (), c, k)),
     wm_add_fuel = (\<lambda>n c. (None, c)),
     wm_data = host,
     wm_set_data = (\<lambda>h c. c\<lparr>host := h\<rparr>),
     wm_get_func = (\<lambda>i c name. funcs name),
     wm_call = (\<lambda>f vs c k. case run_script E f c k of
        (Inr Finished, c', k') \<Rightarrow> (Inr [I32 0], c', k')
      | (Inr (Resumable _), c', k') \<Rightarrow> (Inl ''host trap'', c', k')
      | (Inl e, c', k') \<Rightarrow> (Inl e, c', k')),
     wm_call_resumable = (\<lambda>f vs c k. run_script E f c k),
     wm_resume = (\<lambda>(n, f) vs c k.
        if length vs = n then run_script E f c k else (Inl ''wrong number of values'', c, k)),
     wm_unreachable = ''unreachable'',
     wm_debug = (\<lambda>e. e)\<rparr>"

interpretation se: wasm_engine "script_ops E mem funcs" fst
  by unfold_locales (auto simp: script_ops_def split: if_splits)

section \<open>Polls\<close>

lemma no_fuel_traps:
  assumes "fuel_remaining (host c) = 0"
  shows "check_fuel cost c k rest = (Trap Yield, c, k)"
proof -
  have "saturating_sub 0 cost = 0"
    by (simp add: saturating_sub_def word_gt_0)
  moreover have "c\<lparr>host := (host c)\<lparr>fuel_remaining := 0\<rparr>\<rparr> = c"
    using assms by (cases c; cases "host c") simp
  ultimately show ?thesis
    using assms by (simp add: check_fuel_def consume_fuel_def YIELD_THRESHOLD_def Let_def)
qed

text \<open>Both futures poll alike: \<open>WasmTask\<close> owns the process that \<open>WasmCallFuture\<close> borrows.\<close>

lemma WasmCallFuture_poll_eq:
  "WasmCallFuture_poll M c p k =
     (case WasmTask_poll M \<lparr>wt_process = p, wt_func_name = wc_func_name c, wt_invocation = wc_invocation c\<rparr> k of
        (r, t, k') \<Rightarrow> (r, c\<lparr>wc_invocation := wt_invocation t\<rparr>, wt_process t, k'))"
  by (simp add: WasmCallFuture_poll_def WasmTask_poll_def Let_def
      split: prod.splits option.splits sum.splits ResumableCall.splits)

text \<open>The poll of a process does not look at its waker.\<close>

lemma wasm_wakes:
  assumes "wakes_within (wasm_task_poll M) W" "wasm_task_poll M wk t k = (r, t', k', ws)"
  shows "set ws \<subseteq> W"
proof
  fix x
  assume x: "x \<in> set ws"
  obtain wk' :: TaskWaker where "wk' \<noteq> x"
    by (metis (full_types) TaskWaker.select_convs(2) n_not_Suc_n)
  have "wasm_task_poll M wk' t k = (r, t', k', ws)"
    using assms(2) by (simp add: wasm_task_poll_def)
  with assms(1) have "set ws \<subseteq> insert wk' W"
    unfolding wakes_within_def by blast
  with x \<open>wk' \<noteq> x\<close> show "x \<in> W"
    by blast
qed

context run_queues
begin

lemma yielded_process_unqueued:
  fixes M :: "('s, 'inst, 'fn, 'v, 'mod, 'err, ('qq, TaskWaker) Kernel) wasmi_ops"
    and ex1 :: "(('s, 'inst, 'v) WasmTask, 'q) Executor"
  assumes "wakes_within (wasm_task_poll M) W" "\<forall>wk \<in> W. waker_task wk \<noteq> i"
    and "\<forall>p < 4. i \<notin> set (queue_at items ex1 p)" "length (task_queues ex1) = 4"
    and "bt_get (tasks ex1) i = Some t" "WasmTask_poll M (task_future t) k = (Pending, t', k1)"
    and "poll_task Q (wasm_task_poll M) p i ex1 k = (ex2, k2)"
  shows "\<forall>p < 4. i \<notin> set (queue_at items ex2 p)"
    and "bt_get (tasks ex2) i = Some (t\<lparr>task_future := t'\<rparr>)"
proof -
  let ?ws = "drop (length (wakes k)) (wakes k1)"
  have poll: "wasm_task_poll M (cached_waker p i ex1) (task_future t) k = (Pending, t', k1, ?ws)"
    using assms(6) by (simp add: wasm_task_poll_def)
  note eff = poll_task_Some [where poll = "wasm_task_poll M", OF assms(5) poll assms(7)]
  have W: "set ?ws \<subseteq> W"
    by (rule wasm_wakes [OF assms(1) poll])
  show "\<forall>p < 4. i \<notin> set (queue_at items ex2 p)"
  proof (intro allI impI)
    fix p' :: nat
    assume p': "p' < 4"
    then have "p' < length (task_queues ex1)"
      using assms(4) by simp
    from wake_all_appends [OF this, of ?ws] obtain ys where
      ys: "queue_at items (wake_all Q ?ws ex1) p' = queue_at items ex1 p' @ ys"
        "set ys \<subseteq> waker_task ` {wk \<in> set ?ws. waker_queue wk = p'}"
      by blast
    have "i \<notin> set ys"
      using ys(2) W assms(2) by blast
    with ys(1) assms(3) p' queue_at_cong [OF eff(2), of items p'] show "i \<notin> set (queue_at items ex2 p')"
      by simp
  qed
  show "bt_get (tasks ex2) i = Some (t\<lparr>task_future := t'\<rparr>)"
    using eff(3) by simp
qed

end

section \<open>A process that yields\<close>

text \<open>A module with one function, which yields and then returns, and the executor it is spawned on.\<close>

definition yield_ops ::
    "(u8 list Caller, unit, host_call list, nat \<times> host_call list, unit, str, (nat \<times> TaskWaker list, TaskWaker) Kernel) wasmi_ops" where
  "yield_ops = (script_ops \<lparr>queue = list_queue_ops, memory = list_memory_ops, heap_fits = (\<lambda>n. n \<le> 102400)\<rparr>
       [] [''_start'' \<mapsto> [Call_sched_yield]])
     \<lparr>wm_call_resumable := (\<lambda>f vs c k. (Inr (Resumable (0, [])), c, k)),
      wm_resume := (\<lambda>v vs c k. (Inr Finished, c, k))\<rparr>"

definition yield_kernel :: "(nat \<times> TaskWaker list, TaskWaker) Kernel" where
  "yield_kernel = \<lparr>root_fs = demo_open, registry = init_registries, next_cap_index = 2, console = [], wakes = []\<rparr>"

definition yield_process :: "(u8 list Caller, unit) WasmProcess" where
  "yield_process = \<lparr>wp_store = \<lparr>host = HostState_new, export_memory = Some []\<rparr>, wp_instance = ()\<rparr>"

definition yield_executor ::
    "((u8 list Caller, unit, nat \<times> host_call list) WasmTask, nat \<times> TaskId list) Executor" where
  "yield_executor = fst (spawn_task list_queue_ops yield_process ''_start'' 5 (Executor_new list_queue_ops))"

lemma yield_executor_eval:
  "task_queues yield_executor = [(100, []), (100, [5]), (100, []), (100, [])]"
  "bt_get (tasks yield_executor) 5 = Some \<lparr>task_id = 5, task_priority = Normal,
     task_future = \<lparr>wt_process = yield_process, wt_func_name = ''_start'', wt_invocation = None\<rparr>\<rparr>"
  by (simp_all add: yield_executor_def spawn_task_def Task_with_priority_def TaskId_new_def fetch_add_one_def
      spawn_def Executor_new_def list_queue_ops_def bt_contains_key_def QUEUE_CAPACITY_def eval_nat_numeral)

lemma yield_executor_wf: "executor_wf snd fst (\<lambda>_. Normal) yield_executor"
proof -
  let ?t = "\<lparr>task_id = 5, task_priority = Normal, task_future = \<lparr>wt_process = yield_process,
     wt_func_name = ''_start'', wt_invocation = None :: (nat \<times> host_call list) option\<rparr>\<rparr>"
  have "yield_executor = fold (\<lambda>t ex. fst (spawn list_queue_ops t ex)) [?t] (Executor_new list_queue_ops)"
    by (simp add: yield_executor_def spawn_task_def Task_with_priority_def TaskId_new_def fetch_add_one_def
        split: prod.splits)
  with rq.spawn_all_wf [OF rq.Executor_new_wf, of "[?t]" "\<lambda>_. Normal"] show ?thesis
    by simp
qed

lemma yield_poll:
  "\<exists>t' k'. WasmTask_poll yield_ops
     \<lparr>wt_process = yield_process, wt_func_name = ''_start'', wt_invocation = None\<rparr> yield_kernel = (Pending, t', k')"
  by (simp add: WasmTask_poll_def start_slice_def grant_fuel_def yield_ops_def script_ops_def)

lemma yield_ops_wakes: "wakes_within (wasm_task_poll yield_ops) W"
  by (auto simp: wakes_within_def wasm_task_poll_def WasmTask_poll_def Let_def start_slice_def grant_fuel_def
      yield_ops_def script_ops_def println_def split: option.splits prod.splits Poll.splits sum.splits if_splits)

section \<open>Properties\<close>

text \<open>C27: A process that yields is never resumed: its future ignores the waker it is polled with, so after
  a poll that is pending the process is in no queue, no step of the executor polls it again, and it
  stays in the task table for ever.\<close>

theorem yielded_process_never_polled:
  fixes M :: "('s, 'inst, 'fn, 'v, 'mod, 'err, ('qq, TaskWaker) Kernel) wasmi_ops"
  assumes "array_queue Q items capacity" "executor_wf items capacity prio ex"
    and "wakes_within (wasm_task_poll M) W" "\<forall>wk \<in> W. valid_waker prio wk" "\<forall>wk \<in> W. waker_task wk \<noteq> i"
    and "pop_task Q (priority_index (prio i)) ex = (ex1, Some i)" "\<forall>p < 4. i \<notin> set (queue_at items ex1 p)"
    and "bt_get (tasks ex1) i = Some t" "WasmTask_poll M (task_future t) k = (Pending, t', k1)"
    and "poll_task Q (wasm_task_poll M) (priority_index (prio i)) i ex1 k = (ex2, k2)"
    and "exec_run Q (wasm_task_poll M) W (ex2, k2, c) es (ex', k', c')" "c \<le> 4"
  shows "i \<notin> set (polled es) \<and> bt_get (tasks ex') i = Some (t\<lparr>task_future := t'\<rparr>)"
proof -
  note rq = run_queuesI [OF assms(1)]
  have p: "priority_index (prio i) < 4"
    by (rule priority_index_less)
  note wf1 = run_queues.pop_task_wf(1) [OF rq assms(2,6) p]
  have len: "length (task_queues ex1) = 4"
    using wf1 by (simp add: executor_wf_def)
  note wf2 = run_queues.poll_task_wf [OF rq wf1 refl assms(3,4,10)]
  note un = run_queues.yielded_process_unqueued [OF rq assms(3,5,7) len assms(8-10)]
  from run_queues.unwoken_run [OF rq assms(11) wf2 assms(12,3-5) un(1)] un(2) show ?thesis
    by simp
qed

theorem yielded_process_never_polled_witness:
  "\<exists>ex1 ex2 k2. pop_task list_queue_ops 1 yield_executor = (ex1, Some 5)
     \<and> poll_task list_queue_ops (wasm_task_poll yield_ops) 1 5 ex1 yield_kernel = (ex2, k2)
     \<and> (\<forall>es ex' k' c'. exec_run list_queue_ops (wasm_task_poll yield_ops) {} (ex2, k2, 4) es (ex', k', c') \<longrightarrow>
          5 \<notin> set (polled es) \<and> bt_contains_key (tasks ex') 5)"
proof -
  let ?t = "\<lparr>task_id = 5, task_priority = Normal,
     task_future = \<lparr>wt_process = yield_process, wt_func_name = ''_start'', wt_invocation = None\<rparr>\<rparr>"
  let ?ex1 = "yield_executor\<lparr>task_queues := [(100, []), (100, []), (100, []), (100, [])]\<rparr>"
  have pop: "pop_task list_queue_ops 1 yield_executor = (?ex1, Some 5)"
    by (simp add: pop_task_def list_queue_ops_def yield_executor_eval)
  have un: "\<forall>p < 4. 5 \<notin> set (queue_at snd ?ex1 p)"
    by (auto simp: queue_at_def nth_Cons' split: if_splits)
  obtain t' k' where poll: "WasmTask_poll yield_ops (task_future ?t) yield_kernel = (Pending, t', k')"
    using yield_poll by auto
  obtain ex2 k2 where p2: "poll_task list_queue_ops (wasm_task_poll yield_ops) 1 5 ?ex1 yield_kernel = (ex2, k2)"
    by (cases "poll_task list_queue_ops (wasm_task_poll yield_ops) 1 5 ?ex1 yield_kernel")
  have "5 \<notin> set (polled es) \<and> bt_contains_key (tasks ex') 5"
    if "exec_run list_queue_ops (wasm_task_poll yield_ops) {} (ex2, k2, 4) es (ex', k', c')" for es ex' k' c'
    using yielded_process_never_polled [OF lq.array_queue_axioms yield_executor_wf yield_ops_wakes _ _ _ un _ poll _ that]
      pop p2 yield_executor_eval(2) by (simp add: bt_contains_key_def)
  with pop p2 show ?thesis
    by blast
qed

text \<open>A process suspended in a host function that returns a value is not resumed but terminated:
  the next poll passes no value to \<open>resume\<close>, which is an error.\<close>

theorem suspended_value_call_fails:
  assumes "wasm_engine M arity" "wt_invocation t = Some v" "arity v \<noteq> 0"
  shows "\<exists>e t' k'. WasmTask_poll M t k = (Ready (Inl e), t', k')"
  using wasm_engine.resume_with_nothing [OF assms] .

theorem suspended_value_call_fails_witness:
  "\<exists>e t' k'. WasmTask_poll (script_ops demo_env [] (\<lambda>_. None))
     \<lparr>wt_process = \<lparr>wp_store = \<lparr>host = HostState_new, export_memory = Some []\<rparr>, wp_instance = ()\<rparr>,
      wt_func_name = ''_start'', wt_invocation = Some (result_arity (Call_fs_open 1 0 0), [])\<rparr> demo_kernel
     = (Ready (Inl e), t', k')"
  by (rule suspended_value_call_fails [OF se.wasm_engine_axioms, where v = "(1, [])"]) simp_all

text \<open>A process started by \<open>spawn_process_with_caps\<close> has no host fuel until a future polls it, so in a
  blocking \<open>call\<close> every host function but \<open>print\<close> traps at once, whatever the process holds.\<close>

theorem fresh_process_calls_trap:
  assumes "wasm_engine M arity" "spawn_process_with_caps M bytes cs k = (Inr p, k')"
    and "host c = wm_data M (wp_store p)" "call \<noteq> Call_print"
  shows "register_functions E call c k'' = (Trap Yield, c, k'')"
proof -
  have "fuel_remaining (host c) = 0"
    using wasm_engine.spawned_fuel [OF assms(1,2)] assms(3) by simp
  then show ?thesis
    using assms(4)
    by (cases call) (simp_all add: returns_def no_fuel_traps sp_get_capabilities_def sp_fs_open_def sp_fs_read_def
        sp_fs_size_def sp_fs_close_def sp_fs_mkdir_def sp_sched_yield_def sp_mutex_create_def sp_mutex_lock_def
        sp_mutex_try_lock_def sp_mutex_unlock_def sp_sem_create_def sp_sem_acquire_def sp_sem_try_acquire_def
        sp_sem_release_def)
qed

theorem fresh_process_calls_trap_witness:
  "register_functions demo_env (Call_fs_open 1 0 3)
     \<lparr>host = with_capabilities [demo_cap], export_memory = Some []\<rparr> demo_kernel
   = (Trap Yield, \<lparr>host = with_capabilities [demo_cap], export_memory = Some []\<rparr>, demo_kernel)"
proof (rule fresh_process_calls_trap [OF se.wasm_engine_axioms])
  show "spawn_process_with_caps (script_ops demo_env [] (\<lambda>_. None)) [0] [demo_cap] demo_kernel
    = (Inr \<lparr>wp_store = \<lparr>host = with_capabilities [demo_cap], export_memory = Some []\<rparr>, wp_instance = ()\<rparr>, demo_kernel)"
    by (simp add: spawn_process_with_caps_def script_ops_def grant_fuel_def Let_def)
qed (simp_all add: script_ops_def)


end
