(* ===== verification/Vga.thy ===== *)
theory Vga
  imports Prelude
begin

text \<open>
  The VGA text console (\<open>arch/x86_64/vga.rs\<close>). The text buffer is a list of rows of cells; an
  access outside an array panics, so the operations are partial and \<open>None\<close> is a panic. The loops
  over rows and columns are folds. The refinement relates the screen to the log of all lines
  printed so far: the screen shows the last 25 of them.
\<close>

section \<open>Definitions\<close>

definition BUFFER_HEIGHT :: nat where "BUFFER_HEIGHT = 25"
definition BUFFER_WIDTH :: nat where "BUFFER_WIDTH = 80"

datatype Color =
    Black | Blue | Green | Cyan | Red | Magenta | Brown | LightGray
  | DarkGray | LightBlue | LightGreen | LightCyan | LightRed | Pink | Yellow | White

primrec color_value :: "Color \<Rightarrow> u8" where
  "color_value Black = 0"
| "color_value Blue = 1"
| "color_value Green = 2"
| "color_value Cyan = 3"
| "color_value Red = 4"
| "color_value Magenta = 5"
| "color_value Brown = 6"
| "color_value LightGray = 7"
| "color_value DarkGray = 8"
| "color_value LightBlue = 9"
| "color_value LightGreen = 10"
| "color_value LightCyan = 11"
| "color_value LightRed = 12"
| "color_value Pink = 13"
| "color_value Yellow = 14"
| "color_value White = 15"

type_synonym ColorCode = u8

definition ColorCode_new :: "Color \<Rightarrow> Color \<Rightarrow> ColorCode" where
  "ColorCode_new foreground background = push_bit 4 (color_value background) OR color_value foreground"

record ScreenChar =
  ascii_character :: u8
  cell_color :: ColorCode

type_synonym Buffer = "ScreenChar list list"

record Writer =
  column_position :: nat
  color_code :: ColorCode
  buffer :: Buffer

definition Writer_new :: "Buffer \<Rightarrow> Writer" where
  "Writer_new b = \<lparr>column_position = 0, color_code = ColorCode_new White Black, buffer = b\<rparr>"

definition Writer_set_color :: "Color \<Rightarrow> Color \<Rightarrow> Writer \<Rightarrow> Writer" where
  "Writer_set_color foreground background w = w\<lparr>color_code := ColorCode_new foreground background\<rparr>"

definition read_cell :: "nat \<Rightarrow> nat \<Rightarrow> Buffer \<Rightarrow> ScreenChar option" where
  "read_cell row col b = (if row < length b \<and> col < length (b ! row) then Some (b ! row ! col) else None)"

definition write_cell :: "nat \<Rightarrow> nat \<Rightarrow> ScreenChar \<Rightarrow> Buffer \<Rightarrow> Buffer option" where
  "write_cell row col c b =
     (if row < length b \<and> col < length (b ! row) then Some (b[row := (b ! row)[col := c]]) else None)"

definition clear_row :: "nat \<Rightarrow> Writer \<Rightarrow> Writer option" where
  "clear_row row w =
     (if row < BUFFER_HEIGHT then
        let blank = \<lparr>ascii_character = 32, cell_color = color_code w\<rparr> in
        map_option (\<lambda>b. w\<lparr>buffer := b\<rparr>)
          (fold_option (\<lambda>col. write_cell row col blank) [0..<BUFFER_WIDTH] (buffer w))
      else None)"

definition copy_cell :: "nat \<Rightarrow> nat \<Rightarrow> Buffer \<Rightarrow> Buffer option" where
  "copy_cell row col b = Option.bind (read_cell row col b) (\<lambda>c. write_cell (row - 1) col c b)"

definition new_line :: "Writer \<Rightarrow> Writer option" where
  "new_line w =
     Option.bind
       (fold_option (\<lambda>row. fold_option (copy_cell row) [0..<BUFFER_WIDTH]) [1..<BUFFER_HEIGHT] (buffer w))
       (\<lambda>b. map_option (\<lambda>w. w\<lparr>column_position := 0\<rparr>)
          (clear_row (BUFFER_HEIGHT - 1) (w\<lparr>buffer := b\<rparr>)))"

definition write_byte :: "u8 \<Rightarrow> Writer \<Rightarrow> Writer option" where
  "write_byte byte w =
     (if byte = 10 then new_line w
      else
        Option.bind (if column_position w \<ge> BUFFER_WIDTH then new_line w else Some w) (\<lambda>w.
          let row = BUFFER_HEIGHT - 1;
              col = column_position w
          in map_option (\<lambda>b. w\<lparr>buffer := b, column_position := column_position w + 1\<rparr>)
               (write_cell row col \<lparr>ascii_character = byte, cell_color = color_code w\<rparr> (buffer w))))"

definition shown_byte :: "u8 \<Rightarrow> u8" where
  "shown_byte byte = (if (32 \<le> byte \<and> byte \<le> 126) \<or> byte = 10 then byte else 254)"

definition write_str :: "u8 list \<Rightarrow> Writer \<Rightarrow> Writer option" where
  "write_str s w = fold_option (\<lambda>byte. write_byte (shown_byte byte)) s w"

definition clear_screen :: "Writer \<Rightarrow> Writer option" where
  "clear_screen w =
     map_option (\<lambda>w. w\<lparr>column_position := 0\<rparr>) (fold_option clear_row [0..<BUFFER_HEIGHT] w)"

text \<open>\<open>print!\<close> and \<open>println!\<close> with their arguments formatted.\<close>

definition print_text :: "str \<Rightarrow> Writer \<Rightarrow> Writer option" where
  "print_text s w = write_str (map byte_of_char s) w"

definition println_text :: "str \<Rightarrow> Writer \<Rightarrow> Writer option" where
  "println_text s w = write_str (map byte_of_char s @ [10]) w"

section \<open>The log of lines\<close>

text \<open>The current line first, then the earlier ones.\<close>

fun log_byte :: "u8 \<Rightarrow> u8 list list \<Rightarrow> u8 list list" where
  "log_byte b [] = [[b]]"
| "log_byte b (l # ls) =
     (if b = 10 then [] # l # ls
      else if BUFFER_WIDTH \<le> length l then [b] # l # ls
      else (l @ [b]) # ls)"

definition log_text :: "u8 list \<Rightarrow> u8 list list \<Rightarrow> u8 list list" where
  "log_text s ls = fold log_byte (map shown_byte s) ls"

definition padded :: "u8 list \<Rightarrow> u8 list" where
  "padded l = l @ replicate (BUFFER_WIDTH - length l) 32"

definition log_view :: "u8 list list \<Rightarrow> u8 list list" where
  "log_view ls = rev (take BUFFER_HEIGHT (map padded ls @ replicate BUFFER_HEIGHT (padded [])))"

definition screen_text :: "Writer \<Rightarrow> u8 list list" where
  "screen_text w = map (map ascii_character) (buffer w)"

definition buffer_wf :: "Buffer \<Rightarrow> bool" where
  "buffer_wf b \<longleftrightarrow> length b = BUFFER_HEIGHT \<and> (\<forall>row \<in> set b. length row = BUFFER_WIDTH)"

definition shows_log :: "Writer \<Rightarrow> u8 list list \<Rightarrow> bool" where
  "shows_log w ls \<longleftrightarrow> buffer_wf (buffer w) \<and> ls \<noteq> [] \<and> (\<forall>l \<in> set ls. length l \<le> BUFFER_WIDTH)
     \<and> column_position w = length (hd ls) \<and> screen_text w = log_view ls"

section \<open>The loops\<close>

lemma write_row_prefix:
  assumes "row < length b" "n \<le> length (b ! row)"
  shows "fold_option (\<lambda>col. write_cell row col (f col)) [0..<n] b = Some (b[row := map f [0..<n] @ drop n (b ! row)])"
  using assms(2)
proof (induction n)
  case 0
  then show ?case
    by simp
next
  case (Suc n)
  have "(map f [0..<n] @ drop n (b ! row))[n := f n] = map f [0..<n] @ f n # drop (Suc n) (b ! row)"
    using Suc.prems by (simp add: list_update_append Cons_nth_drop_Suc [symmetric])
  with Suc assms(1) show ?case
    by (simp add: fold_option_append write_cell_def)
qed

lemma write_row:
  assumes "buffer_wf b" "row < BUFFER_HEIGHT"
  shows "fold_option (\<lambda>col. write_cell row col (f col)) [0..<BUFFER_WIDTH] b = Some (b[row := map f [0..<BUFFER_WIDTH]])"
  using assms write_row_prefix [of row b BUFFER_WIDTH f] by (simp add: buffer_wf_def)

lemma copy_row_prefix:
  assumes "Suc row < length b" "n \<le> length (b ! row)" "n \<le> length (b ! Suc row)"
  shows "fold_option (copy_cell (Suc row)) [0..<n] b = Some (b[row := take n (b ! Suc row) @ drop n (b ! row)])"
  using assms(2,3)
proof (induction n)
  case 0
  then show ?case
    by simp
next
  case (Suc n)
  have "(take n (b ! Suc row) @ drop n (b ! row))[n := b ! Suc row ! n]
      = take (Suc n) (b ! Suc row) @ drop (Suc n) (b ! row)"
    using Suc.prems by (simp add: list_update_append Cons_nth_drop_Suc [symmetric] take_Suc_conv_app_nth)
  with Suc assms(1) show ?case
    by (simp add: fold_option_append copy_cell_def read_cell_def write_cell_def)
qed

lemma copy_row:
  assumes "buffer_wf b" "Suc row < BUFFER_HEIGHT"
  shows "fold_option (copy_cell (Suc row)) [0..<BUFFER_WIDTH] b = Some (b[row := b ! Suc row])"
  using assms copy_row_prefix [of row b BUFFER_WIDTH] by (simp add: buffer_wf_def)

lemma buffer_wf_update:
  "buffer_wf b \<Longrightarrow> length r = BUFFER_WIDTH \<Longrightarrow> buffer_wf (b[row := r])"
  by (auto simp: buffer_wf_def dest: set_update_subset_insert [THEN subsetD])

lemma scroll_prefix:
  assumes "buffer_wf b" "n < BUFFER_HEIGHT"
  shows "fold_option (\<lambda>row. fold_option (copy_cell row) [0..<BUFFER_WIDTH]) [1..<Suc n] b
    = Some (take n (tl b) @ drop n b)"
  using assms(2)
proof (induction n)
  case 0
  then show ?case
    by simp
next
  case (Suc n)
  have len: "length b = BUFFER_HEIGHT"
    using assms(1) by (simp add: buffer_wf_def)
  have wf: "buffer_wf (take n (tl b) @ drop n b)"
    using assms(1) Suc.prems len
    by (auto simp: buffer_wf_def dest!: in_set_takeD in_set_dropD list.set_sel(2) [rotated])
  have "(take n (tl b) @ drop n b)[n := (take n (tl b) @ drop n b) ! Suc n]
      = take (Suc n) (tl b) @ drop (Suc n) b"
    using Suc.prems len
    by (simp add: list_update_append nth_append Cons_nth_drop_Suc [symmetric] take_Suc_conv_app_nth nth_tl)
  with Suc copy_row [OF wf Suc.prems] show ?case
    by (simp add: fold_option_append)
qed

lemma clear_row_eq:
  assumes "buffer_wf (buffer w)" "row < BUFFER_HEIGHT"
  shows "clear_row row w = Some (w\<lparr>buffer := (buffer w)
    [row := replicate BUFFER_WIDTH \<lparr>ascii_character = 32, cell_color = color_code w\<rparr>]\<rparr>)"
  using assms write_row [OF assms, of "\<lambda>_. \<lparr>ascii_character = 32, cell_color = color_code w\<rparr>"]
  by (simp add: clear_row_def map_replicate_const)

lemma new_line_eq:
  assumes "buffer_wf (buffer w)"
  shows "new_line w = Some (w\<lparr>column_position := 0,
    buffer := tl (buffer w) @ [replicate BUFFER_WIDTH \<lparr>ascii_character = 32, cell_color = color_code w\<rparr>]\<rparr>)"
proof -
  let ?b = "tl (buffer w) @ drop (BUFFER_HEIGHT - 1) (buffer w)"
  have len: "length (buffer w) = BUFFER_HEIGHT"
    using assms by (simp add: buffer_wf_def)
  have scroll: "fold_option (\<lambda>row. fold_option (copy_cell row) [0..<BUFFER_WIDTH]) [1..<BUFFER_HEIGHT] (buffer w)
      = Some ?b"
    using scroll_prefix [OF assms, of "BUFFER_HEIGHT - 1"] len by (simp add: BUFFER_HEIGHT_def del: upt_Suc)
  have wf: "buffer_wf ?b"
    using assms len by (auto simp: buffer_wf_def BUFFER_HEIGHT_def dest: in_set_dropD list.set_sel(2) [rotated])
  obtain x where "drop (BUFFER_HEIGHT - 1) (buffer w) = [x]"
    using len by (auto simp: length_Suc_conv BUFFER_HEIGHT_def dest: arg_cong [of _ _ "drop 24"]
        intro: that [of "buffer w ! 24"] simp flip: Cons_nth_drop_Suc)
  then have "?b[BUFFER_HEIGHT - 1 := r] = tl (buffer w) @ [r]" for r
    using len by (simp add: list_update_append BUFFER_HEIGHT_def)
  with clear_row_eq [of "w\<lparr>buffer := ?b\<rparr>" "BUFFER_HEIGHT - 1"] wf scroll show ?thesis
    by (simp add: new_line_def BUFFER_HEIGHT_def)
qed

section \<open>The screen shows the log\<close>

lemma length_log_view [simp]: "length (log_view ls) = BUFFER_HEIGHT"
  by (simp add: log_view_def)

lemma tl_rev: "tl (rev xs) = rev (butlast xs)"
  by (cases xs rule: rev_cases) simp_all

lemma log_view_empty: "log_view [[]] = replicate BUFFER_HEIGHT (padded [])"
  unfolding log_view_def
  by (simp del: replicate_Suc add: replicate_Suc [symmetric])

lemma log_view_new_line: "tl (log_view ls) @ [padded []] = log_view ([] # ls)"
proof -
  let ?xs = "map padded ls @ replicate BUFFER_HEIGHT (padded [])"
  have "tl (rev (take BUFFER_HEIGHT ?xs)) = rev (butlast (take BUFFER_HEIGHT ?xs))"
    by (rule tl_rev)
  also have "butlast (take BUFFER_HEIGHT ?xs) = take (BUFFER_HEIGHT - 1) ?xs"
    by (rule butlast_take) simp
  finally show ?thesis
    by (simp add: log_view_def BUFFER_HEIGHT_def)
qed

lemma log_view_Cons: "log_view (l # ls) = rev (take (BUFFER_HEIGHT - 1) (map padded ls @ replicate BUFFER_HEIGHT (padded []))) @ [padded l]"
  by (simp add: log_view_def BUFFER_HEIGHT_def)

lemma log_view_extend:
  assumes "length l < BUFFER_WIDTH"
  shows "(log_view (l # ls))[BUFFER_HEIGHT - 1 := (log_view (l # ls) ! (BUFFER_HEIGHT - 1))[length l := b]]
    = log_view ((l @ [b]) # ls)"
proof -
  have pad: "(padded l)[length l := b] = padded (l @ [b])"
    using assms by (simp add: padded_def list_update_append Suc_diff_Suc [symmetric])
  define xs where "xs = rev (take (BUFFER_HEIGHT - 1) (map padded ls @ replicate BUFFER_HEIGHT (padded [])))"
  have "length xs = BUFFER_HEIGHT - 1"
    by (simp add: xs_def)
  moreover have "log_view (l # ls) = xs @ [padded l]" for l
    unfolding xs_def by (rule log_view_Cons)
  ultimately show ?thesis
    by (simp add: list_update_append nth_append pad)
qed

lemma new_line_shows:
  assumes "shows_log w ls"
  obtains w' where "new_line w = Some w'" "shows_log w' ([] # ls)" "color_code w' = color_code w"
proof -
  have wf: "buffer_wf (buffer w)" and scr: "screen_text w = log_view ls"
    using assms by (simp_all add: shows_log_def)
  let ?b = "tl (buffer w) @ [replicate BUFFER_WIDTH \<lparr>ascii_character = 32, cell_color = color_code w\<rparr>]"
  have "map (map ascii_character) ?b = tl (screen_text w) @ [padded []]"
    by (simp add: screen_text_def map_tl padded_def)
  then have "map (map ascii_character) ?b = log_view ([] # ls)"
    by (simp add: scr log_view_new_line)
  moreover have "buffer_wf ?b"
    using wf by (auto simp: buffer_wf_def BUFFER_HEIGHT_def dest: list.set_sel(2) [rotated])
  ultimately have "shows_log (w\<lparr>column_position := 0, buffer := ?b\<rparr>) ([] # ls)"
    using assms by (simp add: shows_log_def screen_text_def)
  then show thesis
    by (rule that [OF new_line_eq [OF wf]]) simp
qed

lemma put_byte_shows:
  assumes "shows_log w (l # ls)" "length l < BUFFER_WIDTH"
  shows "\<exists>w'. map_option (\<lambda>b. w\<lparr>buffer := b, column_position := column_position w + 1\<rparr>)
      (write_cell (BUFFER_HEIGHT - 1) (column_position w) \<lparr>ascii_character = byte, cell_color = c\<rparr> (buffer w)) = Some w'
    \<and> shows_log w' ((l @ [byte]) # ls) \<and> color_code w' = color_code w"
proof -
  let ?r = "BUFFER_HEIGHT - 1" and ?cell = "\<lparr>ascii_character = byte, cell_color = c\<rparr>"
  let ?b = "(buffer w)[?r := (buffer w ! ?r)[length l := ?cell]]"
  have wf: "buffer_wf (buffer w)" and scr: "screen_text w = log_view (l # ls)" and col: "column_position w = length l"
    using assms(1) by (simp_all add: shows_log_def)
  have r: "?r < length (buffer w)" "length (buffer w ! ?r) = BUFFER_WIDTH"
    using wf by (simp_all add: buffer_wf_def BUFFER_HEIGHT_def)
  have "map (map ascii_character) ?b = (screen_text w)[?r := (screen_text w ! ?r)[length l := byte]]"
    using r(1) by (simp add: screen_text_def map_update)
  then have "map (map ascii_character) ?b = log_view ((l @ [byte]) # ls)"
    unfolding scr log_view_extend [OF assms(2)] .
  moreover have "buffer_wf ?b"
    using wf r by (intro buffer_wf_update) simp_all
  ultimately show ?thesis
    using assms r col by (auto simp: write_cell_def shows_log_def screen_text_def)
qed

lemma write_byte_shows:
  assumes "shows_log w ls"
  shows "\<exists>w'. write_byte byte w = Some w' \<and> shows_log w' (log_byte byte ls) \<and> color_code w' = color_code w"
proof -
  obtain l ls' where ls: "ls = l # ls'" and col: "column_position w = length l" "length l \<le> BUFFER_WIDTH"
    using assms by (cases ls) (auto simp: shows_log_def)
  obtain w1 where w1: "new_line w = Some w1" "shows_log w1 ([] # ls)" "color_code w1 = color_code w"
    using new_line_shows [OF assms] by metis
  consider "byte = 10" | "byte \<noteq> 10" "BUFFER_WIDTH \<le> length l" | "byte \<noteq> 10" "length l < BUFFER_WIDTH"
    by linarith
  then show ?thesis
  proof cases
    case 1
    then show ?thesis
      using w1 ls by (simp add: write_byte_def)
  next
    case 2
    then show ?thesis
      using put_byte_shows [OF w1(2), of byte "color_code w1"] w1 ls col
      by (simp add: write_byte_def Let_def BUFFER_WIDTH_def)
  next
    case 3
    then show ?thesis
      using put_byte_shows [OF assms [unfolded ls], of byte "color_code w"] ls col
      by (simp add: write_byte_def Let_def)
  qed
qed

lemma write_str_shows:
  "shows_log w ls \<Longrightarrow>
     \<exists>w'. write_str s w = Some w' \<and> shows_log w' (log_text s ls) \<and> color_code w' = color_code w"
proof (induction s arbitrary: w ls)
  case Nil
  then show ?case
    by (simp add: write_str_def log_text_def)
next
  case (Cons b s)
  from write_byte_shows [OF Cons.prems, of "shown_byte b"] obtain w1 where
    w1: "write_byte (shown_byte b) w = Some w1" "shows_log w1 (log_byte (shown_byte b) ls)"
      "color_code w1 = color_code w"
    by auto
  from Cons.IH [OF w1(2)] w1 show ?case
    by (simp add: write_str_def log_text_def)
qed

lemma clear_rows_eq:
  assumes "buffer_wf (buffer w)" "n \<le> BUFFER_HEIGHT"
  shows "fold_option clear_row [0..<n] w = Some (w\<lparr>buffer :=
    replicate n (replicate BUFFER_WIDTH \<lparr>ascii_character = 32, cell_color = color_code w\<rparr>) @ drop n (buffer w)\<rparr>)"
  using assms(2)
proof (induction n)
  case 0
  then show ?case
    by simp
next
  case (Suc n)
  let ?r = "replicate BUFFER_WIDTH \<lparr>ascii_character = 32, cell_color = color_code w\<rparr>"
  let ?w = "w\<lparr>buffer := replicate n ?r @ drop n (buffer w)\<rparr>"
  have "buffer_wf (buffer ?w)"
    using assms(1) Suc.prems by (auto simp: buffer_wf_def dest: in_set_dropD)
  moreover have "(replicate n ?r @ drop n (buffer w))[n := ?r] = replicate (Suc n) ?r @ drop (Suc n) (buffer w)"
    using assms(1) Suc.prems
    by (simp add: list_update_append buffer_wf_def Cons_nth_drop_Suc [symmetric] replicate_append_same)
  ultimately show ?case
    using Suc clear_row_eq [of ?w n] by (simp add: fold_option_append)
qed

lemma clear_screen_shows:
  assumes "buffer_wf (buffer w)"
  shows "\<exists>w'. clear_screen w = Some w' \<and> shows_log w' [[]] \<and> color_code w' = color_code w"
proof -
  have "length (buffer w) = BUFFER_HEIGHT"
    using assms by (simp add: buffer_wf_def)
  then show ?thesis
    using clear_rows_eq [OF assms, of BUFFER_HEIGHT]
    by (auto simp: clear_screen_def shows_log_def buffer_wf_def screen_text_def log_view_empty padded_def
        map_replicate_const)
qed

section \<open>Properties\<close>

text \<open>A cleared screen.\<close>

definition cleared_writer :: Writer where
  "cleared_writer = Writer_new (replicate BUFFER_HEIGHT (replicate BUFFER_WIDTH \<lparr>ascii_character = 32, cell_color = 15\<rparr>))"

lemma cleared_writer_shows: "shows_log cleared_writer [[]]"
  by (simp add: cleared_writer_def Writer_new_def shows_log_def buffer_wf_def screen_text_def log_view_empty
      padded_def map_replicate_const)

text \<open>C35: Printing never accesses a cell outside the text buffer, and the screen always shows the last 25
  lines of everything printed since it was cleared, wrapped at 80 columns, with every byte that is
  neither printable ASCII nor a newline shown as a placeholder.\<close>

theorem vga_shows_log:
  assumes "buffer_wf (buffer w)"
  shows "\<exists>w1 w2. clear_screen w = Some w1 \<and> write_str s w1 = Some w2
    \<and> screen_text w2 = log_view (log_text s [[]]) \<and> buffer_wf (buffer w2) \<and> column_position w2 \<le> BUFFER_WIDTH"
proof -
  obtain w1 where w1: "clear_screen w = Some w1" "shows_log w1 [[]]"
    using clear_screen_shows [OF assms] by blast
  obtain w2 where "write_str s w1 = Some w2" "shows_log w2 (log_text s [[]])"
    using write_str_shows [OF w1(2)] by blast
  moreover from this have "column_position w2 \<le> BUFFER_WIDTH"
    unfolding shows_log_def by (metis list.set_sel(1))
  ultimately show ?thesis
    using w1(1) by (simp add: shows_log_def)
qed

theorem vga_shows_log_witness:
  "\<exists>w1 w2. clear_screen cleared_writer = Some w1 \<and> write_str [104, 105, 10, 9] w1 = Some w2
    \<and> screen_text w2 ! 23 = padded [104, 105] \<and> screen_text w2 ! 24 = padded [254]"
proof -
  have v: "log_view (log_text [104, 105, 10, 9] [[]]) = replicate 23 (padded []) @ [padded [104, 105], padded [254]]"
    by (simp add: log_text_def shown_byte_def log_view_def BUFFER_WIDTH_def BUFFER_HEIGHT_def)
  have "buffer_wf (buffer cleared_writer)"
    using cleared_writer_shows by (simp add: shows_log_def)
  from vga_shows_log [OF this, of "[104, 105, 10, 9]"] show ?thesis
    unfolding v by (auto simp: nth_append)
qed

end
