(* ===== verification/Text.thy ===== *)
theory Text
  imports Prelude
begin

text \<open>
  The functions of Rust's standard library on strings that the terminal and the resolver use:
  \<open>trim\<close>, \<open>split_whitespace\<close>, \<open>to_lowercase\<close>, \<open>join\<close>, \<open>String::insert\<close> and \<open>String::remove\<close>,
  and the decimal \<open>parse\<close> and \<open>Display\<close> of the unsigned integers. Strings are bytes; white space
  and letter case are those of ASCII, which is what the line editor lets in.
\<close>

section \<open>White space\<close>

definition is_whitespace :: "char \<Rightarrow> bool" where
  "is_whitespace c \<longleftrightarrow> c = CHR '' '' \<or> (9 \<le> (of_char c :: nat) \<and> (of_char c :: nat) \<le> 13)"

definition trim :: "str \<Rightarrow> str" where
  "trim s = rev (dropWhile is_whitespace (rev (dropWhile is_whitespace s)))"

text \<open>The pieces between white space, the empty ones left out.\<close>

fun split_words :: "str \<Rightarrow> str \<Rightarrow> str list" where
  "split_words acc [] = (if acc = [] then [] else [rev acc])"
| "split_words acc (c # s) =
     (if is_whitespace c then (if acc = [] then split_words [] s else rev acc # split_words [] s)
      else split_words (c # acc) s)"

definition split_whitespace :: "str \<Rightarrow> str list" where
  "split_whitespace s = split_words [] s"

fun join :: "str \<Rightarrow> str list \<Rightarrow> str" where
  "join sep [] = []"
| "join sep [s] = s"
| "join sep (s # t # ss) = s @ sep @ join sep (t # ss)"

definition to_lower :: "char \<Rightarrow> char" where
  "to_lower c = (if 65 \<le> (of_char c :: nat) \<and> (of_char c :: nat) \<le> 90 then char_of (of_char c + 32 :: nat) else c)"

definition to_lowercase :: "str \<Rightarrow> str" where
  "to_lowercase s = map to_lower s"

section \<open>Editing\<close>

definition is_char_boundary :: "str \<Rightarrow> nat \<Rightarrow> bool" where
  "is_char_boundary s i \<longleftrightarrow>
     i = length s \<or> (i < length s \<and> \<not> is_cont (byte_of_char (s ! i)))"

definition char_width :: "char \<Rightarrow> nat" where
  "char_width c = (if byte_of_char c < 128 then 1 else if byte_of_char c < 224 then 2
     else if byte_of_char c < 240 then 3 else 4)"

text \<open>Both panic (\<open>None\<close>) when the index is no boundary of a character of the string.\<close>

definition string_insert :: "nat \<Rightarrow> char \<Rightarrow> str \<Rightarrow> str option" where
  "string_insert i c s = (if is_char_boundary s i then Some (take i s @ c # drop i s) else None)"

definition string_remove :: "nat \<Rightarrow> str \<Rightarrow> str option" where
  "string_remove i s =
     (if i < length s \<and> is_char_boundary s i then Some (take i s @ drop (i + char_width (s ! i)) s) else None)"

definition ascii :: "str \<Rightarrow> bool" where
  "ascii s \<longleftrightarrow> list_all (\<lambda>c. (of_char c :: nat) < 128) s"

section \<open>Decimal numbers\<close>

definition digit_value :: "char \<Rightarrow> nat option" where
  "digit_value c = (if 48 \<le> (of_char c :: nat) \<and> (of_char c :: nat) \<le> 57 then Some (of_char c - 48) else None)"

fun parse_digits :: "nat \<Rightarrow> nat \<Rightarrow> str \<Rightarrow> nat option" where
  "parse_digits bound acc [] = Some acc"
| "parse_digits bound acc (c # s) =
     (case digit_value c of
        None \<Rightarrow> None
      | Some d \<Rightarrow> if 10 * acc + d < bound then parse_digits bound (10 * acc + d) s else None)"

text \<open>\<open>str::parse\<close> for an unsigned type with \<open>bound\<close> values: an optional plus sign, then at least one
  digit, and an error on overflow.\<close>

definition parse_unsigned :: "nat \<Rightarrow> str \<Rightarrow> nat option" where
  "parse_unsigned bound s =
     (case s of
        [] \<Rightarrow> None
      | c # cs \<Rightarrow> if c = CHR ''+'' then (if cs = [] then None else parse_digits bound 0 cs)
                 else parse_digits bound 0 s)"

definition parse_u8 :: "str \<Rightarrow> u8 option" where
  "parse_u8 s = map_option of_nat (parse_unsigned 256 s)"

definition parse_u16 :: "str \<Rightarrow> u16 option" where
  "parse_u16 s = map_option of_nat (parse_unsigned 65536 s)"

definition digit_char :: "nat \<Rightarrow> char" where
  "digit_char d = char_of (48 + d)"

fun show_nat :: "nat \<Rightarrow> str" where
  "show_nat n = (if n < 10 then [digit_char n] else show_nat (n div 10) @ [digit_char (n mod 10)])"

declare show_nat.simps [simp del]

section \<open>Lemmas\<close>

lemma of_char_digit_char: "d < 10 \<Longrightarrow> of_char (digit_char d) = 48 + d"
  by (simp add: digit_char_def)

lemma digit_value_digit_char [simp]: "d < 10 \<Longrightarrow> digit_value (digit_char d) = Some d"
  by (simp add: digit_value_def of_char_digit_char)

lemma parse_digits_append:
  "parse_digits bound acc (s @ t) = Option.bind (parse_digits bound acc s) (\<lambda>a. parse_digits bound a t)"
  by (induction s arbitrary: acc) (auto split: option.splits)

lemma parse_show_digits: "n < bound \<Longrightarrow> parse_digits bound 0 (show_nat n) = Some n"
proof (induction n rule: show_nat.induct)
  case (1 n)
  show ?case
  proof (cases "n < 10")
    case True
    with 1 show ?thesis
      by (simp add: show_nat.simps)
  next
    case False
    with 1 have "parse_digits bound 0 (show_nat (n div 10)) = Some (n div 10)"
      by simp
    with False 1(2) show ?thesis
      by (simp add: show_nat.simps [of n] parse_digits_append)
  qed
qed

lemma show_nat_digits: "c \<in> set (show_nat n) \<Longrightarrow> \<exists>d < 10. c = digit_char d"
proof (induction n rule: show_nat.induct)
  case (1 n)
  then show ?case
    by (subst (asm) (2) show_nat.simps) (auto split: if_splits intro: exI [of _ n] exI [of _ "n mod 10"])
qed

lemma show_nat_not_Nil [simp]: "show_nat n \<noteq> []"
  by (simp add: show_nat.simps)

lemma digit_char_neq:
  "d < 10 \<Longrightarrow> digit_char d \<noteq> CHR ''+''" "d < 10 \<Longrightarrow> digit_char d \<noteq> CHR ''.''"
  using of_char_digit_char [of d] by (auto dest: arg_cong [of _ _ "of_char :: char \<Rightarrow> nat"])

lemma parse_show: "n < bound \<Longrightarrow> parse_unsigned bound (show_nat n) = Some n"
proof -
  assume n: "n < bound"
  obtain c cs where s: "show_nat n = c # cs"
    by (cases "show_nat n") auto
  then have "c \<noteq> CHR ''+''"
    using show_nat_digits [of c n] digit_char_neq(1) by auto
  with s parse_show_digits [OF n] show ?thesis
    by (simp add: parse_unsigned_def)
qed

lemma parse_show_u8: "parse_u8 (show_nat (unat b)) = Some b"
proof -
  have "unat b < 256"
    using unsigned_less [of b] by simp
  then show ?thesis
    by (simp add: parse_u8_def parse_show)
qed

lemma ascii_boundary:
  assumes "ascii s" "i \<le> length s"
  shows "is_char_boundary s i"
proof (cases "i = length s")
  case False
  with assms have "(of_char (s ! i) :: nat) < 128"
    by (simp add: ascii_def list_all_length)
  then have "byte_of_char (s ! i) < 128"
    by (simp add: byte_of_char_def word_less_nat_alt unat_of_nat)
  then have "\<not> is_cont (byte_of_char (s ! i))"
    by (auto simp: is_cont_def dest: leD)
  with False assms(2) show ?thesis
    by (simp add: is_char_boundary_def)
qed (simp add: is_char_boundary_def)

lemma ascii_width:
  assumes "ascii s" "i < length s"
  shows "char_width (s ! i) = 1"
proof -
  have "(of_char (s ! i) :: nat) < 128"
    using assms by (simp add: ascii_def list_all_length)
  then have "byte_of_char (s ! i) < 128"
    by (simp add: byte_of_char_def word_less_nat_alt unat_of_nat)
  then show ?thesis
    by (simp add: char_width_def)
qed

lemma string_insert_ascii: "ascii s \<Longrightarrow> i \<le> length s \<Longrightarrow> string_insert i c s = Some (take i s @ c # drop i s)"
  by (simp add: string_insert_def ascii_boundary)

lemma string_remove_ascii: "ascii s \<Longrightarrow> i < length s \<Longrightarrow> string_remove i s = Some (take i s @ drop (Suc i) s)"
  by (simp add: string_remove_def ascii_boundary ascii_width)

lemma ascii_append [simp]: "ascii (s @ t) \<longleftrightarrow> ascii s \<and> ascii t"
  by (simp add: ascii_def)

lemma ascii_Nil [simp]: "ascii []"
  by (simp add: ascii_def)

lemma ascii_Cons [simp]: "ascii (c # s) \<longleftrightarrow> (of_char c :: nat) < 128 \<and> ascii s"
  by (simp add: ascii_def)

lemma ascii_take: "ascii s \<Longrightarrow> ascii (take i s)"
  by (auto simp: ascii_def list_all_iff dest: in_set_takeD)

lemma ascii_drop: "ascii s \<Longrightarrow> ascii (drop i s)"
  by (auto simp: ascii_def list_all_iff dest: in_set_dropD)

end
