(* ===== verification/Console.thy ===== *)
theory Console
  imports Vga Text
begin

text \<open>
  What a part of the kernel prints, as a list of calls of the VGA console (\<open>vga::set_color\<close>, \<open>print!\<close>,
  \<open>println!\<close> and \<open>clear_screen\<close>) and of the serial port (\<open>serial_println!\<close>), and the boot log (\<open>boot/mod.rs\<close>, \<open>boot/banner.rs\<close>) in this form.
\<close>

section \<open>Calls of the console\<close>

datatype console_op = SetColor Color Color | Print str | Println str | ClearScreen | SerialPrintln str

primrec console_step :: "console_op \<Rightarrow> Writer \<Rightarrow> Writer option" where
  "console_step (SetColor fg bg) w = Some (Writer_set_color fg bg w)"
| "console_step (Print s) w = print_text s w"
| "console_step (Println s) w = println_text s w"
| "console_step ClearScreen w = clear_screen w"
| "console_step (SerialPrintln s) w = Some w"

definition run_console :: "console_op list \<Rightarrow> Writer \<Rightarrow> Writer option" where
  "run_console ops w = fold_option console_step ops w"

text \<open>What the console shows after the calls.\<close>

primrec console_log :: "console_op \<Rightarrow> u8 list list \<Rightarrow> u8 list list" where
  "console_log (SetColor fg bg) ls = ls"
| "console_log (Print s) ls = log_text (map byte_of_char s) ls"
| "console_log (Println s) ls = log_text (map byte_of_char s @ [10]) ls"
| "console_log ClearScreen ls = [[]]"
| "console_log (SerialPrintln s) ls = ls"

lemma console_step_shows:
  assumes "shows_log w ls"
  shows "\<exists>w'. console_step op w = Some w' \<and> shows_log w' (console_log op ls)"
proof (cases op)
  case (SetColor fg bg)
  with assms show ?thesis
    by (simp add: Writer_set_color_def shows_log_def screen_text_def)
next
  case (Print s)
  with write_str_shows [OF assms, of "map byte_of_char s"] show ?thesis
    by (auto simp: print_text_def)
next
  case (Println s)
  with write_str_shows [OF assms, of "map byte_of_char s @ [10]"] show ?thesis
    by (auto simp: println_text_def)
next
  case ClearScreen
  from assms have "buffer_wf (buffer w)"
    by (simp add: shows_log_def)
  with ClearScreen clear_screen_shows [of w] show ?thesis
    by auto
next
  case (SerialPrintln s)
  with assms show ?thesis
    by simp
qed

lemma run_console_shows:
  "shows_log w ls \<Longrightarrow> \<exists>w'. run_console ops w = Some w' \<and> shows_log w' (fold console_log ops ls)"
proof (induction ops arbitrary: w ls)
  case Nil
  then show ?case
    by (simp add: run_console_def)
next
  case (Cons op ops)
  obtain w1 where "console_step op w = Some w1" "shows_log w1 (console_log op ls)"
    using console_step_shows [OF Cons.prems] by blast
  with Cons.IH [of w1] show ?case
    by (auto simp: run_console_def)
qed

section \<open>The boot log\<close>

datatype Status = StatusOk | StatusFail | StatusWarn | StatusInfo

definition print_status :: "Status \<Rightarrow> console_op list" where
  "print_status status =
     (let (text, color) = (case status of
            StatusOk \<Rightarrow> (''[ OK ]'', LightGreen)
          | StatusFail \<Rightarrow> (''[FAIL]'', LightRed)
          | StatusWarn \<Rightarrow> (''[WARN]'', Yellow)
          | StatusInfo \<Rightarrow> (''[INFO]'', LightCyan))
      in [SetColor color Black, Print text, SetColor White Black])"

definition boot_log :: "Status \<Rightarrow> str \<Rightarrow> console_op list" where
  "boot_log status message = print_status status @ [Println ('' '' @ message)]"

definition log_detail :: "str \<Rightarrow> console_op list" where
  "log_detail message = [Println (''       '' @ message)]"

text \<open>The header is framed by two characters U+2500 on each side, three bytes each.\<close>

definition box_line :: str where
  "box_line = [CHR 0xE2, CHR 0x94, CHR 0x80]"

definition log_section :: "str \<Rightarrow> console_op list" where
  "log_section name =
     [Println [], SetColor LightCyan Black,
      Println (box_line @ box_line @ '' '' @ name @ '' '' @ box_line @ box_line), SetColor White Black]"

definition print_banner :: "console_op list" where
  "print_banner =
     [SetColor Cyan Black,
      Println ''  ____                 _              ___  ____  '',
      Println ('' / ___|  _____   _____| |_ __ ___   / _ '' @ [CHR 0x5C] @ ''/ ___| ''),
      Println ('' '' @ [CHR 0x5C] @ ''___ '' @ [CHR 0x5C] @ '' / _ '' @ [CHR 0x5C] @ '' '' @ [CHR 0x5C] @ '' / / _ '' @ [CHR 0x5C]
        @ '' | '' @ [CHR 0x27] @ ''_ '' @ [CHR 0x60] @ '' _ '' @ [CHR 0x5C] @ '' | | | '' @ [CHR 0x5C] @ ''___ '' @ [CHR 0x5C] @ '' ''),
      Println (''  ___) | (_) '' @ [CHR 0x5C] @ '' V /  __/ | | | | | || |_| |___) |''),
      Println ('' |____/ '' @ [CHR 0x5C] @ ''___/ '' @ [CHR 0x5C] @ ''_/ '' @ [CHR 0x5C] @ ''___|_|_| |_| |_| '' @ [CHR 0x5C] @ ''___/|____/ ''),
      Println [], SetColor White Black, Println '' SovelmaOS v0.1.0'', Println []]"

text \<open>What the panic handler prints before it halts.\<close>

definition panic_screen :: "str \<Rightarrow> console_op list" where
  "panic_screen info =
     [SerialPrintln (''KERNEL PANIC: '' @ info), SetColor LightRed Black, Println ([CHR 0x0A] @ ''!!! KERNEL PANIC !!!''), SetColor White Black, Println info]"

end
