(* ===== verification/Wasm_Command.thy ===== *)
theory Wasm_Command
  imports Wasm_Runtime_Spec Console
begin

text \<open>
  The shell command that runs a WebAssembly module from the root filesystem (\<open>cmd_wasm_test\<close> in
  \<open>terminal/commands.rs\<close>): it composes the filesystem, the runtime and the host functions. What it prints is
  a list of calls of the console; the lines that host functions print come from the console of the kernel's
  state. \<open>None\<close> is a panic (the buffer does not fit the heap).
\<close>

primrec debug_FsError :: "FsError \<Rightarrow> str" where
  "debug_FsError NotFound = ''NotFound''"
| "debug_FsError PermissionDenied = ''PermissionDenied''"
| "debug_FsError InvalidHandle = ''InvalidHandle''"

definition take_console :: "('q, 'w) Kernel \<Rightarrow> console_op list \<times> ('q, 'w) Kernel" where
  "take_console k = (map Println (console k), k\<lparr>console := []\<rparr>)"

text \<open>From the point where the file has been read: spawn the process, call \<open>_start\<close>.\<close>

definition run_module ::
    "('s, 'inst, 'fn, 'v, 'mod, 'err, ('q, 'w) Kernel) wasmi_ops \<Rightarrow> u8 list \<Rightarrow> ('q, 'w) Kernel
     \<Rightarrow> console_op list \<times> ('q, 'w) Kernel" where
  "run_module M buf k =
     (let (spawned, k) = spawn_process_with_caps M buf [] k;
          (out, k) = take_console k;
          (out', k) =
            (case spawned of
               Inr process \<Rightarrow>
                 let (result, process, k) = WasmProcess_call M ''_start'' [] process k;
                     (out, k) = take_console k
                 in ([SetColor LightGreen Black, Println ''WASM process spawned successfully!'', SetColor White Black,
                      Println ''Executing _start...''] @ out
                     @ (case result of
                          Inr _ \<Rightarrow> [SetColor LightGreen Black, Println ''_start completed successfully!'']
                        | Inl e \<Rightarrow> [SetColor LightRed Black, Println (''Execution failed: '' @ wm_debug M e)]), k)
             | Inl e \<Rightarrow> ([SetColor LightRed Black, Println (''WASM test failed: '' @ wm_debug M e)], k))
      in (out @ out' @ [SetColor White Black, Println []], k))"

definition cmd_wasm_test ::
    "('s, 'inst, 'fn, 'v, 'mod, 'err, ('q, 'w) Kernel) wasmi_ops \<Rightarrow> ('q, 'w, 'm) host_env \<Rightarrow> str
     \<Rightarrow> ('q, 'w) Kernel \<Rightarrow> (console_op list \<times> ('q, 'w) Kernel) option" where
  "cmd_wasm_test M E filename k =
     (let out = [Println [], SetColor Cyan Black,
                 Println (''WASM Runtime Test executing '' @ [CHR 0x27] @ filename @ [CHR 0x27]),
                 Println ''-----------------'', SetColor White Black];
          failed = (\<lambda>msg. [SetColor LightRed Black, Println msg, SetColor White Black]) in
      case RamFs_open (root_fs k) filename of
        Inl e \<Rightarrow> Some (out @ failed (''Failed to open file: '' @ debug_FsError e), k)
      | Inr (handle, fs) \<Rightarrow>
          let k = k\<lparr>root_fs := fs\<rparr>;
              size = (case RamFs_size fs handle of Inr n \<Rightarrow> n | Inl _ \<Rightarrow> 0)
          in (case vec_zeroed E size of
                None \<Rightarrow> None
              | Some zeros \<Rightarrow>
                  (case RamFs_read fs handle zeros 0 of
                     Inl e \<Rightarrow> Some (out @ failed (''Failed to read file: '' @ debug_FsError e), k)
                   | Inr (n, buf) \<Rightarrow>
                       let (out', k) = run_module M buf (k\<lparr>root_fs := RamFs_close fs handle\<rparr>)
                       in Some (out @ out', k))))"

text \<open>The module that the kernel stores at boot (\<open>main.rs\<close>): the header of a binary module, and nothing else.\<close>

definition WASM_MAGIC :: "u8 list" where
  "WASM_MAGIC = [0x00, 0x61, 0x73, 0x6D, 0x01, 0x00, 0x00, 0x00]"

section \<open>The empty module\<close>

text \<open>What a WebAssembly engine does with a module that has no sections: instantiating it executes no code, so
  that the kernel stays as it is, and the instance exports no function.\<close>

locale empty_module =
  fixes M :: "('s, 'inst, 'fn, 'v, 'mod, 'err, ('q, 'w) Kernel) wasmi_ops"
  assumes no_start: "wm_module_new M WASM_MAGIC = Inr md \<Longrightarrow> wm_instantiate M md s k = (r, s', k') \<Longrightarrow> k' = k"
    and no_exports: "wm_module_new M WASM_MAGIC = Inr md \<Longrightarrow> wm_instantiate M md s k = (Inr inst, s', k') \<Longrightarrow>
      wm_get_func M inst s'' name = None"
begin

lemma spawn_empty:
  assumes "spawn_process_with_caps M WASM_MAGIC cs k = (r, k')"
  shows "k'\<lparr>console := []\<rparr> = k\<lparr>console := []\<rparr>"
    and "r = Inr p \<Longrightarrow> wm_get_func M (wp_instance p) (wp_store p) name = None"
  using assms
  by (auto simp: spawn_process_with_caps_def grant_fuel_def println_def Let_def dest: no_start no_exports
      split: sum.splits prod.splits option.splits)

text \<open>Running it changes nothing of the kernel but the console.\<close>

lemma run_empty: "snd (run_module M WASM_MAGIC k) = k\<lparr>console := []\<rparr>"
proof -
  obtain r k1 where spawn: "spawn_process_with_caps M WASM_MAGIC [] k = (r, k1)"
    by (cases "spawn_process_with_caps M WASM_MAGIC [] k")
  show ?thesis
    using spawn_empty [OF spawn] spawn
    by (cases r) (auto simp: run_module_def take_console_def WasmProcess_call_def)
qed

end

text \<open>The engine that runs scripts, with the functions of a module given by its bytes.\<close>

definition file_ops ::
    "('q, 'w, 'm) host_env \<Rightarrow> 'm \<Rightarrow> (u8 list \<Rightarrow> str \<rightharpoonup> host_call list)
     \<Rightarrow> ('m Caller, u8 list, host_call list, nat \<times> host_call list, u8 list, str, ('q, 'w) Kernel) wasmi_ops" where
  "file_ops E mem funcs = \<lparr>
     wm_module_new = (\<lambda>bytes. if take 8 bytes = WASM_MAGIC then Inr bytes else Inl ''magic header not detected''),
     wm_store_new = wm_store_new (script_ops E mem (\<lambda>_. None)),
     wm_instantiate = (\<lambda>md c k. (Inr md, c, k)),
     wm_add_fuel = wm_add_fuel (script_ops E mem (\<lambda>_. None)),
     wm_data = wm_data (script_ops E mem (\<lambda>_. None)),
     wm_set_data = wm_set_data (script_ops E mem (\<lambda>_. None)),
     wm_get_func = (\<lambda>i c name. if i = WASM_MAGIC then None else funcs i name),
     wm_call = wm_call (script_ops E mem (\<lambda>_. None)),
     wm_call_resumable = wm_call_resumable (script_ops E mem (\<lambda>_. None)),
     wm_resume = wm_resume (script_ops E mem (\<lambda>_. None)),
     wm_unreachable = wm_unreachable (script_ops E mem (\<lambda>_. None)),
     wm_debug = wm_debug (script_ops E mem (\<lambda>_. None))\<rparr>"

interpretation fo: empty_module "file_ops E mem funcs"
  by unfold_locales (auto simp: file_ops_def split: if_splits)

section \<open>The files of the kernel\<close>

text \<open>Every file is the empty module. No command writes a file, so this holds from boot on.\<close>

definition boot_files :: "RamFs \<Rightarrow> bool" where
  "boot_files fs \<longleftrightarrow> fs_wf fs \<and> (\<forall>c. NFile c \<in> set (arena fs) \<longrightarrow> c = WASM_MAGIC)"

lemma boot_files_add: "boot_files (RamFs_add_file RamFs_new ''hello.wasm'' WASM_MAGIC)"
proof -
  have "arena (RamFs_add_file RamFs_new ''hello.wasm'' WASM_MAGIC) = [NDirectory [(''hello.wasm'', 1)], NFile WASM_MAGIC]"
    by code_simp
  then show ?thesis
    using fs_wf_add_file [OF fs_wf_RamFs_new] by (simp add: boot_files_def)
qed

text \<open>On such a filesystem the command does not panic, whatever file it is given.\<close>

lemma cmd_wasm_test_ok:
  assumes "empty_module M" "boot_files (root_fs k)" "heap_fits E 0" "heap_fits E 8"
  shows "\<exists>out k'. cmd_wasm_test M E filename k = Some (out, k') \<and> boot_files (root_fs k')"
proof (cases "RamFs_open (root_fs k) filename")
  case (Inl e)
  with assms(2) show ?thesis
    by (simp add: cmd_wasm_test_def Let_def)
next
  case (Inr r)
  then obtain handle fs where opened: "RamFs_open (root_fs k) filename = Inr (handle, fs)"
    by (cases r) simp
  then obtain i where i: "resolve_path (root_fs k) filename = Inr i" "bt_get (open_handles fs) handle = Some i"
      "arena fs = arena (root_fs k)"
    by (auto simp: RamFs_open_def Let_def fetch_add_one_def split: sum.splits)
  have wf: "fs_wf (root_fs k)" "fs_wf fs" "i < length (arena fs)"
    using assms(2) opened i resolve_path_bound by (auto simp: boot_files_def intro: fs_wf_open)
  have files: "boot_files fs" "boot_files (RamFs_close fs handle)"
    using assms(2) wf(2) i(3) fs_wf_close [OF wf(2)] by (auto simp: boot_files_def RamFs_close_def)
  show ?thesis
  proof (cases "arena fs ! i")
    case (NDirectory m)
    with opened i(2) files(1) assms(3) show ?thesis
      by (simp add: cmd_wasm_test_def Let_def RamFs_size_def RamFs_read_def vec_zeroed_def isize_max_def)
  next
    case (NFile c)
    then have c: "c = WASM_MAGIC" "length WASM_MAGIC = 8"
      using files(1) wf(3) nth_mem [OF wf(3)] by (auto simp: boot_files_def WASM_MAGIC_def)
    have "\<exists>out k'. cmd_wasm_test M E filename k = Some (out, k')
        \<and> k' = snd (run_module M WASM_MAGIC (k\<lparr>root_fs := RamFs_close fs handle\<rparr>))"
      using opened i(2) NFile c assms(4)
      by (simp add: cmd_wasm_test_def Let_def RamFs_size_def RamFs_read_def vec_zeroed_def isize_max_def split: prod.split)
    then show ?thesis
      using files(2) empty_module.run_empty [OF assms(1)] by auto
  qed
qed

section \<open>Files and handles\<close>

text \<open>The path of a directory leaves its handle open: reading it fails and the command returns before
  \<open>close\<close>.\<close>

lemma wasm_test_leaks_handle:
  assumes "resolve_path (root_fs k) filename = Inr i" "arena (root_fs k) ! i = NDirectory m" "heap_fits E 0"
  shows "\<exists>out k' handle. cmd_wasm_test M E filename k = Some (out, k')
    \<and> RamFs_open (root_fs k) filename = Inr (handle, root_fs k')
    \<and> bt_get (open_handles (root_fs k')) handle = Some i"
  using assms
  by (simp add: cmd_wasm_test_def Let_def RamFs_open_def RamFs_size_def RamFs_read_def vec_zeroed_def isize_max_def
      fetch_add_one_def)

text \<open>The path of a file runs exactly its bytes, with the handle closed again.\<close>

lemma wasm_test_runs_file:
  assumes "resolve_path (root_fs k) filename = Inr i" "arena (root_fs k) ! i = NFile content"
    and "heap_fits E (length content)" "length content \<le> isize_max"
  shows "\<exists>out k'. cmd_wasm_test M E filename k = Some (out @ fst (run_module M content k'), snd (run_module M content k'))
    \<and> arena (root_fs k') = arena (root_fs k)
    \<and> bt_get (open_handles (root_fs k')) = (bt_get (open_handles (root_fs k)))(next_handle (root_fs k) := None)"
proof -
  have "take (length content) content @ drop (length content) (replicate (length content) 0) = content"
    by simp
  with assms show ?thesis
    by (auto simp: cmd_wasm_test_def Let_def RamFs_open_def RamFs_size_def RamFs_read_def vec_zeroed_def
        fetch_add_one_def RamFs_close_def split_def intro!: exI)
qed

end
