(* ===== verification/Commands.thy ===== *)
theory Commands
  imports Text Vga
begin

text \<open>
  The shell's commands and their parser (\<open>terminal/commands.rs\<close>). Parsing prints a usage message
  for wrong arguments, so it takes and returns the console; \<open>None\<close> is a panic of the console.
\<close>

datatype DhcpAction = Status | Renew | Release

datatype Command =
    Help
  | Clear
  | Ifconfig
  | Dhcp DhcpAction
  | Dns (dns_hostname: str)
  | Connect (connect_host: str) (connect_port: u16)
  | Echo (echo_text: str)
  | Ping (ping_host: str)
  | Sysinfo
  | WasmTest (wasm_file: str)
  | Unknown str

definition parse_dhcp_action :: "str list \<Rightarrow> DhcpAction" where
  "parse_dhcp_action args =
     (case map to_lowercase args of
        [] \<Rightarrow> Status
      | a # _ \<Rightarrow> if a = ''renew'' then Renew else if a = ''release'' then Release else Status)"

definition usage :: "str \<Rightarrow> Writer \<Rightarrow> (Command option \<times> Writer) option" where
  "usage s w = map_option (\<lambda>w. (None, w)) (println_text s w)"

definition Command_parse :: "str \<Rightarrow> str list \<Rightarrow> Writer \<Rightarrow> (Command option \<times> Writer) option" where
  "Command_parse cmd args w =
     (let c = to_lowercase cmd in
      if c = ''help'' \<or> c = ''?'' then Some (Some Help, w)
      else if c = ''clear'' \<or> c = ''cls'' then Some (Some Clear, w)
      else if c = ''ifconfig'' \<or> c = ''ip'' then Some (Some Ifconfig, w)
      else if c = ''dhcp'' then Some (Some (Dhcp (parse_dhcp_action args)), w)
      else if c = ''dns'' \<or> c = ''nslookup'' \<or> c = ''resolve'' then
        (case args of
           hostname # _ \<Rightarrow> Some (Some (Dns hostname), w)
         | [] \<Rightarrow> usage ''Usage: dns <hostname>'' w)
      else if c = ''connect'' \<or> c = ''nc'' then
        (case args of
           host # p # _ \<Rightarrow>
             (case parse_u16 p of
                Some port \<Rightarrow> Some (Some (Connect host port), w)
              | None \<Rightarrow> usage ''Invalid port number'' w)
         | _ \<Rightarrow> usage ''Usage: connect <host> <port>'' w)
      else if c = ''echo'' then Some (Some (Echo (join '' '' args)), w)
      else if c = ''ping'' then
        (case args of
           host # _ \<Rightarrow> Some (Some (Ping host), w)
         | [] \<Rightarrow> usage ''Usage: ping <host>'' w)
      else if c = ''sysinfo'' \<or> c = ''info'' then Some (Some Sysinfo, w)
      else if c = ''wasm-test'' \<or> c = ''wasm'' then
        Some (Some (WasmTest (case args of [] \<Rightarrow> ''hello.wasm'' | f # _ \<Rightarrow> f)), w)
      else if c = [] then Some (None, w)
      else Some (Some (Unknown cmd), w))"

text \<open>Parsing never panics, and prints at most one line.\<close>

lemma usage_shows:
  assumes "shows_log w ls"
  shows "\<exists>r w'. usage m w = Some (r, w') \<and> (\<exists>s. shows_log w' (log_text s ls))"
  using write_str_shows [OF assms, of "map byte_of_char m @ [10]"]
  by (auto simp: usage_def println_text_def)

lemma Command_parse_shows:
  assumes "shows_log w ls"
  shows "\<exists>r w' s. Command_parse cmd args w = Some (r, w') \<and> shows_log w' (log_text s ls)"
proof -
  have same: "\<exists>s. shows_log w (log_text s ls)"
    using assms by (intro exI [of _ "[]"]) (simp add: log_text_def)
  show ?thesis
    unfolding Command_parse_def Let_def
    by (auto simp: same usage_shows [OF assms] split: list.split option.split)
qed

end
