(* ===== verification/Shell.thy ===== *)
theory Shell
  imports Commands "HOL-Library.Monad_Syntax"
begin

text \<open>
  The terminal: line editing and history (\<open>terminal/shell.rs\<close>). Keys come decoded from the
  \<open>pc_keyboard\<close> crate: a code point or a raw key, of which the terminal looks at seven. Output goes to
  the VGA console. \<open>None\<close> is a panic: an index outside a string or vector, or of the console.
\<close>

section \<open>Definitions\<close>

definition MAX_LINE_LENGTH :: nat where "MAX_LINE_LENGTH = 256"
definition MAX_HISTORY :: nat where "MAX_HISTORY = 16"

datatype KeyCode = ArrowUp | ArrowDown | ArrowLeft | ArrowRight | Home | End | Delete | OtherKey nat

datatype DecodedKey = Unicode nat | RawKey KeyCode

record Terminal =
  input_buffer :: str
  cursor :: nat
  history :: "str list"
  history_index :: "nat option"
  saved_input :: str

definition Terminal_new :: Terminal where
  "Terminal_new = \<lparr>input_buffer = [], cursor = 0, history = [], history_index = None, saved_input = []\<rparr>"

definition CR :: char where "CR = char_of (13 :: nat)"
definition ESC :: char where "ESC = char_of (27 :: nat)"

definition prompt :: "Writer \<Rightarrow> Writer option" where
  "prompt w = do {
     w \<leftarrow> print_text ''sovelma'' (Writer_set_color LightGreen Black w);
     print_text ''> '' (Writer_set_color White Black w)
   }"

definition redraw_line :: "Terminal \<Rightarrow> Writer \<Rightarrow> Writer option" where
  "redraw_line t w = do {
     w \<leftarrow> print_text [CR] w;
     w \<leftarrow> print_text ''sovelma'' (Writer_set_color LightGreen Black w);
     w \<leftarrow> print_text (''> '' @ input_buffer t) (Writer_set_color White Black w);
     w \<leftarrow> print_text (''  '' @ [CR]) w;
     w \<leftarrow> print_text ''sovelma'' (Writer_set_color LightGreen Black w);
     print_text (''> '' @ input_buffer t) (Writer_set_color White Black w)
   }"

definition add_to_history :: "str \<Rightarrow> Terminal \<Rightarrow> Terminal" where
  "add_to_history cmd t =
     (if history t \<noteq> [] \<and> last (history t) = cmd then t
      else
        let h = (if length (history t) \<ge> MAX_HISTORY then tl (history t) else history t)
        in t\<lparr>history := h @ [cmd]\<rparr>)"

definition parse_command :: "Terminal \<Rightarrow> Writer \<Rightarrow> (Command option \<times> Writer) option" where
  "parse_command t w =
     (let input = trim (input_buffer t) in
      if input = [] then Some (None, w)
      else case split_whitespace input of
             [] \<Rightarrow> Some (None, w)
           | cmd # args \<Rightarrow> Command_parse cmd args w)"

definition handle_char :: "nat \<Rightarrow> Terminal \<Rightarrow> Writer \<Rightarrow> (Command option \<times> Terminal \<times> Writer) option" where
  "handle_char c t w =
     (if c = 10 \<or> c = 13 then do {
        w \<leftarrow> println_text [] w;
        (command, w) \<leftarrow> parse_command t w;
        let t = (if input_buffer t \<noteq> [] then add_to_history (input_buffer t) t else t);
        let t = t\<lparr>input_buffer := [], cursor := 0, history_index := None\<rparr>;
        (case command of
           Some _ \<Rightarrow> Some (command, t, w)
         | None \<Rightarrow> do { w \<leftarrow> prompt w; Some (None, t, w) })
      }
      else if c = 8 \<or> c = 127 then
        if cursor t > 0 then do {
          buf \<leftarrow> string_remove (cursor t - 1) (input_buffer t);
          let t = t\<lparr>input_buffer := buf, cursor := cursor t - 1\<rparr>;
          w \<leftarrow> redraw_line t w;
          Some (None, t, w)
        }
        else Some (None, t, w)
      else if c = 9 then Some (None, t, w)
      else if c < 128 \<and> 32 \<le> c then
        if length (input_buffer t) < MAX_LINE_LENGTH then do {
          buf \<leftarrow> string_insert (cursor t) (char_of c) (input_buffer t);
          let t = t\<lparr>input_buffer := buf, cursor := cursor t + 1\<rparr>;
          w \<leftarrow> (if cursor t = length (input_buffer t) then print_text [char_of c] w else redraw_line t w);
          Some (None, t, w)
        }
        else Some (None, t, w)
      else Some (None, t, w))"

definition index_get :: "'a list \<Rightarrow> nat \<Rightarrow> 'a option" where
  "index_get xs i = (if i < length xs then Some (xs ! i) else None)"

definition history_up :: "Terminal \<Rightarrow> Writer \<Rightarrow> (Terminal \<times> Writer) option" where
  "history_up t w =
     (let show_entry = (\<lambda>t i. do {
            entry \<leftarrow> index_get (history t) i;
            let t = t\<lparr>input_buffer := entry, cursor := length entry\<rparr>;
            w \<leftarrow> redraw_line t w;
            Some (t, w)
          })
      in if history t = [] then Some (t, w)
         else case history_index t of
                None \<Rightarrow>
                  let i = length (history t) - 1
                  in show_entry (t\<lparr>saved_input := input_buffer t, history_index := Some i\<rparr>) i
              | Some 0 \<Rightarrow> Some (t, w)
              | Some (Suc i) \<Rightarrow> show_entry (t\<lparr>history_index := Some i\<rparr>) i)"

definition history_down :: "Terminal \<Rightarrow> Writer \<Rightarrow> (Terminal \<times> Writer) option" where
  "history_down t w =
     (case history_index t of
        None \<Rightarrow> Some (t, w)
      | Some i \<Rightarrow>
          if i + 1 \<ge> length (history t) then do {
            let t = t\<lparr>history_index := None, input_buffer := saved_input t, cursor := length (saved_input t)\<rparr>;
            w \<leftarrow> redraw_line t w;
            Some (t, w)
          }
          else do {
            entry \<leftarrow> index_get (history t) (i + 1);
            let t = t\<lparr>history_index := Some (i + 1), input_buffer := entry, cursor := length entry\<rparr>;
            w \<leftarrow> redraw_line t w;
            Some (t, w)
          })"

fun handle_raw_key :: "KeyCode \<Rightarrow> Terminal \<Rightarrow> Writer \<Rightarrow> (Terminal \<times> Writer) option" where
  "handle_raw_key ArrowUp t w = history_up t w"
| "handle_raw_key ArrowDown t w = history_down t w"
| "handle_raw_key ArrowLeft t w =
     (if cursor t > 0 then do {
        w \<leftarrow> print_text (ESC # ''[D'') w;
        Some (t\<lparr>cursor := cursor t - 1\<rparr>, w)
      }
      else Some (t, w))"
| "handle_raw_key ArrowRight t w =
     (if cursor t < length (input_buffer t) then do {
        w \<leftarrow> print_text (ESC # ''[C'') w;
        Some (t\<lparr>cursor := cursor t + 1\<rparr>, w)
      }
      else Some (t, w))"
| "handle_raw_key Home t w = do {
     let t = t\<lparr>cursor := 0\<rparr>;
     w \<leftarrow> redraw_line t w;
     Some (t, w)
   }"
| "handle_raw_key End t w = do {
     let t = t\<lparr>cursor := length (input_buffer t)\<rparr>;
     w \<leftarrow> redraw_line t w;
     Some (t, w)
   }"
| "handle_raw_key Delete t w =
     (if cursor t < length (input_buffer t) then do {
        buf \<leftarrow> string_remove (cursor t) (input_buffer t);
        let t = t\<lparr>input_buffer := buf\<rparr>;
        w \<leftarrow> redraw_line t w;
        Some (t, w)
      }
      else Some (t, w))"
| "handle_raw_key (OtherKey _) t w = Some (t, w)"

fun handle_key :: "DecodedKey \<Rightarrow> Terminal \<Rightarrow> Writer \<Rightarrow> (Command option \<times> Terminal \<times> Writer) option" where
  "handle_key (Unicode c) t w = handle_char c t w"
| "handle_key (RawKey k) t w = map_option (\<lambda>(t, w). (None, t, w)) (handle_raw_key k t w)"

definition Terminal_clear :: "Writer \<Rightarrow> Writer option" where
  "Terminal_clear w = clear_screen w"

text \<open>The loop of the terminal task, for the keys that arrive one after another.\<close>

fun handle_keys :: "DecodedKey list \<Rightarrow> Terminal \<Rightarrow> Writer \<Rightarrow> (Command list \<times> Terminal \<times> Writer) option" where
  "handle_keys [] t w = Some ([], t, w)"
| "handle_keys (k # ks) t w = do {
     (command, t, w) \<leftarrow> handle_key k t w;
     w \<leftarrow> (case command of Some _ \<Rightarrow> prompt w | None \<Rightarrow> Some w);
     (commands, t, w) \<leftarrow> handle_keys ks t w;
     Some ((case command of Some c \<Rightarrow> c # commands | None \<Rightarrow> commands), t, w)
   }"

end
