(* ===== verification/Shell_Spec.thy ===== *)
theory Shell_Spec
  imports Shell
begin

text \<open>
  Properties of the terminal: no key makes it panic and its invariant holds after every key; its
  editing keys are those of a line editor with a cursor between two halves of the line; a line
  that is entered is parsed, remembered and found again in the history; and what redrawing the line
  really writes to the console.
\<close>

section \<open>Output\<close>

lemma log_text_append: "log_text (s @ t) ls = log_text t (log_text s ls)"
  by (simp add: log_text_def)

lemma set_color_shows: "shows_log w ls \<Longrightarrow> shows_log (Writer_set_color f b w) ls"
  by (simp add: shows_log_def Writer_set_color_def screen_text_def)

text \<open>\<open>emits f s\<close>: the output operation \<open>f\<close> does not panic and prints \<open>s\<close>.\<close>

definition emits :: "(Writer \<Rightarrow> Writer option) \<Rightarrow> str \<Rightarrow> bool" where
  "emits f s \<longleftrightarrow> (\<forall>w ls. shows_log w ls \<longrightarrow>
     (\<exists>w'. f w = Some w' \<and> shows_log w' (log_text (map byte_of_char s) ls)))"

lemma emitsE:
  assumes "emits f s" "shows_log w ls"
  obtains w' where "f w = Some w'" "shows_log w' (log_text (map byte_of_char s) ls)"
  using assms unfolding emits_def by blast

lemma emits_print: "emits (print_text s) s"
  using write_str_shows unfolding emits_def print_text_def by blast

lemma emits_color: "emits f s \<Longrightarrow> emits (\<lambda>w. f (Writer_set_color fg bg w)) s"
  using set_color_shows unfolding emits_def by blast

lemma emits_bind:
  assumes "emits f s" "emits g t"
  shows "emits (\<lambda>w. f w \<bind> g) (s @ t)"
  unfolding emits_def
proof (intro allI impI)
  fix w ls
  assume "shows_log w ls"
  with assms(1) obtain w1 where "f w = Some w1" "shows_log w1 (log_text (map byte_of_char s) ls)"
    by (rule emitsE)
  moreover from assms(2) this(2) obtain w2 where "g w1 = Some w2"
    "shows_log w2 (log_text (map byte_of_char t) (log_text (map byte_of_char s) ls))"
    by (rule emitsE)
  ultimately show "\<exists>w'. f w \<bind> g = Some w' \<and> shows_log w' (log_text (map byte_of_char (s @ t)) ls)"
    by (simp add: log_text_append)
qed

lemma emits_if: "emits f s \<Longrightarrow> emits g u \<Longrightarrow> emits (\<lambda>w. if P then f w else g w) (if P then s else u)"
  by (cases P) simp_all

lemma emits_prompt: "emits prompt ''sovelma> ''"
  using emits_bind [OF emits_color [OF emits_print [of "''sovelma''"], of LightGreen Black]
      emits_color [OF emits_print [of "''> ''"], of White Black]]
  unfolding prompt_def by simp

definition redraw_text :: "str \<Rightarrow> str" where
  "redraw_text b = CR # ''sovelma> '' @ b @ ''  '' @ CR # ''sovelma> '' @ b"

lemma emits_redraw: "emits (redraw_line t) (redraw_text (input_buffer t))"
proof -
  have "emits (redraw_line t)
      ([CR] @ ''sovelma'' @ (''> '' @ input_buffer t) @ (''  '' @ [CR]) @ ''sovelma'' @ (''> '' @ input_buffer t))"
    unfolding redraw_line_def
    by (intro emits_bind emits_print emits_color [OF emits_print])
  then show ?thesis
    by (simp add: redraw_text_def)
qed

section \<open>The invariant\<close>

definition printable :: "str \<Rightarrow> bool" where
  "printable s \<longleftrightarrow> list_all (\<lambda>c. 32 \<le> (of_char c :: nat) \<and> (of_char c :: nat) \<le> 126) s"

definition line_ok :: "str \<Rightarrow> bool" where
  "line_ok s \<longleftrightarrow> printable s \<and> length s \<le> MAX_LINE_LENGTH"

definition terminal_wf :: "Terminal \<Rightarrow> bool" where
  "terminal_wf t \<longleftrightarrow> line_ok (input_buffer t) \<and> cursor t \<le> length (input_buffer t)
     \<and> length (history t) \<le> MAX_HISTORY \<and> (\<forall>h \<in> set (history t). line_ok h \<and> h \<noteq> [])
     \<and> (case history_index t of None \<Rightarrow> True | Some i \<Rightarrow> i < length (history t)) \<and> line_ok (saved_input t)"

lemma printable_ascii: "printable s \<Longrightarrow> ascii s"
  by (auto simp: printable_def ascii_def list_all_iff)

lemma printable_simps [simp]:
  "printable []" "printable (s @ t) \<longleftrightarrow> printable s \<and> printable t"
  "printable (c # s) \<longleftrightarrow> 32 \<le> (of_char c :: nat) \<and> (of_char c :: nat) \<le> 126 \<and> printable s"
  by (auto simp: printable_def)

lemma printable_take: "printable s \<Longrightarrow> printable (take i s)"
  by (auto simp: printable_def list_all_iff dest: in_set_takeD)

lemma printable_drop: "printable s \<Longrightarrow> printable (drop i s)"
  by (auto simp: printable_def list_all_iff dest: in_set_dropD)

lemma line_ok_Nil [simp]: "line_ok []"
  by (simp add: line_ok_def)

lemma Terminal_new_wf: "terminal_wf Terminal_new"
  by (simp add: terminal_wf_def Terminal_new_def MAX_HISTORY_def)

section \<open>The editor\<close>

text \<open>The line editor the keys implement: the characters left of the cursor, the nearest first, and
  those right of it.\<close>

fun zip_edit :: "DecodedKey \<Rightarrow> str \<times> str \<Rightarrow> str \<times> str" where
  "zip_edit (Unicode c) (l, r) =
     (if c = 8 \<or> c = 127 then (tl l, r)
      else if 32 \<le> c \<and> c < 127 \<and> length l + length r < MAX_LINE_LENGTH then (char_of c # l, r)
      else (l, r))"
| "zip_edit (RawKey ArrowLeft) (l, r) = (case l of [] \<Rightarrow> (l, r) | c # l' \<Rightarrow> (l', c # r))"
| "zip_edit (RawKey ArrowRight) (l, r) = (case r of [] \<Rightarrow> (l, r) | c # r' \<Rightarrow> (c # l, r'))"
| "zip_edit (RawKey Home) (l, r) = ([], rev l @ r)"
| "zip_edit (RawKey End) (l, r) = (rev r @ l, [])"
| "zip_edit (RawKey Delete) (l, r) = (l, tl r)"
| "zip_edit (RawKey _) (l, r) = (l, r)"

definition editor_view :: "Terminal \<Rightarrow> str \<times> str" where
  "editor_view t = (rev (take (cursor t) (input_buffer t)), drop (cursor t) (input_buffer t))"

definition editing_key :: "DecodedKey \<Rightarrow> bool" where
  "editing_key k \<longleftrightarrow> k \<notin> {Unicode 10, Unicode 13, RawKey ArrowUp, RawKey ArrowDown}"

text \<open>What a key may do to the rest of the terminal while it edits the line.\<close>

definition edited :: "Terminal \<Rightarrow> str \<times> str \<Rightarrow> Terminal \<Rightarrow> bool" where
  "edited t lr t' \<longleftrightarrow> editor_view t' = lr
     \<and> (\<exists>b n. t' = t\<lparr>input_buffer := b, cursor := n\<rparr> \<and> n \<le> length b)"

lemma edited_wf:
  assumes "terminal_wf t" "edited t (l, r) t'" "line_ok (rev l @ r)"
  shows "terminal_wf t'"
proof -
  obtain b n where t': "t' = t\<lparr>input_buffer := b, cursor := n\<rparr>" "n \<le> length b"
    using assms(2) by (auto simp: edited_def)
  have "rev l @ r = b"
    using assms(2) t' by (auto simp: edited_def editor_view_def)
  with assms(1,3) t' show ?thesis
    by (simp add: terminal_wf_def split: option.splits)
qed

text \<open>A key edits the line: no panic, no command, and the line of the editor.\<close>

definition key_edits :: "DecodedKey \<Rightarrow> Terminal \<Rightarrow> Writer \<Rightarrow> bool" where
  "key_edits k t w \<longleftrightarrow> (\<exists>t' w' ls'. handle_key k t w = Some (None, t', w')
     \<and> edited t (zip_edit k (editor_view t)) t' \<and> shows_log w' ls')"

lemma key_editsI:
  assumes "handle_key k t w = Some (None, t', w')" "t' = t\<lparr>input_buffer := b, cursor := n\<rparr>" "n \<le> length b"
    and "zip_edit k (editor_view t) = (rev (take n b), drop n b)" "shows_log w' ls'"
  shows "key_edits k t w"
  using assms unfolding key_edits_def edited_def
  by (intro exI [of _ t'] exI [of _ w'] exI [of _ ls'] conjI exI [of _ b] exI [of _ n]) (simp_all add: editor_view_def)

lemma key_edits_same:
  assumes "terminal_wf t" "shows_log w ls" "handle_key k t w = Some (None, t, w)"
    and "zip_edit k (editor_view t) = editor_view t"
  shows "key_edits k t w"
  by (rule key_editsI [OF assms(3), where b = "input_buffer t" and n = "cursor t"])
    (use assms in \<open>simp_all add: editor_view_def terminal_wf_def\<close>)

lemma insert_edited:
  assumes wf: "terminal_wf t" and w: "shows_log w ls" and c: "32 \<le> c" "c < 127"
    and room: "length (input_buffer t) < MAX_LINE_LENGTH"
  shows "key_edits (Unicode c) t w"
proof -
  let ?n = "cursor t" and ?b = "input_buffer t"
  let ?b' = "take ?n ?b @ char_of c # drop ?n ?b"
  let ?t = "t\<lparr>input_buffer := ?b', cursor := Suc ?n\<rparr>"
  have b: "ascii ?b" "?n \<le> length ?b"
    using wf printable_ascii by (auto simp: terminal_wf_def line_ok_def)
  have "emits (\<lambda>w. if Suc ?n = length ?b' then print_text [char_of c] w else redraw_line ?t w)
      (if Suc ?n = length ?b' then [char_of c] else redraw_text (input_buffer ?t))"
    by (rule emits_if [OF emits_print emits_redraw])
  then obtain w' ls' where w': "(if Suc ?n = length ?b' then print_text [char_of c] w else redraw_line ?t w) = Some w'"
    "shows_log w' ls'"
    using w by (rule emitsE) blast
  have "handle_char c t w = Some (None, ?t, w')"
    using c room w'(1) by (simp add: handle_char_def string_insert_ascii [OF b] Let_def)
  then show ?thesis
    by (intro key_editsI [where w' = w' and b = ?b' and n = "Suc ?n", OF _ refl _ _ w'(2)])
      (use c room b(2) in \<open>simp_all add: editor_view_def\<close>)
qed

lemma backspace_edited:
  assumes wf: "terminal_wf t" and w: "shows_log w ls" and c: "c = 8 \<or> c = 127"
  shows "key_edits (Unicode c) t w"
proof (cases "cursor t")
  case 0
  then show ?thesis
    by (intro key_edits_same [OF wf w]) (use c in \<open>auto simp: handle_char_def editor_view_def\<close>)
next
  case (Suc n)
  let ?b = "input_buffer t"
  let ?t = "t\<lparr>input_buffer := take n ?b @ drop (Suc n) ?b, cursor := n\<rparr>"
  have b: "ascii ?b" "n < length ?b"
    using wf printable_ascii Suc by (auto simp: terminal_wf_def line_ok_def)
  obtain w' ls' where w': "redraw_line ?t w = Some w'" "shows_log w' ls'"
    using emits_redraw w by (rule emitsE) blast
  have "handle_char c t w = Some (None, ?t, w')"
    using c w'(1) Suc by (auto simp: handle_char_def string_remove_ascii [OF b] Let_def)
  then show ?thesis
    by (intro key_editsI [where w' = w' and b = "input_buffer ?t" and n = n, OF _ _ _ _ w'(2)])
      (use c b(2) Suc in \<open>auto simp: editor_view_def take_Suc_conv_app_nth\<close>)
qed

lemma char_edited:
  assumes wf: "terminal_wf t" and w: "shows_log w ls" and c: "c \<noteq> 10" "c \<noteq> 13"
  shows "key_edits (Unicode c) t w"
proof -
  consider "c = 8 \<or> c = 127" | "32 \<le> c" "c < 127" "length (input_buffer t) < MAX_LINE_LENGTH"
    | "c \<noteq> 8" "c \<noteq> 127" "\<not> (32 \<le> c \<and> c < 127 \<and> length (input_buffer t) < MAX_LINE_LENGTH)"
    by linarith
  then show ?thesis
  proof cases
    case 1
    with wf w show ?thesis
      by (intro backspace_edited)
  next
    case 2
    with wf w show ?thesis
      by (intro insert_edited)
  next
    case 3
    have "cursor t \<le> length (input_buffer t)"
      using wf by (simp add: terminal_wf_def)
    then show ?thesis
      by (intro key_edits_same [OF wf w]) (use 3 c in \<open>auto simp: handle_char_def editor_view_def\<close>)
  qed
qed

text \<open>The raw keys.\<close>

lemma redraw_key_edits:
  assumes w: "shows_log w ls" and n: "n \<le> length b"
    and "\<And>w'. redraw_line (t\<lparr>input_buffer := b, cursor := n\<rparr>) w = Some w' \<Longrightarrow>
      handle_key k t w = Some (None, t\<lparr>input_buffer := b, cursor := n\<rparr>, w')"
    and "zip_edit k (editor_view t) = (rev (take n b), drop n b)"
  shows "key_edits k t w"
proof -
  obtain w' ls' where "redraw_line (t\<lparr>input_buffer := b, cursor := n\<rparr>) w = Some w'" "shows_log w' ls'"
    using emits_redraw w by (rule emitsE) blast
  with assms(3) show ?thesis
    by (intro key_editsI [OF _ refl n assms(4)]) simp_all
qed

lemma move_key_edits:
  assumes w: "shows_log w ls" and n: "n \<le> length (input_buffer t)"
    and "\<And>w'. print_text s w = Some w' \<Longrightarrow> handle_key k t w = Some (None, t\<lparr>cursor := n\<rparr>, w')"
    and "zip_edit k (editor_view t) = (rev (take n (input_buffer t)), drop n (input_buffer t))"
  shows "key_edits k t w"
proof -
  obtain w' ls' where "print_text s w = Some w'" "shows_log w' ls'"
    using emits_print w by (rule emitsE) blast
  with assms(3) show ?thesis
    by (intro key_editsI [where b = "input_buffer t", OF _ _ n assms(4)]) simp_all
qed

lemma raw_edited:
  assumes wf: "terminal_wf t" and w: "shows_log w ls" and k: "k \<noteq> ArrowUp" "k \<noteq> ArrowDown"
  shows "key_edits (RawKey k) t w"
proof -
  have n: "cursor t \<le> length (input_buffer t)" and a: "ascii (input_buffer t)"
    using wf printable_ascii by (auto simp: terminal_wf_def line_ok_def)
  show ?thesis
  proof (cases k)
    case ArrowLeft
    show ?thesis
    proof (cases "cursor t")
      case 0
      with ArrowLeft show ?thesis
        by (intro key_edits_same [OF wf w]) (simp_all add: editor_view_def)
    next
      case (Suc m)
      with ArrowLeft n show ?thesis
        by (intro move_key_edits [OF w, where s = "ESC # ''[D''" and n = m])
          (simp_all add: editor_view_def take_Suc_conv_app_nth Cons_nth_drop_Suc)
    qed
  next
    case ArrowRight
    show ?thesis
    proof (cases "cursor t < length (input_buffer t)")
      case True
      with ArrowRight show ?thesis
        by (intro move_key_edits [OF w, where s = "ESC # ''[C''" and n = "Suc (cursor t)"])
          (simp_all add: editor_view_def take_Suc_conv_app_nth flip: Cons_nth_drop_Suc)
    next
      case False
      with ArrowRight n show ?thesis
        by (intro key_edits_same [OF wf w]) (simp_all add: editor_view_def)
    qed
  next
    case Home
    then show ?thesis
      by (intro redraw_key_edits [OF w, where b = "input_buffer t" and n = 0]) (simp_all add: editor_view_def)
  next
    case End
    then show ?thesis
      by (intro redraw_key_edits [OF w, where b = "input_buffer t" and n = "length (input_buffer t)"])
        (simp_all add: editor_view_def flip: rev_append)
  next
    case Delete
    show ?thesis
    proof (cases "cursor t < length (input_buffer t)")
      case True
      with Delete show ?thesis
        by (intro redraw_key_edits [OF w, where n = "cursor t"
              and b = "take (cursor t) (input_buffer t) @ drop (Suc (cursor t)) (input_buffer t)"])
          (simp_all add: editor_view_def string_remove_ascii [OF a True] drop_Suc tl_drop)
    next
      case False
      with Delete show ?thesis
        by (intro key_edits_same [OF wf w]) (simp_all add: editor_view_def)
    qed
  next
    case (OtherKey x)
    then show ?thesis
      by (intro key_edits_same [OF wf w]) (simp_all add: editor_view_def)
  qed (use k in simp_all)
qed

lemma editing_key_edits:
  assumes "terminal_wf t" "shows_log w ls" "editing_key k"
  shows "key_edits k t w"
  using assms char_edited [OF assms(1,2)] raw_edited [OF assms(1,2)]
  by (cases k) (auto simp: editing_key_def)

lemma in_set_tlD: "x \<in> set (tl xs) \<Longrightarrow> x \<in> set xs"
  by (cases xs) auto

lemma zip_edit_ok:
  assumes "zip_edit k (l, r) = (l', r')" "line_ok (rev l @ r)"
  shows "line_ok (rev l' @ r')"
  using assms
  by (cases "(k, (l, r))" rule: zip_edit.cases)
    (auto simp: line_ok_def printable_def list_all_iff split: if_splits list.splits dest: in_set_tlD)

lemma editing_key_wf:
  assumes wf: "terminal_wf t" and "key_edits k t w"
  shows "\<exists>t' w' ls'. handle_key k t w = Some (None, t', w') \<and> terminal_wf t' \<and> shows_log w' ls'"
proof -
  obtain t' w' ls' where t': "handle_key k t w = Some (None, t', w')"
    "edited t (zip_edit k (editor_view t)) t'" "shows_log w' ls'"
    using assms(2) by (auto simp: key_edits_def)
  obtain l r where lr: "zip_edit k (editor_view t) = (l, r)"
    by (cases "zip_edit k (editor_view t)")
  have "line_ok (rev l @ r)"
    using zip_edit_ok [OF lr [unfolded editor_view_def]] wf by (simp add: terminal_wf_def)
  with edited_wf [OF wf] t' lr show ?thesis
    by auto
qed

section \<open>Entering lines and the history\<close>

lemma usage_indep:
  assumes "shows_log w2 ls2" "usage m w = Some (r, w')"
  shows "\<exists>w2'. usage m w2 = Some (r, w2')"
  using usage_shows [OF assms(1), of m] assms(2) by (auto simp: usage_def)

text \<open>The result of parsing does not depend on the console.\<close>

definition parse_like :: "(Writer \<Rightarrow> (Command option \<times> Writer) option) \<Rightarrow> bool" where
  "parse_like f \<longleftrightarrow> (\<exists>m. f = usage m) \<or> (\<exists>r. f = (\<lambda>w. Some (r, w)))"

lemma parse_like_const:
  "parse_like (usage m)" "parse_like (\<lambda>w. Some (r, w))"
  by (auto simp: parse_like_def)

lemma parse_like_if: "parse_like f \<Longrightarrow> parse_like g \<Longrightarrow> parse_like (\<lambda>w. if P then f w else g w)"
  by (cases P) simp_all

lemma parse_like_cases:
  "parse_like f \<Longrightarrow> (\<And>x ys. parse_like (h x ys)) \<Longrightarrow> parse_like (\<lambda>w. case xs of [] \<Rightarrow> f w | x # ys \<Rightarrow> h x ys w)"
  "parse_like f \<Longrightarrow> (\<And>x. parse_like (g x)) \<Longrightarrow> parse_like (\<lambda>w. case v of None \<Rightarrow> f w | Some x \<Rightarrow> g x w)"
  by (cases xs; simp) (cases v; simp)

lemma Command_parse_like: "parse_like (Command_parse cmd args)"
  unfolding Command_parse_def Let_def by (intro parse_like_if parse_like_cases parse_like_const)
lemma Command_parse_indep:
  assumes "shows_log w2 ls2" "Command_parse cmd args w = Some (r, w')"
  shows "\<exists>w2'. Command_parse cmd args w2 = Some (r, w2')"
  using Command_parse_like [of cmd args] assms usage_indep [OF assms(1)]
  unfolding parse_like_def by auto

lemma parse_command_shows:
  assumes "shows_log w ls"
  obtains r w' ls' where "parse_command t w = Some (r, w')" "shows_log w' ls'"
  using assms Command_parse_shows [OF assms]
  by (cases "split_whitespace (trim (input_buffer t))") (fastforce simp: parse_command_def Let_def split: if_splits)+

lemma add_to_history_wf:
  assumes "terminal_wf t" "input_buffer t \<noteq> []"
  shows "length (history (add_to_history (input_buffer t) t)) \<le> MAX_HISTORY"
    and "\<forall>h \<in> set (history (add_to_history (input_buffer t) t)). line_ok h \<and> h \<noteq> []"
    and "last (history (add_to_history (input_buffer t) t)) = input_buffer t"
    and "history (add_to_history (input_buffer t) t) \<noteq> []"
    and "saved_input (add_to_history (input_buffer t) t) = saved_input t"
  using assms
  by (auto simp: terminal_wf_def add_to_history_def Let_def MAX_HISTORY_def dest: in_set_tlD)

text \<open>Enter: the line is parsed, remembered unless empty, and cleared.\<close>

lemma enter_key:
  assumes wf: "terminal_wf t" and w: "shows_log w ls" and c: "c = 10 \<or> c = 13"
  obtains r w1 w2 t' w' ls' where "handle_char c t w = Some (r, t', w')" "terminal_wf t'" "shows_log w' ls'"
    "parse_command t w1 = Some (r, w2)" "input_buffer t' = []" "history_index t' = None"
    "input_buffer t \<noteq> [] \<Longrightarrow> history t' \<noteq> [] \<and> last (history t') = input_buffer t"
proof -
  have "println_text [] w = print_text [char_of (10 :: nat)] w"
    by (simp add: println_text_def print_text_def byte_of_char_def)
  then obtain w1 ls1 where w1: "println_text [] w = Some w1" "shows_log w1 ls1"
    using emits_print w by (metis emitsE)
  obtain r w2 ls2 where w2: "parse_command t w1 = Some (r, w2)" "shows_log w2 ls2"
    using parse_command_shows [OF w1(2)] .
  define t' where "t' = (if input_buffer t \<noteq> [] then add_to_history (input_buffer t) t else t)
      \<lparr>input_buffer := [], cursor := 0, history_index := None\<rparr>"
  have wf': "terminal_wf t'"
    using wf add_to_history_wf [OF wf] by (cases "input_buffer t = []") (auto simp: t'_def terminal_wf_def)
  obtain w3 ls3 where w3: "(if r = None then prompt w2 else Some w2) = Some w3" "shows_log w3 ls3"
  proof (cases r)
    case None
    obtain w3 where "prompt w2 = Some w3" "shows_log w3 (log_text (map byte_of_char ''sovelma> '') ls2)"
      using emits_prompt w2(2) by (rule emitsE)
    then show ?thesis
      using that None by simp
  qed (use that w2 in simp)
  have "handle_char c t w = Some (r, t', w3)"
    using c w1(1) w2(1) w3(1) by (auto simp: handle_char_def Let_def t'_def split: option.splits)
  then show thesis
    by (rule that [OF _ wf' w3(2) w2(1)])
      (use add_to_history_wf [OF wf] in \<open>simp_all add: t'_def\<close>)
qed

lemma history_up_entry:
  assumes wf: "terminal_wf t" and w: "shows_log w ls"
  obtains t' w' ls' where "handle_raw_key ArrowUp t w = Some (t', w')" "terminal_wf t'" "shows_log w' ls'"
    "history_index t = None \<Longrightarrow> history t \<noteq> [] \<Longrightarrow>
       input_buffer t' = last (history t) \<and> saved_input t' = input_buffer t
       \<and> history_index t' = Some (length (history t) - 1) \<and> history t' = history t"
proof -
  have step: "\<exists>t' w' ls'. (do { entry \<leftarrow> index_get (history t) i;
        let t' = t''\<lparr>input_buffer := entry, cursor := length entry\<rparr>;
        w \<leftarrow> redraw_line t' w; Some (t', w) }) = Some (t', w') \<and> shows_log w' ls'
      \<and> t' = t''\<lparr>input_buffer := history t ! i, cursor := length (history t ! i)\<rparr>"
    if "i < length (history t)" for i t''
  proof -
    let ?t = "t''\<lparr>input_buffer := history t ! i, cursor := length (history t ! i)\<rparr>"
    obtain w' ls' where "redraw_line ?t w = Some w'" "shows_log w' ls'"
      using emits_redraw w by (rule emitsE) blast
    with that show ?thesis
      by (auto simp: index_get_def Let_def)
  qed
  show thesis
  proof (cases "history t = []")
    case True
    then show thesis
      by (intro that [OF _ wf w]) (simp_all add: history_up_def)
  next
    case False
    let ?i = "length (history t) - 1"
    show thesis
    proof (cases "history_index t")
      case None
      let ?t = "t\<lparr>saved_input := input_buffer t, history_index := Some ?i\<rparr>"
      let ?t' = "?t\<lparr>input_buffer := history t ! ?i, cursor := length (history t ! ?i)\<rparr>"
      obtain w' ls' where "handle_raw_key ArrowUp t w = Some (?t', w')" "shows_log w' ls'"
        using step [of ?i ?t] False None by (auto simp: history_up_def Let_def)
      moreover have "terminal_wf ?t'"
        using wf False None by (simp add: terminal_wf_def)
      ultimately show thesis
        by (intro that [of ?t' w' ls']) (use False in \<open>simp_all add: last_conv_nth\<close>)
    next
      case (Some j)
      show thesis
      proof (cases j)
        case 0
        then show thesis
          using Some by (intro that [OF _ wf w]) (simp_all add: history_up_def)
      next
        case (Suc i)
        let ?t = "t\<lparr>history_index := Some i\<rparr>"
        let ?t' = "?t\<lparr>input_buffer := history t ! i, cursor := length (history t ! i)\<rparr>"
        have i: "i < length (history t)"
          using wf Some Suc by (simp add: terminal_wf_def)
        obtain w' ls' where "handle_raw_key ArrowUp t w = Some (?t', w')" "shows_log w' ls'"
          using step [OF i, of ?t] False Some Suc by (auto simp: history_up_def Let_def)
        moreover have "terminal_wf ?t'"
          using wf i by (simp add: terminal_wf_def)
        ultimately show thesis
          by (intro that [of ?t' w' ls']) (use Some in simp_all)
      qed
    qed
  qed
qed

lemma history_down_entry:
  assumes wf: "terminal_wf t" and w: "shows_log w ls"
  obtains t' w' ls' where "handle_raw_key ArrowDown t w = Some (t', w')" "terminal_wf t'" "shows_log w' ls'"
proof (cases "history_index t")
  case None
  then show thesis
    by (intro that [OF _ wf w]) (simp add: history_down_def)
next
  case (Some i)
  show thesis
  proof (cases "i + 1 \<ge> length (history t)")
    case True
    let ?t = "t\<lparr>history_index := None, input_buffer := saved_input t, cursor := length (saved_input t)\<rparr>"
    obtain w' ls' where "redraw_line ?t w = Some w'" "shows_log w' ls'"
      using emits_redraw w by (rule emitsE) blast
    then show thesis
      by (intro that [of ?t w' ls']) (use Some True wf in \<open>simp_all add: history_down_def terminal_wf_def\<close>)
  next
    case False
    let ?h = "history t ! (i + 1)"
    let ?t = "t\<lparr>history_index := Some (i + 1), input_buffer := ?h, cursor := length ?h\<rparr>"
    obtain w' ls' where "redraw_line ?t w = Some w'" "shows_log w' ls'"
      using emits_redraw w by (rule emitsE) blast
    then show thesis
      by (intro that [of ?t w' ls'])
        (use Some False wf in \<open>simp_all add: history_down_def index_get_def terminal_wf_def\<close>)
  qed
qed

lemma handle_key_ok:
  assumes wf: "terminal_wf t" and w: "shows_log w ls"
  obtains r t' w' ls' where "handle_key k t w = Some (r, t', w')" "terminal_wf t'" "shows_log w' ls'"
proof -
  consider "editing_key k" | "k = Unicode 10 \<or> k = Unicode 13" | "k = RawKey ArrowUp" | "k = RawKey ArrowDown"
    by (auto simp: editing_key_def)
  then show thesis
  proof cases
    case 1
    from editing_key_wf [OF wf editing_key_edits [OF wf w 1]] that show thesis
      by blast
  next
    case 2
    then obtain c where "k = Unicode c" "c = 10 \<or> c = 13"
      by auto
    with enter_key [OF wf w this(2)] that show thesis
      by (metis handle_key.simps(1))
  next
    case 3
    obtain t' w' ls' where "handle_raw_key ArrowUp t w = Some (t', w')" "terminal_wf t'" "shows_log w' ls'"
      by (rule history_up_entry [OF wf w])
    with 3 that [of None t' w' ls'] show thesis
      by simp
  next
    case 4
    obtain t' w' ls' where "handle_raw_key ArrowDown t w = Some (t', w')" "terminal_wf t'" "shows_log w' ls'"
      by (rule history_down_entry [OF wf w])
    with 4 that [of None t' w' ls'] show thesis
      by simp
  qed
qed

lemma prompt_if_command:
  assumes "shows_log w ls"
  obtains w' ls' where "(case r of Some c \<Rightarrow> prompt w | None \<Rightarrow> Some w) = Some w'" "shows_log w' ls'"
proof (cases r)
  case (Some c)
  obtain w' where "prompt w = Some w'" "shows_log w' (log_text (map byte_of_char ''sovelma> '') ls)"
    using emits_prompt assms by (rule emitsE)
  with Some that show thesis
    by simp
qed (use assms that in simp)

lemma handle_keys_ok:
  "terminal_wf t \<Longrightarrow> shows_log w ls \<Longrightarrow>
     \<exists>cs t' w' ls'. handle_keys ks t w = Some (cs, t', w') \<and> terminal_wf t' \<and> shows_log w' ls'"
proof (induction ks arbitrary: t w ls)
  case Nil
  then show ?case
    by auto
next
  case (Cons k ks)
  obtain r t1 w1 ls1 where k: "handle_key k t w = Some (r, t1, w1)" "terminal_wf t1" "shows_log w1 ls1"
    by (rule handle_key_ok [OF Cons.prems])
  obtain w2 ls2 where w2: "(case r of Some c \<Rightarrow> prompt w1 | None \<Rightarrow> Some w1) = Some w2" "shows_log w2 ls2"
    by (rule prompt_if_command [OF k(3)])
  from Cons.IH [OF k(2) w2(2)] k(1) w2(1) show ?case
    by auto
qed

text \<open>Typing a text at the end of the line.\<close>

lemma type_text:
  "terminal_wf t \<Longrightarrow> shows_log w ls \<Longrightarrow> printable s \<Longrightarrow> cursor t = length (input_buffer t) \<Longrightarrow>
   length (input_buffer t) + length s \<le> MAX_LINE_LENGTH \<Longrightarrow>
     \<exists>w' ls'. handle_keys (map (\<lambda>c. Unicode (of_char c)) s @ ks) t w
       = handle_keys ks (t\<lparr>input_buffer := input_buffer t @ s, cursor := length (input_buffer t @ s)\<rparr>) w'
     \<and> shows_log w' ls'"
proof (induction s arbitrary: t w ls)
  case Nil
  then have eq: "t\<lparr>input_buffer := input_buffer t, cursor := length (input_buffer t)\<rparr> = t"
    by (cases t) simp
  show ?case
    using Nil.prems(2)
    by (intro exI [of _ w] exI [of _ ls]) (simp only: list.map append_Nil append_Nil2 eq simp_thms)
next
  case (Cons c s)
  let ?k = "Unicode (of_char c)" and ?b = "input_buffer t"
  have c: "32 \<le> (of_char c :: nat)" "(of_char c :: nat) < 127"
    using Cons.prems(3) by simp_all
  then have "editing_key ?k"
    by (auto simp: editing_key_def)
  then have ke: "key_edits ?k t w"
    by (rule editing_key_edits [OF Cons.prems(1,2)])
  obtain t1 w1 ls1 where t1: "handle_key ?k t w = Some (None, t1, w1)" "edited t (c # rev ?b, []) t1" "shows_log w1 ls1"
    using ke c Cons.prems(4,5) by (auto simp: key_edits_def editor_view_def)
  obtain b n where b: "t1 = t\<lparr>input_buffer := b, cursor := n\<rparr>" "n \<le> length b"
    "rev (take n b) = c # rev ?b" "drop n b = []"
    using t1(2) by (auto simp: edited_def editor_view_def)
  then have "n = length b" "b = ?b @ [c]"
    by (auto simp: rev_swap)
  then have t1': "t1 = t\<lparr>input_buffer := ?b @ [c], cursor := length (?b @ [c])\<rparr>"
    using b(1) by simp
  have "terminal_wf t1"
    using editing_key_wf [OF Cons.prems(1) ke] t1(1) by auto
  from Cons.IH [OF this t1(3)] t1' t1(1) Cons.prems(3,5) show ?case
    by auto
qed

section \<open>What is on the screen\<close>

lemma log_byte_concat: "ls \<noteq> [] \<Longrightarrow> concat (rev (log_byte b ls)) = concat (rev ls) @ (if b = 10 then [] else [b])
    \<and> log_byte b ls \<noteq> []"
  by (cases ls) auto

lemma log_text_concat:
  "ls \<noteq> [] \<Longrightarrow> concat (rev (log_text s ls)) = concat (rev ls) @ filter (\<lambda>b. b \<noteq> 10) (map shown_byte s)"
proof (induction s arbitrary: ls)
  case (Cons b s)
  with log_byte_concat [OF Cons.prems, of "shown_byte b"] show ?case
    by (simp add: log_text_def)
qed (simp add: log_text_def)

lemma shown_printable:
  assumes "printable s"
  shows "filter (\<lambda>b. b \<noteq> 10) (map shown_byte (map byte_of_char s)) = map byte_of_char s"
proof -
  have "shown_byte (byte_of_char c) = byte_of_char c \<and> byte_of_char c \<noteq> 10" if "c \<in> set s" for c
  proof -
    have c: "32 \<le> (of_char c :: nat)" "(of_char c :: nat) \<le> 126"
      using assms that by (auto simp: printable_def list_all_iff)
    then have "unat (byte_of_char c) = of_char c"
      by (simp add: byte_of_char_def unat_of_nat)
    with c show ?thesis
      by (auto simp: shown_byte_def word_le_nat_alt)
  qed
  then show ?thesis
    by (induction s) auto
qed

lemma redraw_shown:
  assumes "printable b"
  shows "filter (\<lambda>b. b \<noteq> 10) (map shown_byte (map byte_of_char (redraw_text b)))
    = 254 # map byte_of_char (''sovelma> '' @ b @ ''  '') @ 254 # map byte_of_char (''sovelma> '' @ b)"
proof -
  have cr: "shown_byte (byte_of_char CR) = 254"
    by (simp add: shown_byte_def byte_of_char_def CR_def)
  have p: "printable (''sovelma> '' @ b @ ''  '')" "printable (''sovelma> '' @ b)"
    using assms by simp_all
  have "redraw_text b = CR # (''sovelma> '' @ b @ ''  '') @ CR # (''sovelma> '' @ b)"
    by (simp add: redraw_text_def)
  then show ?thesis
    using shown_printable [OF p(1)] shown_printable [OF p(2)]
    by (simp only: list.map filter.simps map_append filter_append cr) simp
qed

section \<open>Lines typed and entered\<close>

text \<open>The keys of a line that is typed and entered, and the command of a line: none for one without words,
  else what its first word and the others parse to.\<close>

definition line_keys :: "str \<Rightarrow> DecodedKey list" where
  "line_keys s = map (\<lambda>c. Unicode (of_char c)) s @ [Unicode 10]"

definition line_command :: "str \<Rightarrow> Command option \<Rightarrow> bool" where
  "line_command s r \<longleftrightarrow>
     (case split_whitespace (trim s) of
        [] \<Rightarrow> r = None
      | cmd # args \<Rightarrow> (\<exists>w w'. Command_parse cmd args w = Some (r, w')))"

fun issued :: "Command option list \<Rightarrow> Command list" where
  "issued [] = []"
| "issued (None # rs) = issued rs"
| "issued (Some c # rs) = c # issued rs"

lemma handle_keys_append:
  "handle_keys (ks @ ks') t w = do {
     (cs, t, w) \<leftarrow> handle_keys ks t w;
     (cs', t, w) \<leftarrow> handle_keys ks' t w;
     Some (cs @ cs', t, w)
   }"
proof (induction ks arbitrary: t w)
  case Nil
  show ?case
    by (cases "handle_keys ks' t w") auto
next
  case (Cons k ks)
  then show ?case
    by (auto split: Option.bind_splits option.splits)
qed

lemma parse_command_line:
  assumes "parse_command t w = Some (r, w')" "line_command (input_buffer t) r'"
  shows "r = r'"
proof (cases "split_whitespace (trim (input_buffer t))")
  case Nil
  with assms show ?thesis
    by (auto simp: parse_command_def line_command_def Let_def split: if_splits)
next
  case (Cons cmd args)
  have "split_whitespace [] = []"
    by (simp add: split_whitespace_def)
  with Cons have "trim (input_buffer t) \<noteq> []"
    by auto
  with Cons assms have "Command_parse cmd args w = Some (r, w')" "\<exists>w w'. Command_parse cmd args w = Some (r', w')"
    by (auto simp: parse_command_def line_command_def Let_def)
  then show ?thesis
    using Command_parse_like [of cmd args] by (auto simp: parse_like_def usage_def)
qed

lemma enter_line:
  assumes "terminal_wf t" "shows_log w ls" "input_buffer t = []" "printable s" "length s \<le> 256" "line_command s r"
  obtains t' w' ls' where "terminal_wf t'" "shows_log w' ls'" "input_buffer t' = []" "history_index t' = None"
    "s \<noteq> [] \<Longrightarrow> history t' \<noteq> [] \<and> last (history t') = s"
    "\<And>ks. handle_keys (line_keys s @ ks) t w = map_option (\<lambda>(cs, u). (issued [r] @ cs, u)) (handle_keys ks t' w')"
proof -
  let ?t = "t\<lparr>input_buffer := s, cursor := length s\<rparr>"
  have wf: "terminal_wf ?t"
    using assms(1,4,5) by (auto simp: terminal_wf_def line_ok_def MAX_LINE_LENGTH_def split: option.splits)
  have cur: "cursor t = length (input_buffer t)" "length (input_buffer t) + length s \<le> MAX_LINE_LENGTH"
    using assms(1,3,5) by (simp_all add: terminal_wf_def MAX_LINE_LENGTH_def)
  have "\<exists>w1 ls1. handle_keys (map (\<lambda>c. Unicode (of_char c)) s @ []) t w = handle_keys [] ?t w1 \<and> shows_log w1 ls1"
    using type_text [OF assms(1,2,4) cur, of "[]"] assms(3) by simp
  then obtain w1 ls1 where w1: "handle_keys (map (\<lambda>c. Unicode (of_char c)) s) t w = Some ([], ?t, w1)" "shows_log w1 ls1"
    by auto
  obtain r' wa wb t2 w2 ls2 where e: "handle_char 10 ?t w1 = Some (r', t2, w2)" "terminal_wf t2" "shows_log w2 ls2"
    "parse_command ?t wa = Some (r', wb)" "input_buffer t2 = []" "history_index t2 = None"
    "input_buffer ?t \<noteq> [] \<Longrightarrow> history t2 \<noteq> [] \<and> last (history t2) = input_buffer ?t"
    by (rule enter_key [OF wf w1(2) disjI1 [OF refl]]) (rule that)
  have r: "r' = r"
    using parse_command_line [OF e(4)] assms(6) by simp
  obtain w3 ls3 where w3: "(case r of Some _ \<Rightarrow> prompt w2 | None \<Rightarrow> Some w2) = Some w3" "shows_log w3 ls3"
    using emits_prompt e(3) by (cases r) (auto elim!: emitsE)
  have "handle_keys (line_keys s @ ks) t w = map_option (\<lambda>(cs, u). (issued [r] @ cs, u)) (handle_keys ks t2 w3)" for ks
    using w1(1) e(1) r w3(1)
    by (cases "handle_keys ks t2 w3"; cases r) (auto simp: line_keys_def handle_keys_append)
  with e(2,5-7) w3(2) show thesis
    by (intro that) auto
qed

lemma enter_lines:
  "list_all2 (\<lambda>s r. printable s \<and> length s \<le> 256 \<and> line_command s r) ss rs \<Longrightarrow>
   terminal_wf t \<Longrightarrow> shows_log w ls \<Longrightarrow> input_buffer t = [] \<Longrightarrow>
     \<exists>t' w' ls'. handle_keys (concat (map line_keys ss)) t w = Some (issued rs, t', w') \<and> terminal_wf t' \<and> shows_log w' ls'
       \<and> input_buffer t' = []
       \<and> (ss \<noteq> [] \<longrightarrow> history_index t' = None
            \<and> (last ss \<noteq> [] \<longrightarrow> history t' \<noteq> [] \<and> last (history t') = last ss))"
proof (induction arbitrary: t w ls rule: list_all2_induct)
  case Nil
  then show ?case
    by auto
next
  case (Cons s ss r rs)
  obtain t1 w1 ls1 where t1: "terminal_wf t1" "shows_log w1 ls1" "input_buffer t1 = []" "history_index t1 = None"
    "s \<noteq> [] \<Longrightarrow> history t1 \<noteq> [] \<and> last (history t1) = s"
    "\<And>ks. handle_keys (line_keys s @ ks) t w = map_option (\<lambda>(cs, u). (issued [r] @ cs, u)) (handle_keys ks t1 w1)"
    by (rule enter_line [of t w ls s r]) (use Cons in auto)
  obtain t2 w2 ls2 where t2: "handle_keys (concat (map line_keys ss)) t1 w1 = Some (issued rs, t2, w2)" "terminal_wf t2"
    "shows_log w2 ls2" "input_buffer t2 = []"
    "ss \<noteq> [] \<Longrightarrow> history_index t2 = None \<and> (last ss \<noteq> [] \<longrightarrow> history t2 \<noteq> [] \<and> last (history t2) = last ss)"
    using Cons.IH [OF t1(1-3)] by blast
  have rs: "issued (r # rs) = issued [r] @ issued rs"
    by (cases r) simp_all
  show ?case
  proof (cases "ss = []")
    case True
    then have "t2 = t1" "issued rs = []"
      using t2(1) by auto
    with True t1(4,5) t1(6) [of "concat (map line_keys ss)"] t2 rs show ?thesis
      by (intro exI [of _ t2] exI [of _ w2] exI [of _ ls2]) auto
  next
    case False
    with t1(6) [of "concat (map line_keys ss)"] t2 rs show ?thesis
      by (intro exI [of _ t2] exI [of _ w2] exI [of _ ls2]) auto
  qed
qed

section \<open>Properties\<close>

text \<open>Whatever keys are pressed, the terminal does not panic, and the line, the cursor and the history
  stay within their bounds.\<close>

theorem terminal_never_panics:
  assumes "shows_log w ls"
  shows "\<exists>cs t' w'. handle_keys ks Terminal_new w = Some (cs, t', w') \<and> terminal_wf t'
    \<and> cursor t' \<le> length (input_buffer t') \<and> length (input_buffer t') \<le> 256 \<and> length (history t') \<le> 16"
  using handle_keys_ok [OF Terminal_new_wf assms, of ks]
  by (auto simp: terminal_wf_def line_ok_def MAX_LINE_LENGTH_def MAX_HISTORY_def)

theorem terminal_never_panics_witness:
  "\<exists>cs t' w'. handle_keys [Unicode 97, RawKey ArrowUp, Unicode 8, Unicode 8, Unicode 13] Terminal_new cleared_writer
      = Some (cs, t', w') \<and> terminal_wf t'"
  using terminal_never_panics [OF cleared_writer_shows] by blast

text \<open>C36: The editing keys implement a line editor with a cursor: the characters left and right of the
  cursor change as in the editor, nothing else of the terminal does, and no command results.\<close>

theorem editing_refines:
  assumes "terminal_wf t" "shows_log w ls" "editing_key k"
  shows "\<exists>t' w'. handle_key k t w = Some (None, t', w') \<and> editor_view t' = zip_edit k (editor_view t)
    \<and> history t' = history t \<and> history_index t' = history_index t \<and> saved_input t' = saved_input t"
  using editing_key_edits [OF assms] by (auto simp: key_edits_def edited_def)

theorem editing_refines_witness:
  "\<exists>t' w'. handle_key (RawKey Delete) \<lparr>input_buffer = ''abc'', cursor = 1, history = [], history_index = None,
      saved_input = []\<rparr> cleared_writer = Some (None, t', w') \<and> editor_view t' = (''a'', ''c'')"
proof -
  let ?t = "\<lparr>input_buffer = ''abc'', cursor = 1, history = [], history_index = None, saved_input = []\<rparr>"
  have "terminal_wf ?t"
    by (simp add: terminal_wf_def line_ok_def MAX_LINE_LENGTH_def)
  from editing_refines [OF this cleared_writer_shows, of "RawKey Delete"] show ?thesis
    by (auto simp: editing_key_def editor_view_def)
qed

text \<open>C37: Lines that are typed and entered one after another yield, in order, the commands their words parse to, a
  line without words or with wrong arguments none; every line starts from an empty one, and the up arrow
  brings the last line back.\<close>

theorem line_entered:
  assumes "shows_log w ls" "terminal_wf t" "input_buffer t = []" "ss \<noteq> []" "last ss \<noteq> []"
    and "list_all2 (\<lambda>s r. printable s \<and> length s \<le> 256 \<and> line_command s r) ss rs"
  shows "\<exists>t' w'. handle_keys (concat (map line_keys ss)) t w = Some (issued rs, t', w')
    \<and> input_buffer t' = [] \<and> cursor t' = 0
    \<and> (\<exists>t'' w''. handle_key (RawKey ArrowUp) t' w' = Some (None, t'', w'') \<and> input_buffer t'' = last ss)"
proof -
  obtain t' w' ls' where t': "handle_keys (concat (map line_keys ss)) t w = Some (issued rs, t', w')" "terminal_wf t'"
    "shows_log w' ls'" "input_buffer t' = []" "history_index t' = None" "history t' \<noteq> []" "last (history t') = last ss"
    using enter_lines [OF assms(6,2,1,3)] assms(4,5) by blast
  obtain t'' w'' where "handle_raw_key ArrowUp t' w' = Some (t'', w'')" "input_buffer t'' = last ss"
    by (rule history_up_entry [OF t'(2,3)]) (use that t'(5-7) in auto)
  moreover have "cursor t' = 0"
    using t'(2,4) by (simp add: terminal_wf_def)
  ultimately show ?thesis
    using t'(1,4) by simp
qed

lemma lowercase_echo: "to_lowercase ''ECHO'' = ''echo''" "to_lowercase ''echo'' = ''echo''"
  by code_simp+

theorem line_entered_witness:
  "\<exists>t' w'. handle_keys (line_keys ''ECHO  hi'' @ line_keys ''  '' @ line_keys ''echo 2'') Terminal_new cleared_writer
      = Some ([Echo ''hi'', Echo ''2''], t', w') \<and> input_buffer t' = [] \<and> cursor t' = 0
    \<and> (\<exists>t'' w''. handle_key (RawKey ArrowUp) t' w' = Some (None, t'', w'') \<and> input_buffer t'' = ''echo 2'')"
proof -
  have "line_command ''ECHO  hi'' (Some (Echo ''hi''))"
    by (simp add: line_command_def split_whitespace_def trim_def is_whitespace_def Command_parse_def lowercase_echo)
  moreover have "line_command ''  '' None"
    by (simp add: line_command_def split_whitespace_def trim_def is_whitespace_def)
  moreover have "line_command ''echo 2'' (Some (Echo ''2''))"
    by (simp add: line_command_def split_whitespace_def trim_def is_whitespace_def Command_parse_def lowercase_echo)
  ultimately show ?thesis
    using line_entered [OF cleared_writer_shows Terminal_new_wf, of "[''ECHO  hi'', ''  '', ''echo 2'']"
        "[Some (Echo ''hi''), None, Some (Echo ''2'')]"]
    by (simp add: Terminal_new_def)
qed

text \<open>Redrawing the line erases nothing: the console has no carriage return, so each backspace adds
  to the screen a placeholder, the prompt and the line, twice.\<close>

theorem redraw_appends:
  assumes "terminal_wf t" "shows_log w ls" "0 < cursor t"
  shows "\<exists>t' w' ls'. handle_key (Unicode 8) t w = Some (None, t', w') \<and> shows_log w' ls'
    \<and> concat (rev ls') = concat (rev ls)
        @ 254 # map byte_of_char (''sovelma> '' @ input_buffer t' @ ''  '')
        @ 254 # map byte_of_char (''sovelma> '' @ input_buffer t')"
proof -
  obtain n where n: "cursor t = Suc n"
    using assms(3) by (cases "cursor t") auto
  let ?b = "input_buffer t"
  let ?t = "t\<lparr>input_buffer := take n ?b @ drop (Suc n) ?b, cursor := n\<rparr>"
  have b: "printable ?b" "n < length ?b"
    using assms(1) n by (auto simp: terminal_wf_def line_ok_def)
  obtain w' where w': "redraw_line ?t w = Some w'"
    "shows_log w' (log_text (map byte_of_char (redraw_text (input_buffer ?t))) ls)"
    using emits_redraw assms(2) by (rule emitsE)
  have "handle_key (Unicode 8) t w = Some (None, ?t, w')"
    using w'(1) n by (simp add: handle_char_def string_remove_ascii [OF printable_ascii [OF b(1)] b(2)] Let_def)
  moreover have "concat (rev (log_text (map byte_of_char (redraw_text (input_buffer ?t))) ls)) = concat (rev ls)
        @ 254 # map byte_of_char (''sovelma> '' @ input_buffer ?t @ ''  '')
        @ 254 # map byte_of_char (''sovelma> '' @ input_buffer ?t)"
  proof -
    have ls: "ls \<noteq> []" and pr: "printable (input_buffer ?t)"
      using assms(2) b(1) by (simp_all add: shows_log_def printable_take printable_drop)
    show ?thesis
      unfolding log_text_concat [OF ls] redraw_shown [OF pr] append_Cons ..
  qed
  ultimately show ?thesis
    using w'(2) by (intro exI [of _ ?t] exI [of _ w'] exI conjI)
qed

theorem redraw_appends_witness:
  "\<exists>t' w' ls'. handle_key (Unicode 8) \<lparr>input_buffer = ''ab'', cursor = 2, history = [], history_index = None,
      saved_input = []\<rparr> cleared_writer = Some (None, t', w') \<and> shows_log w' ls'
    \<and> concat (rev ls') = 254 # map byte_of_char (''sovelma> '' @ input_buffer t' @ ''  '')
        @ 254 # map byte_of_char (''sovelma> '' @ input_buffer t')"
proof -
  let ?t = "\<lparr>input_buffer = ''ab'', cursor = 2, history = [], history_index = None, saved_input = []\<rparr>"
  have "terminal_wf ?t"
    by (simp add: terminal_wf_def line_ok_def MAX_LINE_LENGTH_def)
  from redraw_appends [OF this cleared_writer_shows] show ?thesis
    by simp
qed

end
