(* ===== verification/Dns_Resolver.thy ===== *)
theory Dns_Resolver
  imports Text
begin

text \<open>
  The DNS resolver (\<open>net/dns.rs\<close>): dotted-quad parsing, and the table of pending queries over a DNS
  socket. The socket belongs to \<open>smoltcp\<close>: adding one to the socket set, starting a query and asking
  for its result are parameters that read and change the network stack.
\<close>

section \<open>Addresses\<close>

datatype Ipv4Address = Ipv4 u8 u8 u8 u8

definition filter_map :: "('a \<Rightarrow> 'b option) \<Rightarrow> 'a list \<Rightarrow> 'b list" where
  "filter_map f xs = concat (map (\<lambda>x. case f x of None \<Rightarrow> [] | Some y \<Rightarrow> [y]) xs)"

definition parse_ipv4 :: "str \<Rightarrow> Ipv4Address option" where
  "parse_ipv4 s =
     (let parts = split_on (CHR ''.'') s in
      if length parts \<noteq> 4 then None
      else
        let octets = filter_map parse_u8 parts in
        if length octets \<noteq> 4 then None
        else Some (Ipv4 (octets ! 0) (octets ! 1) (octets ! 2) (octets ! 3)))"

text \<open>How addresses are printed.\<close>

fun show_ipv4 :: "Ipv4Address \<Rightarrow> str" where
  "show_ipv4 (Ipv4 a b c d) =
     show_nat (unat a) @ ''.'' @ show_nat (unat b) @ ''.'' @ show_nat (unat c) @ ''.'' @ show_nat (unat d)"

section \<open>The resolver\<close>

datatype NetError =
    DeviceNotReady | NoAddress | ConnectionRefused | Timeout | BufferFull | InvalidAddress | DnsError
  | DhcpFailed | IoError

primrec show_NetError :: "NetError \<Rightarrow> str" where
  "show_NetError DeviceNotReady = ''network device not ready''"
| "show_NetError NoAddress = ''no IP address configured''"
| "show_NetError ConnectionRefused = ''connection refused''"
| "show_NetError Timeout = ''connection timed out''"
| "show_NetError BufferFull = ''socket buffer full''"
| "show_NetError InvalidAddress = ''invalid address format''"
| "show_NetError DnsError = ''DNS error''"
| "show_NetError DhcpFailed = ''DHCP failed to acquire lease''"
| "show_NetError IoError = ''I/O error''"

datatype StartQueryError = NoFreeSlot | InvalidName | NameTooLong

datatype GetQueryResultError = QueryPending | QueryFailed

record ('h, 'qh, 's) dns_ops =
  dns_servers :: "'s \<Rightarrow> Ipv4Address list"
  add_dns_socket :: "Ipv4Address list \<Rightarrow> 's \<Rightarrow> 'h \<times> 's"
  start_dns_query :: "'h \<Rightarrow> str \<Rightarrow> 's \<Rightarrow> (StartQueryError + 'qh) \<times> 's"
  get_query_result :: "'h \<Rightarrow> 'qh \<Rightarrow> 's \<Rightarrow> (GetQueryResultError + Ipv4Address list) \<times> 's"

record 'qh DnsQueryHandle =
  query_handle :: 'qh
  query_id :: u16

record DnsResult =
  result_hostname :: str
  addresses :: "Ipv4Address list"

record ('h, 'qh) DnsResolver =
  dns_socket :: "'h option"
  pending :: "(u16 \<times> 'qh \<times> str) list"
  next_id :: u16

definition DnsResolver_new :: "('h, 'qh) DnsResolver" where
  "DnsResolver_new = \<lparr>dns_socket = None, pending = [], next_id = 1\<rparr>"

definition DnsResolver_init ::
    "('h, 'qh, 's) dns_ops \<Rightarrow> ('h, 'qh) DnsResolver \<Rightarrow> 's \<Rightarrow> ('h, 'qh) DnsResolver \<times> 's" where
  "DnsResolver_init D r s =
     (if dns_socket r \<noteq> None then (r, s)
      else if dns_servers D s = [] then (r, s)
      else let (h, s) = add_dns_socket D (dns_servers D s) s in (r\<lparr>dns_socket := Some h\<rparr>, s))"

definition is_ready :: "('h, 'qh) DnsResolver \<Rightarrow> bool" where
  "is_ready r \<longleftrightarrow> dns_socket r \<noteq> None"

definition DnsResolver_resolve ::
    "('h, 'qh, 's) dns_ops \<Rightarrow> str \<Rightarrow> ('h, 'qh) DnsResolver \<Rightarrow> 's
     \<Rightarrow> (NetError + 'qh DnsQueryHandle) \<times> ('h, 'qh) DnsResolver \<times> 's" where
  "DnsResolver_resolve D hostname r s =
     (case dns_socket r of
        None \<Rightarrow> (Inl DeviceNotReady, r, s)
      | Some h \<Rightarrow>
          (case start_dns_query D h hostname s of
             (Inr qh, s) \<Rightarrow>
               let i = next_id r;
                   r = r\<lparr>next_id := next_id r + 1, pending := pending r @ [(i, qh, hostname)]\<rparr>
               in (Inr \<lparr>query_handle = qh, query_id = i\<rparr>, r, s)
           | (Inl NoFreeSlot, s) \<Rightarrow> (Inl BufferFull, r, s)
           | (Inl InvalidName, s) \<Rightarrow> (Inl DnsError, r, s)
           | (Inl NameTooLong, s) \<Rightarrow> (Inl DnsError, r, s)))"

definition vec_remove :: "nat \<Rightarrow> 'a list \<Rightarrow> 'a list" where
  "vec_remove i xs = take i xs @ drop (Suc i) xs"

text \<open>The loop of \<open>poll\<close>, which removes what is finished and steps over what is not.\<close>

function poll_loop ::
    "('h, 'qh, 's) dns_ops \<Rightarrow> 'h \<Rightarrow> nat \<Rightarrow> (u16 \<times> 'qh \<times> str) list \<Rightarrow> (NetError + DnsResult) list \<Rightarrow> 's
     \<Rightarrow> (NetError + DnsResult) list \<times> (u16 \<times> 'qh \<times> str) list \<times> 's" where
  "poll_loop D h i qs results s =
     (if i < length qs then
        (case qs ! i of (_, qh, hostname) \<Rightarrow>
          (case get_query_result D h qh s of
             (Inr addrs, s) \<Rightarrow>
               poll_loop D h i (vec_remove i qs)
                 (results @ [Inr \<lparr>result_hostname = hostname, addresses = addrs\<rparr>]) s
           | (Inl QueryPending, s) \<Rightarrow> poll_loop D h (i + 1) qs results s
           | (Inl QueryFailed, s) \<Rightarrow> poll_loop D h i (vec_remove i qs) (results @ [Inl DnsError]) s))
      else (results, qs, s))"
  by pat_completeness auto

termination
  by (relation "measure (\<lambda>(D, h, i, qs, results, s). length qs - i)") (auto simp: vec_remove_def)

declare poll_loop.simps [simp del]

definition DnsResolver_poll ::
    "('h, 'qh, 's) dns_ops \<Rightarrow> ('h, 'qh) DnsResolver \<Rightarrow> 's
     \<Rightarrow> (NetError + DnsResult) list \<times> ('h, 'qh) DnsResolver \<times> 's" where
  "DnsResolver_poll D r s =
     (case dns_socket r of
        None \<Rightarrow> ([], r, s)
      | Some h \<Rightarrow>
          (case poll_loop D h 0 (pending r) [] s of
             (results, qs, s) \<Rightarrow> (results, r\<lparr>pending := qs\<rparr>, s)))"

fun position :: "('a \<Rightarrow> bool) \<Rightarrow> 'a list \<Rightarrow> nat option" where
  "position P [] = None"
| "position P (x # xs) = (if P x then Some 0 else map_option Suc (position P xs))"

definition DnsResolver_get_result ::
    "('h, 'qh, 's) dns_ops \<Rightarrow> 'qh DnsQueryHandle \<Rightarrow> ('h, 'qh) DnsResolver \<Rightarrow> 's
     \<Rightarrow> (NetError + DnsResult) option \<times> ('h, 'qh) DnsResolver \<times> 's" where
  "DnsResolver_get_result D query r s =
     (case dns_socket r of
        None \<Rightarrow> (None, r, s)
      | Some h \<Rightarrow>
          (let pos = position (\<lambda>(i, _, _). i = query_id query) (pending r) in
           case get_query_result D h (query_handle query) s of
             (Inr addrs, s) \<Rightarrow>
               (case pos of
                  Some p \<Rightarrow>
                    (case pending r ! p of (_, _, hostname) \<Rightarrow>
                       (Some (Inr \<lparr>result_hostname = hostname, addresses = addrs\<rparr>),
                        r\<lparr>pending := vec_remove p (pending r)\<rparr>, s))
                | None \<Rightarrow> (None, r, s))
           | (Inl QueryPending, s) \<Rightarrow> (None, r, s)
           | (Inl QueryFailed, s) \<Rightarrow>
               (case pos of
                  Some p \<Rightarrow> (Some (Inl DnsError), r\<lparr>pending := vec_remove p (pending r)\<rparr>, s)
                | None \<Rightarrow> (None, r, s))))"

definition DnsResolver_cancel :: "'qh DnsQueryHandle \<Rightarrow> ('h, 'qh) DnsResolver \<Rightarrow> ('h, 'qh) DnsResolver" where
  "DnsResolver_cancel query r =
     (case position (\<lambda>(i, _, _). i = query_id query) (pending r) of
        Some p \<Rightarrow> r\<lparr>pending := vec_remove p (pending r)\<rparr>
      | None \<Rightarrow> r)"

definition pending_count :: "('h, 'qh) DnsResolver \<Rightarrow> nat" where
  "pending_count r = length (pending r)"

section \<open>Parsing addresses\<close>

lemma split_on_append: "c \<notin> set p \<Longrightarrow> split_on c (p @ c # s) = p # split_on c s"
  by (induction p) auto

lemma split_on_single: "c \<notin> set p \<Longrightarrow> split_on c p = [p]"
  by (induction p) auto

lemma dot_show_nat: "CHR ''.'' \<notin> set (show_nat n)"
  using show_nat_digits [of "CHR ''.''" n] digit_char_neq(2) by force

lemma split_show_ipv4:
  "split_on (CHR ''.'') (show_ipv4 (Ipv4 a b c d))
     = [show_nat (unat a), show_nat (unat b), show_nat (unat c), show_nat (unat d)]"
  by (simp add: split_on_append split_on_single dot_show_nat)

lemma filter_map_all: "list_all2 (\<lambda>x y. f x = Some y) xs ys \<Longrightarrow> filter_map f xs = ys"
  by (induction rule: list_all2_induct) (simp_all add: filter_map_def)

section \<open>Polling\<close>

text \<open>The reference: every pending query is asked once, in order; the finished ones are reported in
  that order and the others stay, in that order.\<close>

fun poll_each ::
    "('h, 'qh, 's) dns_ops \<Rightarrow> 'h \<Rightarrow> (u16 \<times> 'qh \<times> str) list \<Rightarrow> 's
     \<Rightarrow> (NetError + DnsResult) list \<times> (u16 \<times> 'qh \<times> str) list \<times> 's" where
  "poll_each D h [] s = ([], [], s)"
| "poll_each D h ((i, qh, hostname) # qs) s =
     (case get_query_result D h qh s of (answer, s1) \<Rightarrow>
      case poll_each D h qs s1 of (results, kept, s2) \<Rightarrow>
      case answer of
        Inr addrs \<Rightarrow> (Inr \<lparr>result_hostname = hostname, addresses = addrs\<rparr> # results, kept, s2)
      | Inl QueryPending \<Rightarrow> (results, (i, qh, hostname) # kept, s2)
      | Inl QueryFailed \<Rightarrow> (Inl DnsError # results, kept, s2))"

lemma poll_loop_each:
  "poll_loop D h (length kept0) (kept0 @ qs) results0 s =
     (case poll_each D h qs s of (results, kept, s') \<Rightarrow> (results0 @ results, kept0 @ kept, s'))"
proof (induction qs arbitrary: kept0 results0 s)
  case Nil
  then show ?case
    by (simp add: poll_loop.simps)
next
  case (Cons q qs)
  obtain i qh hostname where q: "q = (i, qh, hostname)"
    by (cases q) auto
  obtain answer s1 where a: "get_query_result D h qh s = (answer, s1)"
    by (cases "get_query_result D h qh s")
  have rem: "vec_remove (length kept0) (kept0 @ q # qs) = kept0 @ qs"
    by (simp add: vec_remove_def)
  note IH = Cons.IH [of kept0 _ s1]
  show ?case
  proof (cases answer)
    case (Inr addrs)
    with IH a q rem show ?thesis
      by (subst poll_loop.simps) (simp split: prod.splits)
  next
    case (Inl e)
    show ?thesis
    proof (cases e)
      case QueryPending
      with Inl Cons.IH [of "kept0 @ [q]" _ s1] a q show ?thesis
        by (subst poll_loop.simps) (simp split: prod.splits)
    next
      case QueryFailed
      with Inl IH a q rem show ?thesis
        by (subst poll_loop.simps) (simp split: prod.splits)
    qed
  qed
qed

section \<open>Properties\<close>

text \<open>An address that is printed parses back to itself.\<close>

theorem parse_ipv4_roundtrip: "parse_ipv4 (show_ipv4 ip) = Some ip"
proof -
  obtain a b c d where ip: "ip = Ipv4 a b c d"
    by (cases ip)
  have "filter_map parse_u8 [show_nat (unat a), show_nat (unat b), show_nat (unat c), show_nat (unat d)] = [a, b, c, d]"
    by (rule filter_map_all) (simp add: parse_show_u8)
  then show ?thesis
    unfolding ip parse_ipv4_def Let_def split_show_ipv4 by simp
qed

text \<open>C39: The polling loop, which removes entries of the table it runs over, ends and asks every pending
  query exactly once, in order; it reports the finished ones and keeps the others, both in the
  order of the table.\<close>

theorem dns_poll_each:
  "DnsResolver_poll D r s =
     (case dns_socket r of
        None \<Rightarrow> ([], r, s)
      | Some h \<Rightarrow> (case poll_each D h (pending r) s of (results, kept, s') \<Rightarrow> (results, r\<lparr>pending := kept\<rparr>, s')))"
  using poll_loop_each [of D _ "[]"]
  by (auto simp: DnsResolver_poll_def split: option.splits prod.splits)

text \<open>A plus sign before an octet is accepted.\<close>

lemma parse_ipv4_plus: "parse_ipv4 ''+1.2.3.+4'' = Some (Ipv4 1 2 3 4)"
  by code_simp

end
