(* ===== verification/Sdk.thy ===== *)
theory Sdk
  imports Host_Spec
begin

text \<open>
  The userspace SDK (\<open>userspace/sdk/src/lib.rs\<close>): the wrappers a WebAssembly process calls around the
  host functions. Strings and buffers are an address and a length in the memory of the process. A
  host function that traps suspends the process inside the wrapper, so a wrapper has the outcome of
  the host function with the value translated.
\<close>

section \<open>Definitions\<close>

definition sdk_map :: "('a \<Rightarrow> 'b) \<Rightarrow> ('a, 'm, 'q, 'w) host_result \<Rightarrow> ('b, 'm, 'q, 'w) host_result" where
  "sdk_map f r = (map_outcome f (fst r), snd r)"

definition sdk_open ::
    "('q, 'w, 'm) host_env \<Rightarrow> i64 \<Rightarrow> i32 \<Rightarrow> i32 \<Rightarrow> 'm Caller \<Rightarrow> ('q, 'w) Kernel \<Rightarrow> (i64, 'm, 'q, 'w) host_result" where
  "sdk_open E dir_cap path_ptr path_len c k = sp_fs_open E dir_cap path_ptr path_len c k"

definition sdk_read ::
    "('q, 'w, 'm) host_env \<Rightarrow> i64 \<Rightarrow> i32 \<Rightarrow> i32 \<Rightarrow> u32 \<Rightarrow> 'm Caller \<Rightarrow> ('q, 'w) Kernel
     \<Rightarrow> (i32, 'm, 'q, 'w) host_result" where
  "sdk_read E file_cap buf_ptr buf_len offset c k = sp_fs_read E file_cap buf_ptr buf_len offset c k"

definition sdk_mkdir ::
    "('q, 'w, 'm) host_env \<Rightarrow> i64 \<Rightarrow> i32 \<Rightarrow> i32 \<Rightarrow> 'm Caller \<Rightarrow> ('q, 'w) Kernel \<Rightarrow> (i32, 'm, 'q, 'w) host_result" where
  "sdk_mkdir E dir_cap path_ptr path_len c k = sp_fs_mkdir E dir_cap path_ptr path_len c k"

definition sdk_close :: "i64 \<Rightarrow> 'm Caller \<Rightarrow> ('q, 'w) Kernel \<Rightarrow> (unit, 'm, 'q, 'w) host_result" where
  "sdk_close file_cap c k = sp_fs_close file_cap c k"

definition sdk_yield_now :: "'m Caller \<Rightarrow> ('q, 'w) Kernel \<Rightarrow> (unit, 'm, 'q, 'w) host_result" where
  "sdk_yield_now c k = sp_sched_yield c k"

datatype MutexHandle = MutexHandle i64
datatype SemHandle = SemHandle i64

text \<open>\<open>sync_error\<close>\<close>

definition sdk_MUTEX_LOCKED :: i32 where "sdk_MUTEX_LOCKED = - 11"
definition sdk_SEM_NO_PERMITS :: i32 where "sdk_SEM_NO_PERMITS = - 12"
definition sdk_INVALID_HANDLE :: i32 where "sdk_INVALID_HANDLE = - 13"

text \<open>The three ways the wrappers read a result.\<close>

definition handle_result :: "(i64 \<Rightarrow> 'h) \<Rightarrow> i64 \<Rightarrow> i32 + 'h" where
  "handle_result H result = (if sint result < 0 then Inl (ucast result) else Inr (H result))"

definition unit_result :: "i32 \<Rightarrow> i32 + unit" where
  "unit_result result = (if result = 0 then Inr () else Inl result)"

definition try_result :: "i32 \<Rightarrow> i32 \<Rightarrow> i32 + bool" where
  "try_result busy result = (if result = 0 then Inr True else if result = busy then Inr False else Inl result)"

definition mutex_create ::
    "('q, 'w, 'm) host_env \<Rightarrow> 'm Caller \<Rightarrow> ('q, 'w) Kernel \<Rightarrow> (i32 + MutexHandle, 'm, 'q, 'w) host_result" where
  "mutex_create E c k = sdk_map (handle_result MutexHandle) (sp_mutex_create E c k)"

fun mutex_lock ::
    "('q, 'w, 'm) host_env \<Rightarrow> MutexHandle \<Rightarrow> 'm Caller \<Rightarrow> ('q, 'w) Kernel \<Rightarrow> (i32 + unit, 'm, 'q, 'w) host_result" where
  "mutex_lock E (MutexHandle h) c k = sdk_map unit_result (sp_mutex_lock E h c k)"

fun mutex_try_lock ::
    "('q, 'w, 'm) host_env \<Rightarrow> MutexHandle \<Rightarrow> 'm Caller \<Rightarrow> ('q, 'w) Kernel \<Rightarrow> (i32 + bool, 'm, 'q, 'w) host_result" where
  "mutex_try_lock E (MutexHandle h) c k = sdk_map (try_result (- 11)) (sp_mutex_try_lock E h c k)"

fun mutex_unlock ::
    "MutexHandle \<Rightarrow> 'm Caller \<Rightarrow> ('q, 'w) Kernel \<Rightarrow> (i32 + unit, 'm, 'q, 'w) host_result" where
  "mutex_unlock (MutexHandle h) c k = sdk_map unit_result (sp_mutex_unlock h c k)"

definition sem_create ::
    "('q, 'w, 'm) host_env \<Rightarrow> u32 \<Rightarrow> 'm Caller \<Rightarrow> ('q, 'w) Kernel \<Rightarrow> (i32 + SemHandle, 'm, 'q, 'w) host_result" where
  "sem_create E n c k = sdk_map (handle_result SemHandle) (sp_sem_create E n c k)"

fun sem_acquire ::
    "bool list \<Rightarrow> SemHandle \<Rightarrow> 'm Caller \<Rightarrow> ('q, 'w) Kernel \<Rightarrow> (i32 + unit, 'm, 'q, 'w) host_result" where
  "sem_acquire sp (SemHandle h) c k = sdk_map unit_result (sp_sem_acquire sp h c k)"

fun sem_try_acquire ::
    "bool list \<Rightarrow> SemHandle \<Rightarrow> 'm Caller \<Rightarrow> ('q, 'w) Kernel \<Rightarrow> (i32 + bool, 'm, 'q, 'w) host_result" where
  "sem_try_acquire sp (SemHandle h) c k = sdk_map (try_result (- 12)) (sp_sem_try_acquire sp h c k)"

fun sem_release ::
    "('q, 'w, 'm) host_env \<Rightarrow> bool list \<Rightarrow> SemHandle \<Rightarrow> 'm Caller \<Rightarrow> ('q, 'w) Kernel
     \<Rightarrow> (i32 + unit, 'm, 'q, 'w) host_result" where
  "sem_release E sp (SemHandle h) c k = sdk_map unit_result (sp_sem_release E sp h c k)"

section \<open>A program\<close>

text \<open>A process that tries to acquire a permit again and again, with the outcomes in order; \<open>sps\<close> holds
  the spurious failures of each call.\<close>

fun try_acquire_all ::
    "bool list list \<Rightarrow> SemHandle \<Rightarrow> 'm Caller \<Rightarrow> ('q, 'w) Kernel \<Rightarrow> (i32 + bool) outcome list" where
  "try_acquire_all [] h c k = []"
| "try_acquire_all (sp # sps) h c k =
     (case sem_try_acquire sp h c k of (r, c', k') \<Rightarrow> r # try_acquire_all sps h c' k')"

section \<open>Lemmas\<close>

lemma sdk_codes:
  "sdk_MUTEX_LOCKED = as_i32 MUTEX_LOCKED" "sdk_SEM_NO_PERMITS = as_i32 SEM_NO_PERMITS"
  "sdk_INVALID_HANDLE = as_i32 INVALID_HANDLE"
  by (simp_all add: sdk_MUTEX_LOCKED_def sdk_SEM_NO_PERMITS_def sdk_INVALID_HANDLE_def as_i32_def MUTEX_LOCKED_def
      SEM_NO_PERMITS_def INVALID_HANDLE_def)

lemma sem_capability_fuel [simp]: "sem_capability (h\<lparr>fuel_remaining := f\<rparr>) = sem_capability h"
  by (simp add: sem_capability_def fun_eq_iff)

lemma sem_try_acquire_step:
  assumes "520 \<le> unat (fuel_remaining (host c))" "sem_capability (host c) h = Inr sem"
    and "get_semaphore (registry k) sem = Some s"
  shows "\<exists>c' k'. sem_try_acquire sp (SemHandle h) c k = (Ret (Inr (permits s \<noteq> 0)), c', k')
    \<and> unat (fuel_remaining (host c')) = unat (fuel_remaining (host c)) - 20
    \<and> sem_capability (host c') h = Inr sem
    \<and> get_semaphore (registry k') sem = Some (if permits s = 0 then s else s\<lparr>permits := permits s - 1\<rparr>)"
proof -
  have f: "unat SYNC_OPERATION + 500 \<le> unat (fuel_remaining (host c))"
    using assms(1) by (simp add: SYNC_OPERATION_def)
  have "unat (fuel_remaining (host c) - SYNC_OPERATION) = unat (fuel_remaining (host c)) - 20"
    using unat_fuel_after [OF f] by (simp add: SYNC_OPERATION_def)
  then show ?thesis
    using assms(2,3)
    by (auto simp: sp_sem_try_acquire_def check_fuel_enough [OF f] try_acquire_once sdk_map_def try_result_def
        SEM_NO_PERMITS_def as_i32_def)
qed

lemma try_acquire_all_counts:
  "500 + 20 * length sps \<le> unat (fuel_remaining (host c)) \<Longrightarrow> sem_capability (host c) h = Inr sem \<Longrightarrow>
   get_semaphore (registry k) sem = Some s \<Longrightarrow> unat (permits s) = n \<Longrightarrow>
     try_acquire_all sps (SemHandle h) c k
       = map (\<lambda>i. Ret (Inr (i < n))) [0..<length sps]"
proof (induction sps arbitrary: c k s n)
  case (Cons sp sps)
  have "520 \<le> unat (fuel_remaining (host c))"
    using Cons.prems(1) by simp
  from sem_try_acquire_step [OF this Cons.prems(2,3), of sp] obtain c' k' where
    st: "sem_try_acquire sp (SemHandle h) c k = (Ret (Inr (permits s \<noteq> 0)), c', k')"
      "unat (fuel_remaining (host c')) = unat (fuel_remaining (host c)) - 20"
      "sem_capability (host c') h = Inr sem"
      "get_semaphore (registry k') sem = Some (if permits s = 0 then s else s\<lparr>permits := permits s - 1\<rparr>)"
    by blast
  have n: "unat (permits (if permits s = 0 then s else s\<lparr>permits := permits s - 1\<rparr>)) = n - 1"
    using Cons.prems(4) by (auto simp: unat_minus_one)
  have "permits s \<noteq> 0 \<longleftrightarrow> 0 < n"
    using Cons.prems(4) by (auto simp: unat_eq_0 [symmetric] simp del: unat_eq_zero)
  with Cons.IH [OF _ st(3,4) n] st Cons.prems(1) show ?case
    by (simp add: upt_conv_Cons map_Suc_upt [symmetric] less_diff_conv del: upt_Suc)
qed simp

lemma cap_id_nonneg: "0 \<le> sint (CapId_as_u64 (CapId i 0))"
proof -
  have "\<not> bit (CapId_as_u64 (CapId i 0)) 63"
    by (simp add: bit_CapId_as_u64)
  then show ?thesis
    using bit_last_iff [of "CapId_as_u64 (CapId i 0)"] by simp
qed

lemma sem_create_step:
  assumes "550 \<le> unat (fuel_remaining (host c))" "unat n < 2 ^ 31"
  shows "\<exists>h sem s c' k'. sem_create E n c k = (Ret (Inr (SemHandle h)), c', k')
    \<and> unat (fuel_remaining (host c')) = unat (fuel_remaining (host c)) - 50
    \<and> sem_capability (host c') h = Inr sem \<and> get_semaphore (registry k') sem = Some s \<and> unat (permits s) = unat n"
proof -
  have f: "unat SYNC_CREATE + 500 \<le> unat (fuel_remaining (host c))"
    using assms(1) by (simp add: SYNC_CREATE_def)
  have fuel: "unat (fuel_remaining (host c) - SYNC_CREATE) = unat (fuel_remaining (host c)) - 50"
    using unat_fuel_after [OF f] by (simp add: SYNC_CREATE_def)
  have n: "\<not> sint n < 0" "unat (scast n :: usize) = unat n"
    using assms(2) sint_i32 [of n] i32_as_usize_small [of n] by (auto simp: i32_as_usize_def)
  let ?cap = "CapId (next_cap_index k) 0"
  obtain sem r where r: "create_semaphore (queue E) (scast n) (registry k) = (sem, r)"
    by (cases "create_semaphore (queue E) (scast n) (registry k)")
  have "sp_sem_create E n c k = (Ret (CapId_as_u64 ?cap), c\<lparr>host := (host c)
      \<lparr>fuel_remaining := fuel_remaining (host c) - SYNC_CREATE,
       capabilities := bt_insert ?cap \<lparr>cap_id = ?cap, cap_rights = CALL, cap_object = Semaphore sem, cap_gen = 0\<rparr>
         (capabilities (host c))\<rparr>\<rparr>, k\<lparr>registry := r, next_cap_index := next_cap_index k + 1\<rparr>)"
    by (simp add: sp_sem_create_def check_fuel_enough [OF f] n(1) r new_capability_def Capability_new_def
        fetch_add_one_def add_capability_def Let_def)
  moreover have "rights_contains CALL CALL"
    by (simp add: rights_contains_def)
  ultimately show ?thesis
    using fuel cap_id_nonneg [of "next_cap_index k"] create_semaphore_get [OF r, of sem] n(2)
    by (auto simp: sem_create_def sdk_map_def handle_result_def sem_capability_def get_capability_def Semaphore_new_def)
qed

section \<open>Properties\<close>

text \<open>C18: A semaphore that a process creates with \<open>n\<close> permits through the SDK lets exactly the first \<open>n\<close> of
  any number of attempts succeed, as long as the fuel of the process lasts, and every later attempt
  reports that there is no permit.\<close>

theorem sdk_semaphore_counts:
  assumes "550 + 20 * length sps \<le> unat (fuel_remaining (host c))" "unat n < 2 ^ 31"
  shows "\<exists>h c' k'. sem_create E n c k = (Ret (Inr h), c', k')
    \<and> try_acquire_all sps h c' k' = map (\<lambda>i. Ret (Inr (i < unat n))) [0..<length sps]"
proof -
  obtain h sem s c' k' where "sem_create E n c k = (Ret (Inr (SemHandle h)), c', k')"
    "unat (fuel_remaining (host c')) = unat (fuel_remaining (host c)) - 50"
    "sem_capability (host c') h = Inr sem" "get_semaphore (registry k') sem = Some s" "unat (permits s) = unat n"
    using sem_create_step [OF _ assms(2), of c E k] assms(1) by auto
  with try_acquire_all_counts [of sps c' h sem k' s] assms(1) show ?thesis
    by auto
qed

theorem sdk_semaphore_counts_witness:
  "\<exists>h c' k'. sem_create demo_env 2 demo_process demo_kernel = (Ret (Inr h), c', k')
    \<and> try_acquire_all [[], [True, False], []] h c' k' = [Ret (Inr True), Ret (Inr True), Ret (Inr False)]"
  using sdk_semaphore_counts [of "[[], [True, False], []]" demo_process 2 demo_env demo_kernel]
  by (simp add: demo_process_eval upt_rec)

end
