(* ===== verification/Keyboard.thy ===== *)
theory Keyboard
  imports Array_Queue Sync
begin

text \<open>
  The keyboard's scancode queue (\<open>task/keyboard.rs\<close>): the interrupt handler adds scancodes, the stream
  takes them out. The queue is a \<open>Once\<close> cell that \<open>ScancodeStream::new\<close> fills. The \<open>AtomicWaker\<close> of the
  \<open>futures_util\<close> crate is a parameter; the locale \<open>atomic_waker\<close> states its documented behaviour: a cell
  for one waker, which \<open>register\<close> fills and \<open>wake\<close> and \<open>take\<close> empty. Interrupts may arrive between the
  steps of a poll.
\<close>

section \<open>The waker cell\<close>

record ('a, 'w) waker_ops =
  aw_new :: 'a
  aw_register :: "'w \<Rightarrow> 'a \<Rightarrow> 'a"
  aw_take :: "'a \<Rightarrow> 'w option \<times> 'a"

definition option_waker_ops :: "('w option, 'w) waker_ops" where
  "option_waker_ops = \<lparr>aw_new = None, aw_register = (\<lambda>w a. Some w), aw_take = (\<lambda>a. (a, None))\<rparr>"

locale atomic_waker =
  fixes A :: "('a, 'w) waker_ops"
    and held_waker :: "'a \<Rightarrow> 'w option"
  assumes held_new: "held_waker (aw_new A) = None"
    and held_register: "held_waker (aw_register A w a) = Some w"
    and take_held: "aw_take A a = (r, a') \<Longrightarrow> r = held_waker a \<and> held_waker a' = None"

interpretation ow: atomic_waker option_waker_ops "\<lambda>a. a"
  by unfold_locales (auto simp: option_waker_ops_def)

section \<open>The keyboard\<close>

record ('q, 'a) Keyboard =
  SCANCODE_QUEUE :: "'q option"
  WAKER :: 'a

text \<open>The handler's part: the waker that is woken, if any.\<close>

definition add_scancode ::
    "('q, u8) queue_ops \<Rightarrow> ('a, 'w) waker_ops \<Rightarrow> u8 \<Rightarrow> ('q, 'a) Keyboard \<Rightarrow> 'w option \<times> ('q, 'a) Keyboard" where
  "add_scancode Q A scancode kb =
     (case SCANCODE_QUEUE kb of
        None \<Rightarrow> (None, kb)
      | Some q \<Rightarrow>
          (case aq_push Q q scancode of
             (q', False) \<Rightarrow> (None, kb\<lparr>SCANCODE_QUEUE := Some q'\<rparr>)
           | (q', True) \<Rightarrow>
               let (w, a) = aw_take A (WAKER kb) in (w, kb\<lparr>SCANCODE_QUEUE := Some q', WAKER := a\<rparr>)))"

definition add_scancodes ::
    "('q, u8) queue_ops \<Rightarrow> ('a, 'w) waker_ops \<Rightarrow> u8 list \<Rightarrow> ('q, 'a) Keyboard \<Rightarrow> ('q, 'a) Keyboard" where
  "add_scancodes Q A scancodes kb = fold (\<lambda>c kb. snd (add_scancode Q A c kb)) scancodes kb"

definition ScancodeStream_new :: "('q, u8) queue_ops \<Rightarrow> ('q, 'a) Keyboard \<Rightarrow> ('q, 'a) Keyboard" where
  "ScancodeStream_new Q kb =
     (case SCANCODE_QUEUE kb of
        None \<Rightarrow> kb\<lparr>SCANCODE_QUEUE := Some (aq_new Q 100)\<rparr>
      | Some _ \<Rightarrow> kb)"

text \<open>One poll; the scancodes \<open>before\<close> and \<open>after\<close> arrive before and after the waker is registered. A
  stream polled while the queue does not exist panics (\<open>None\<close>).\<close>

definition poll_next ::
    "('q, u8) queue_ops \<Rightarrow> ('a, 'w) waker_ops \<Rightarrow> u8 list \<Rightarrow> u8 list \<Rightarrow> 'w \<Rightarrow> ('q, 'a) Keyboard
     \<Rightarrow> (u8 option Poll \<times> ('q, 'a) Keyboard) option" where
  "poll_next Q A before after waker kb =
     (case SCANCODE_QUEUE kb of
        None \<Rightarrow> None
      | Some q \<Rightarrow>
          (case aq_pop Q q of
             (q', Some c) \<Rightarrow> Some (Ready (Some c), kb\<lparr>SCANCODE_QUEUE := Some q'\<rparr>)
           | (q', None) \<Rightarrow>
               let kb = add_scancodes Q A before (kb\<lparr>SCANCODE_QUEUE := Some q'\<rparr>);
                   kb = kb\<lparr>WAKER := aw_register A waker (WAKER kb)\<rparr>;
                   kb = add_scancodes Q A after kb
               in (case SCANCODE_QUEUE kb of
                     None \<Rightarrow> None
                   | Some q \<Rightarrow>
                       (case aq_pop Q q of
                          (q', Some c) \<Rightarrow>
                            Some (Ready (Some c), kb\<lparr>SCANCODE_QUEUE := Some q', WAKER := snd (aw_take A (WAKER kb))\<rparr>)
                        | (q', None) \<Rightarrow> Some (Pending, kb\<lparr>SCANCODE_QUEUE := Some q'\<rparr>)))))"

text \<open>A poll of \<open>print_keypresses\<close> that no interrupt interrupts, from the loop on: it prints scancodes (collected in
  \<open>out\<close>) until the stream is pending. The inner \<open>None\<close> is a panic; the first poll creates the stream before.\<close>

partial_function (option) print_keypresses_loop ::
    "('q, u8) queue_ops \<Rightarrow> ('a, 'w) waker_ops \<Rightarrow> 'w \<Rightarrow> u8 list \<Rightarrow> ('q, 'a) Keyboard
     \<Rightarrow> (unit Poll \<times> u8 list \<times> ('q, 'a) Keyboard) option option" where
  "print_keypresses_loop Q A waker out kb =
     (case poll_next Q A [] [] waker kb of
        None \<Rightarrow> Some None
      | Some (Pending, kb) \<Rightarrow> Some (Some (Pending, out, kb))
      | Some (Ready None, kb) \<Rightarrow> Some (Some (Ready (), out, kb))
      | Some (Ready (Some scancode), kb) \<Rightarrow> print_keypresses_loop Q A waker (out @ [scancode]) kb)"

definition print_keypresses where
  "print_keypresses Q A waker kb = print_keypresses_loop Q A waker [] (ScancodeStream_new Q kb)"

text \<open>\<open>get_scancode\<close> of \<open>main.rs\<close>, which the terminal task polls.\<close>

definition get_scancode :: "('q, u8) queue_ops \<Rightarrow> ('q, 'a) Keyboard \<Rightarrow> u8 option \<times> ('q, 'a) Keyboard" where
  "get_scancode Q kb =
     (case SCANCODE_QUEUE kb of
        None \<Rightarrow> (None, kb)
      | Some q \<Rightarrow> (case aq_pop Q q of (q', r) \<Rightarrow> (r, kb\<lparr>SCANCODE_QUEUE := Some q'\<rparr>)))"

text \<open>The statics at boot.\<close>

definition Keyboard_init :: "('a, 'w) waker_ops \<Rightarrow> ('q, 'a) Keyboard" where
  "Keyboard_init A = \<lparr>SCANCODE_QUEUE = None, WAKER = aw_new A\<rparr>"

section \<open>Lemmas\<close>

locale keyboard_parts = array_queue Q items capacity + atomic_waker A held_waker
  for Q :: "('q, u8) queue_ops" and items capacity and A :: "('a, 'w) waker_ops" and held_waker
begin

lemma add_scancodes_queue:
  "SCANCODE_QUEUE kb = Some q \<Longrightarrow>
     \<exists>q'. SCANCODE_QUEUE (add_scancodes Q A cs kb) = Some q' \<and> capacity q' = capacity q
       \<and> (items q' = items q \<longrightarrow> WAKER (add_scancodes Q A cs kb) = WAKER kb)
       \<and> (\<exists>ds. items q' = items q @ ds)"
proof (induction cs arbitrary: kb q)
  case Nil
  then show ?case
    by (simp add: add_scancodes_def)
next
  case (Cons c cs)
  obtain q1 ok where push: "aq_push Q q c = (q1, ok)"
    by (cases "aq_push Q q c")
  obtain w kb1 where kb1: "add_scancode Q A c kb = (w, kb1)"
    by (cases "add_scancode Q A c kb")
  have q1: "SCANCODE_QUEUE kb1 = Some q1" "\<not> ok \<Longrightarrow> WAKER kb1 = WAKER kb"
    using kb1 push Cons.prems by (auto simp: add_scancode_def split: bool.splits prod.splits)
  obtain q' where q': "SCANCODE_QUEUE (add_scancodes Q A cs kb1) = Some q'" "capacity q' = capacity q1"
    "items q' = items q1 \<longrightarrow> WAKER (add_scancodes Q A cs kb1) = WAKER kb1" "\<exists>ds. items q' = items q1 @ ds"
    using Cons.IH [OF q1(1)] by blast
  from push show ?case
    by (cases rule: push_cases) (use q' q1 kb1 in \<open>auto simp: add_scancodes_def\<close>)
qed

lemma poll_pending:
  assumes "poll_next Q A before after w kb = Some (Pending, kb')" "SCANCODE_QUEUE kb = Some q"
  shows "\<exists>q'. SCANCODE_QUEUE kb' = Some q' \<and> items q' = [] \<and> capacity q' = capacity q
    \<and> held_waker (WAKER kb') = Some w"
proof -
  obtain q1 where pop1: "aq_pop Q q = (q1, None)"
    using assms by (auto simp: poll_next_def split: prod.splits option.splits)
  have e1: "q1 = q" "items q = []"
    using pop1 by (auto elim: pop_cases)
  define kb1 where "kb1 = add_scancodes Q A before (kb\<lparr>SCANCODE_QUEUE := Some q1\<rparr>)"
  define kb2 where "kb2 = kb1\<lparr>WAKER := aw_register A w (WAKER kb1)\<rparr>"
  define kb3 where "kb3 = add_scancodes Q A after kb2"
  obtain q2 where q2: "SCANCODE_QUEUE kb2 = Some q2" "capacity q2 = capacity q" "\<exists>ds. items q2 = items q @ ds"
    using add_scancodes_queue [of "kb\<lparr>SCANCODE_QUEUE := Some q1\<rparr>" q1 before] e1 by (auto simp: kb1_def kb2_def)
  obtain q3 where q3: "SCANCODE_QUEUE kb3 = Some q3" "capacity q3 = capacity q2"
    "items q3 = items q2 \<longrightarrow> WAKER kb3 = WAKER kb2" "\<exists>ds. items q3 = items q2 @ ds"
    using add_scancodes_queue [OF q2(1), of after] by (auto simp: kb3_def)
  obtain q4 r where pop2: "aq_pop Q q3 = (q4, r)"
    by (cases "aq_pop Q q3")
  from assms pop1 q3(1) pop2 have r: "r = None" "kb' = kb3\<lparr>SCANCODE_QUEUE := Some q4\<rparr>"
    by (auto simp: poll_next_def Let_def kb1_def kb2_def kb3_def split: option.splits)
  have e2: "q4 = q3" "items q3 = []"
    using pop2 r(1) by (auto elim: pop_cases)
  with q3(3,4) have "WAKER kb3 = WAKER kb2"
    by auto
  then have "held_waker (WAKER kb3) = Some w"
    by (simp add: kb2_def held_register)
  with r(2) e2 q3(2) q2(2) show ?thesis
    by simp
qed

lemma poll_next_item:
  assumes "SCANCODE_QUEUE kb = Some q" "items q = c # cs"
  shows "\<exists>q'. poll_next Q A before after w kb = Some (Ready (Some c), kb\<lparr>SCANCODE_QUEUE := Some q'\<rparr>) \<and> items q' = cs"
  using pop_some [OF assms(2)] assms(1) by (auto simp: poll_next_def)

lemma poll_next_idle:
  assumes "SCANCODE_QUEUE kb = Some q" "items q = []"
  shows "\<exists>kb'. poll_next Q A [] [] w kb = Some (Pending, kb')"
  using pop_none [OF assms(2)] assms(1) by (simp add: poll_next_def add_scancodes_def)

text \<open>The echo task prints every queued scancode in order and then waits with its waker registered.\<close>

lemma print_keypresses_drains:
  "SCANCODE_QUEUE kb = Some q \<Longrightarrow> \<exists>kb' q'. print_keypresses_loop Q A w out kb = Some (Some (Pending, out @ items q, kb'))
     \<and> SCANCODE_QUEUE kb' = Some q' \<and> items q' = [] \<and> held_waker (WAKER kb') = Some w"
proof (induction "items q" arbitrary: q kb out)
  case Nil
  obtain kb' where kb': "poll_next Q A [] [] w kb = Some (Pending, kb')"
    using poll_next_idle [OF Nil(2) Nil(1) [symmetric]] by blast
  with poll_pending [OF kb' Nil(2)] Nil(1) show ?case
    by (subst print_keypresses_loop.simps) auto
next
  case (Cons c cs)
  obtain q' where q': "poll_next Q A [] [] w kb = Some (Ready (Some c), kb\<lparr>SCANCODE_QUEUE := Some q'\<rparr>)" "items q' = cs"
    using poll_next_item [OF Cons(3) Cons(2) [symmetric]] by blast
  with Cons(1) [of q' "kb\<lparr>SCANCODE_QUEUE := Some q'\<rparr>" "out @ [c]"] Cons(2) show ?case
    by (subst print_keypresses_loop.simps) auto
qed

lemma scancode_wakes:
  assumes "SCANCODE_QUEUE kb = Some q" "length (items q) < capacity q"
  shows "\<exists>kb' q'. add_scancode Q A c kb = (held_waker (WAKER kb), kb') \<and> SCANCODE_QUEUE kb' = Some q'
    \<and> items q' = items q @ [c]"
proof -
  obtain q' where push: "aq_push Q q c = (q', True)" "items q' = items q @ [c]"
    using push_room [OF assms(2)] by blast
  obtain r a where "aw_take A (WAKER kb) = (r, a)"
    by (cases "aw_take A (WAKER kb)")
  with take_held [OF this] push assms(1) show ?thesis
    by (simp add: add_scancode_def)
qed

end

interpretation kp: keyboard_parts list_queue_ops snd fst option_waker_ops "\<lambda>a. a"
  by unfold_locales

section \<open>Properties\<close>

text \<open>C38: No wakeup is lost: if a poll of the scancode stream is pending, whenever interrupts arrived
  during it, then the queue is empty and the next scancode is queued and wakes the task.\<close>

theorem keyboard_no_lost_wakeup:
  assumes "array_queue Q items capacity" "atomic_waker A held_waker"
    and "SCANCODE_QUEUE kb = Some q" "0 < capacity q" "poll_next Q A before after w kb = Some (Pending, kb')"
  shows "\<exists>kb'' q'. add_scancode Q A c kb' = (Some w, kb'') \<and> SCANCODE_QUEUE kb'' = Some q' \<and> items q' = [c]"
proof -
  have kp: "keyboard_parts Q items capacity A held_waker"
    using assms(1,2) by (rule keyboard_parts.intro)
  obtain q' where "SCANCODE_QUEUE kb' = Some q'" "items q' = []" "capacity q' = capacity q"
    "held_waker (WAKER kb') = Some w"
    using keyboard_parts.poll_pending [OF kp assms(5,3)] by blast
  with keyboard_parts.scancode_wakes [OF kp, of kb' q' c] assms(4) show ?thesis
    by auto
qed

theorem keyboard_no_lost_wakeup_witness:
  "\<exists>kb'. poll_next list_queue_ops option_waker_ops [] [] (7 :: nat)
       (ScancodeStream_new list_queue_ops (Keyboard_init option_waker_ops)) = Some (Pending, kb')
     \<and> (\<exists>kb'' q'. add_scancode list_queue_ops option_waker_ops 30 kb' = (Some 7, kb'')
          \<and> SCANCODE_QUEUE kb'' = Some q' \<and> snd q' = [30])"
proof -
  let ?kb = "\<lparr>SCANCODE_QUEUE = Some (100, []), WAKER = None\<rparr> :: (nat \<times> u8 list, nat option) Keyboard"
  let ?kb' = "\<lparr>SCANCODE_QUEUE = Some (100, []), WAKER = Some 7\<rparr> :: (nat \<times> u8 list, nat option) Keyboard"
  have kb: "ScancodeStream_new list_queue_ops (Keyboard_init option_waker_ops) = ?kb"
    by (simp add: ScancodeStream_new_def Keyboard_init_def list_queue_ops_def option_waker_ops_def)
  have p: "poll_next list_queue_ops option_waker_ops [] [] 7 ?kb = Some (Pending, ?kb')"
    by (simp add: poll_next_def list_queue_ops_def option_waker_ops_def add_scancodes_def)
  from keyboard_no_lost_wakeup [OF lq.array_queue_axioms ow.atomic_waker_axioms _ _ p, of "(100, [])" 30] p show ?thesis
    unfolding kb by simp
qed

text \<open>Until a \<open>ScancodeStream\<close> is created the keyboard is dead: whatever scancodes arrive after boot,
  \<open>get_scancode\<close>, through which the terminal reads its keys, returns nothing.\<close>

theorem keyboard_dead_at_boot:
  "get_scancode Q (add_scancodes Q A cs (Keyboard_init A)) = (None, Keyboard_init A)"
proof -
  have "add_scancodes Q A cs (Keyboard_init A) = Keyboard_init A"
    unfolding add_scancodes_def by (induction cs) (simp_all add: add_scancode_def Keyboard_init_def)
  then show ?thesis
    by (simp add: get_scancode_def Keyboard_init_def)
qed

end
