(* ===== verification/Pci.thy ===== *)
theory Pci
  imports Prelude
begin

text \<open>
  PCI configuration space (\<open>arch/x86_64/pci.rs\<close>): addresses, register access of 32, 16 and 8 bits
  through the ports 0xCF8 and 0xCFC, and the scan for network controllers. The ports are hardware: a
  parameter with a state of its own. The locale \<open>config_mechanism\<close> states configuration mechanism 1 of
  the PCI specification, \<open>command_register\<close> what the specification says of writes to the register that
  holds Command and Status.
\<close>

section \<open>Definitions\<close>

definition PCI_CONFIG_ADDRESS :: u16 where "PCI_CONFIG_ADDRESS = 0x0CF8"
definition PCI_CONFIG_DATA :: u16 where "PCI_CONFIG_DATA = 0x0CFC"
definition PCI_VENDOR_ID_NONE :: u16 where "PCI_VENDOR_ID_NONE = 0xFFFF"
definition PCI_VENDOR_INTEL :: u16 where "PCI_VENDOR_INTEL = 0x8086"
definition PCI_DEVICE_E1000_82540EM :: u16 where "PCI_DEVICE_E1000_82540EM = 0x100E"
definition PCI_DEVICE_E1000_82545EM :: u16 where "PCI_DEVICE_E1000_82545EM = 0x100F"
definition PCI_DEVICE_E1000E_82574L :: u16 where "PCI_DEVICE_E1000E_82574L = 0x10D3"

definition VENDOR_ID :: u8 where "VENDOR_ID = 0x00"
definition DEVICE_ID :: u8 where "DEVICE_ID = 0x02"
definition COMMAND :: u8 where "COMMAND = 0x04"
definition CLASS_CODE :: u8 where "CLASS_CODE = 0x09"
definition HEADER_TYPE :: u8 where "HEADER_TYPE = 0x0E"
definition BAR0 :: u8 where "BAR0 = 0x10"
definition BAR1 :: u8 where "BAR1 = 0x14"
definition INTERRUPT_LINE :: u8 where "INTERRUPT_LINE = 0x3C"

definition MEM_SPACE :: u16 where "MEM_SPACE = push_bit 1 1"
definition BUS_MASTER :: u16 where "BUS_MASTER = push_bit 2 1"

lemmas pci_constants =
  PCI_CONFIG_ADDRESS_def PCI_CONFIG_DATA_def PCI_VENDOR_ID_NONE_def PCI_VENDOR_INTEL_def
  PCI_DEVICE_E1000_82540EM_def PCI_DEVICE_E1000_82545EM_def PCI_DEVICE_E1000E_82574L_def
  VENDOR_ID_def DEVICE_ID_def COMMAND_def CLASS_CODE_def HEADER_TYPE_def BAR0_def BAR1_def
  INTERRUPT_LINE_def

record 'h port_ops =
  port_out32 :: "u16 \<Rightarrow> u32 \<Rightarrow> 'h \<Rightarrow> 'h"
  port_in32 :: "u16 \<Rightarrow> 'h \<Rightarrow> u32 \<times> 'h"

record PciAddress =
  pci_bus :: u8
  pci_device :: u8
  pci_function :: u8

definition PciAddress_new :: "u8 \<Rightarrow> u8 \<Rightarrow> u8 \<Rightarrow> PciAddress" where
  "PciAddress_new bus device func = \<lparr>pci_bus = bus, pci_device = device, pci_function = func\<rparr>"

definition config_address :: "PciAddress \<Rightarrow> u8 \<Rightarrow> u32" where
  "config_address a offset =
     0x80000000 OR push_bit 16 (ucast (pci_bus a)) OR push_bit 11 (ucast (pci_device a))
     OR push_bit 8 (ucast (pci_function a)) OR ucast (offset AND 0xFC)"

definition read_config_u32 :: "'h port_ops \<Rightarrow> PciAddress \<Rightarrow> u8 \<Rightarrow> 'h \<Rightarrow> u32 \<times> 'h" where
  "read_config_u32 P a offset h =
     port_in32 P PCI_CONFIG_DATA (port_out32 P PCI_CONFIG_ADDRESS (config_address a offset) h)"

definition write_config_u32 :: "'h port_ops \<Rightarrow> PciAddress \<Rightarrow> u8 \<Rightarrow> u32 \<Rightarrow> 'h \<Rightarrow> 'h" where
  "write_config_u32 P a offset v h =
     port_out32 P PCI_CONFIG_DATA v (port_out32 P PCI_CONFIG_ADDRESS (config_address a offset) h)"

definition read_config_u16 :: "'h port_ops \<Rightarrow> PciAddress \<Rightarrow> u8 \<Rightarrow> 'h \<Rightarrow> u16 \<times> 'h" where
  "read_config_u16 P a offset h =
     (let (dword, h) = read_config_u32 P a (offset AND 0xFC) h;
          shift = unat ((offset AND 2) * 8)
      in (ucast (drop_bit shift dword AND 0xFFFF), h))"

definition write_config_u16 :: "'h port_ops \<Rightarrow> PciAddress \<Rightarrow> u8 \<Rightarrow> u16 \<Rightarrow> 'h \<Rightarrow> 'h" where
  "write_config_u16 P a offset v h =
     (let aligned_offset = offset AND 0xFC;
          shift = unat ((offset AND 2) * 8);
          (dword, h) = read_config_u32 P a aligned_offset h;
          dword = dword AND NOT (push_bit shift 0xFFFF);
          dword = dword OR push_bit shift (ucast v)
      in write_config_u32 P a aligned_offset dword h)"

definition read_config_u8 :: "'h port_ops \<Rightarrow> PciAddress \<Rightarrow> u8 \<Rightarrow> 'h \<Rightarrow> u8 \<times> 'h" where
  "read_config_u8 P a offset h =
     (let (dword, h) = read_config_u32 P a (offset AND 0xFC) h;
          shift = unat ((offset AND 3) * 8)
      in (ucast (drop_bit shift dword AND 0xFF), h))"

record PciDevice =
  addr :: PciAddress
  vendor_id :: u16
  device_id :: u16
  class_code :: u32
  bar0 :: u32
  bar1 :: u32
  irq :: u8

definition PciDevice_read :: "'h port_ops \<Rightarrow> PciAddress \<Rightarrow> 'h \<Rightarrow> PciDevice option \<times> 'h" where
  "PciDevice_read P a h =
     (let (vendor, h) = read_config_u16 P a VENDOR_ID h in
      if vendor = PCI_VENDOR_ID_NONE then (None, h)
      else
        let (device, h) = read_config_u16 P a DEVICE_ID h;
            (class_dword, h) = read_config_u32 P a CLASS_CODE h;
            (b0, h) = read_config_u32 P a BAR0 h;
            (b1, h) = read_config_u32 P a BAR1 h;
            (line, h) = read_config_u8 P a INTERRUPT_LINE h
        in (Some \<lparr>addr = a, vendor_id = vendor, device_id = device, class_code = drop_bit 8 class_dword,
                  bar0 = b0, bar1 = b1, irq = line\<rparr>, h))"

definition is_e1000 :: "PciDevice \<Rightarrow> bool" where
  "is_e1000 d \<longleftrightarrow> vendor_id d = PCI_VENDOR_INTEL
     \<and> (device_id d = PCI_DEVICE_E1000_82540EM \<or> device_id d = PCI_DEVICE_E1000_82545EM
        \<or> device_id d = PCI_DEVICE_E1000E_82574L)"

definition mmio_base :: "PciDevice \<Rightarrow> u64 option" where
  "mmio_base d =
     (if bar0 d AND 1 \<noteq> 0 then None
      else
        let bar_type = drop_bit 1 (bar0 d) AND 0x3;
            base = ucast (bar0 d AND 0xFFFFFFF0) :: u64
        in if bar_type = 0 then Some base
           else if bar_type = 2 then Some (push_bit 32 (ucast (bar1 d)) OR base)
           else None)"

definition PciDevice_enable :: "'h port_ops \<Rightarrow> PciDevice \<Rightarrow> 'h \<Rightarrow> 'h" where
  "PciDevice_enable P d h =
     (let (current, h) = read_config_u16 P (addr d) COMMAND h;
          new_cmd = current OR MEM_SPACE OR BUS_MASTER
      in write_config_u16 P (addr d) COMMAND new_cmd h)"

text \<open>The scan, with the callback acting on a state of its own.\<close>

definition scan_function ::
    "'h port_ops \<Rightarrow> (PciDevice \<Rightarrow> 'c \<Rightarrow> 'c) \<Rightarrow> u8 \<Rightarrow> u8 \<Rightarrow> u8 \<Rightarrow> 'c \<times> 'h \<Rightarrow> 'c \<times> 'h" where
  "scan_function P callback bus device func = (\<lambda>(c, h).
     case PciDevice_read P (PciAddress_new bus device func) h of
       (Some dev, h) \<Rightarrow> (callback dev c, h)
     | (None, h) \<Rightarrow> (c, h))"

definition scan_slot ::
    "'h port_ops \<Rightarrow> (PciDevice \<Rightarrow> 'c \<Rightarrow> 'c) \<Rightarrow> u8 \<Rightarrow> u8 \<Rightarrow> 'c \<times> 'h \<Rightarrow> 'c \<times> 'h" where
  "scan_slot P callback bus device = (\<lambda>(c, h).
     case PciDevice_read P (PciAddress_new bus device 0) h of
       (None, h) \<Rightarrow> (c, h)
     | (Some dev, h) \<Rightarrow>
         let c = callback dev c;
             (header_type, h) = read_config_u8 P (PciAddress_new bus device 0) HEADER_TYPE h
         in if header_type AND 0x80 \<noteq> 0
            then fold (\<lambda>func. scan_function P callback bus device (of_nat func)) [1..<8] (c, h)
            else (c, h))"

definition scan :: "'h port_ops \<Rightarrow> (PciDevice \<Rightarrow> 'c \<Rightarrow> 'c) \<Rightarrow> 'c \<times> 'h \<Rightarrow> 'c \<times> 'h" where
  "scan P callback =
     fold (\<lambda>bus. fold (\<lambda>device. scan_slot P callback (of_nat bus) (of_nat device)) [0..<32]) [0..<256]"

definition find_e1000 :: "'h port_ops \<Rightarrow> 'h \<Rightarrow> PciDevice option \<times> 'h" where
  "find_e1000 P h =
     scan P (\<lambda>dev result. if result = None \<and> is_e1000 dev then Some dev else result) (None, h)"

section \<open>Addresses\<close>

definition valid_address :: "PciAddress \<Rightarrow> bool" where
  "valid_address a \<longleftrightarrow> pci_device a < 32 \<and> pci_function a < 8"

lemma less_exp_bit: "x < 2 ^ n \<Longrightarrow> n \<le> k \<Longrightarrow> \<not> bit x k" for x :: "'a::len word"
proof
  assume "x < 2 ^ n" "n \<le> k" "bit x k"
  then have "bit (x AND mask n) k"
    by (simp add: less_mask_eq)
  with \<open>n \<le> k\<close> show False
    by (simp add: bit_simps)
qed

text \<open>Words of eight bits agree when their eight bits do.\<close>

lemma u8_eqI:
  fixes x y :: u8
  assumes "bit x 0 = bit y 0" "bit x 1 = bit y 1" "bit x 2 = bit y 2" "bit x 3 = bit y 3"
    and "bit x 4 = bit y 4" "bit x 5 = bit y 5" "bit x 6 = bit y 6" "bit x 7 = bit y 7"
  shows "x = y"
proof (rule bit_word_eqI)
  fix n
  assume "n < LENGTH(8)"
  then have "n \<in> {0, 1, 2, 3, 4, 5, 6, 7}"
    by (simp add: eval_nat_numeral) linarith
  with assms show "bit x n = bit y n"
    by blast
qed

lemma valid_address_bits:
  assumes "valid_address a"
  shows "5 \<le> k \<Longrightarrow> \<not> bit (pci_device a) k" "3 \<le> k \<Longrightarrow> \<not> bit (pci_function a) k"
  using assms less_exp_bit [of "pci_device a" 5 k] less_exp_bit [of "pci_function a" 3 k]
  by (simp_all add: valid_address_def)

lemma config_address_enabled: "bit (config_address a off) 31"
  by (simp add: config_address_def bit_simps)

lemmas config_address_bits = config_address_def bit_simps valid_address_bits

lemma config_address_bus: "valid_address a \<Longrightarrow> ucast (drop_bit 16 (config_address a off)) = pci_bus a"
  by (rule u8_eqI) (simp_all add: config_address_bits)

lemma config_address_device:
  "valid_address a \<Longrightarrow> ucast (drop_bit 11 (config_address a off) AND 31) = pci_device a"
  by (rule u8_eqI) (simp_all add: config_address_bits)

lemma config_address_function:
  "valid_address a \<Longrightarrow> ucast (drop_bit 8 (config_address a off) AND 7) = pci_function a"
  by (rule u8_eqI) (simp_all add: config_address_bits)

lemma config_address_offset:
  "valid_address a \<Longrightarrow> ucast (config_address a off) = off AND 0xFC"
  by (rule u8_eqI) (simp_all add: config_address_bits)

lemma config_address_aligned [simp]: "config_address a (off AND 0xFC) = config_address a off"
proof -
  have "(off AND 0xFC) AND 0xFC = off AND 0xFC"
    by (simp add: and.assoc)
  then show ?thesis
    by (simp only: config_address_def)
qed

lemma config_address_inject:
  assumes "valid_address a" "valid_address b" "config_address a off = config_address b off'"
  shows "a = b \<and> off AND 0xFC = off' AND 0xFC"
  using assms config_address_bus [of a off] config_address_bus [of b off']
    config_address_device [of a off] config_address_device [of b off']
    config_address_function [of a off] config_address_function [of b off']
    config_address_offset [of a off] config_address_offset [of b off']
  by simp

section \<open>The configuration space as bytes\<close>

text \<open>The configuration space of all functions: a byte for each function and offset. What a device
  reports, and the functions a scan can see, in terms of these bytes.\<close>

definition config_byte :: "(u32 \<Rightarrow> u32) \<Rightarrow> PciAddress \<Rightarrow> u8 \<Rightarrow> u8" where
  "config_byte cfg a off = ucast (drop_bit (8 * unat (off AND 3)) (cfg (config_address a off)))"

definition device_at :: "(u32 \<Rightarrow> u32) \<Rightarrow> PciAddress \<Rightarrow> PciDevice option" where
  "device_at cfg a =
     (let byte = config_byte cfg a;
          vendor = le_value [byte 0, byte 1]
      in if vendor = 0xFFFF then None
         else Some \<lparr>addr = a, vendor_id = vendor, device_id = le_value [byte 2, byte 3],
           class_code = le_value [byte 0x09, byte 0x0A, byte 0x0B],
           bar0 = le_value [byte 0x10, byte 0x11, byte 0x12, byte 0x13],
           bar1 = le_value [byte 0x14, byte 0x15, byte 0x16, byte 0x17],
           irq = byte 0x3C\<rparr>)"

definition option_list :: "'a option \<Rightarrow> 'a list" where
  "option_list r = (case r of None \<Rightarrow> [] | Some x \<Rightarrow> [x])"

definition slot_devices :: "(u32 \<Rightarrow> u32) \<Rightarrow> u8 \<Rightarrow> u8 \<Rightarrow> PciDevice list" where
  "slot_devices cfg bus device =
     (case device_at cfg (PciAddress_new bus device 0) of
        None \<Rightarrow> []
      | Some d \<Rightarrow> d #
          (if bit (config_byte cfg (PciAddress_new bus device 0) 0x0E) 7
           then concat (map (\<lambda>func. option_list (device_at cfg (PciAddress_new bus device (of_nat func)))) [1..<8])
           else []))"

definition visible_devices :: "(u32 \<Rightarrow> u32) \<Rightarrow> PciDevice list" where
  "visible_devices cfg =
     concat (map (\<lambda>bus. concat (map (\<lambda>device. slot_devices cfg (of_nat bus) (of_nat device)) [0..<32])) [0..<256])"

lemma ucast_and_mask: "(ucast (d AND mask LENGTH('b)) :: 'b::len word) = ucast d" for d :: "'a::len word"
  by (rule bit_word_eqI) (auto simp: bit_simps dest: bit_imp_le_length)

lemma ucast_mask_16: "(ucast (d AND 0xFFFF) :: u16) = ucast d" for d :: u32
  using ucast_and_mask [where 'b = 16, of d] by (simp add: mask_eq_exp_minus_1)

lemma ucast_mask_8: "(ucast (d AND 0xFF) :: u8) = ucast d" for d :: u32
  using ucast_and_mask [where 'b = 8, of d] by (simp add: mask_eq_exp_minus_1)

lemma u16_bytes:
  "(ucast d :: u16) = le_value [ucast d, ucast (drop_bit 8 d)]" for d :: u32
  by (rule bit_word_eqI) (auto simp: bit_simps)

lemma u32_bytes:
  "(d :: u32) = le_value [ucast d, ucast (drop_bit 8 d), ucast (drop_bit 16 d), ucast (drop_bit 24 d)]"
  using le_value_le_bytes [of 4 d] by (simp add: eval_nat_numeral)

lemma u24_bytes:
  "drop_bit 8 (d :: u32) = le_value [ucast (drop_bit 8 d), ucast (drop_bit 16 d), ucast (drop_bit 24 d)]"
proof -
  have "drop_bit 8 d = le_value (le_bytes 3 (drop_bit 8 d))"
    by (rule bit_word_eqI) (auto simp: bit_le_value_le_bytes bit_drop_bit_eq dest: bit_imp_le_length)
  then show ?thesis
    by (simp add: eval_nat_numeral)
qed

text \<open>The registers the driver reads, as bytes.\<close>

lemma config_byte_dword:
  "off AND 0xFC = base AND 0xFC \<Longrightarrow>
     config_byte cfg a off = ucast (drop_bit (8 * unat (off AND 3)) (cfg (config_address a base)))"
  using config_address_aligned [of a off] config_address_aligned [of a base]
  by (simp add: config_byte_def)

lemma device_at_registers:
  "device_at cfg a =
     (let d = \<lambda>off. cfg (config_address a off)
      in if (ucast (d 0) :: u16) = 0xFFFF then None
         else Some \<lparr>addr = a, vendor_id = ucast (d 0), device_id = ucast (drop_bit 16 (d 2)),
           class_code = drop_bit 8 (d 9), bar0 = d 0x10, bar1 = d 0x14, irq = ucast (d 0x3C)\<rparr>)"
proof -
  have aligned: "config_address a 2 = config_address a 0" "config_address a 9 = config_address a 8"
    using config_address_aligned [of a 2] config_address_aligned [of a 9] by simp_all
  have vendor: "ucast (cfg (config_address a 0)) = (le_value [config_byte cfg a 0, config_byte cfg a 1] :: u16)"
    by (subst u16_bytes) (simp add: config_byte_dword [of _ 0])
  have device: "ucast (drop_bit 16 (cfg (config_address a 0))) = (le_value [config_byte cfg a 2, config_byte cfg a 3] :: u16)"
    by (subst u16_bytes) (simp add: config_byte_dword [of _ 0])
  have class_bytes: "drop_bit 8 (cfg (config_address a 8))
      = le_value [config_byte cfg a 0x09, config_byte cfg a 0x0A, config_byte cfg a 0x0B]"
    by (subst u24_bytes) (simp add: config_byte_dword [of _ 8])
  have bar0: "cfg (config_address a 0x10) = le_value [config_byte cfg a 0x10, config_byte cfg a 0x11,
      config_byte cfg a 0x12, config_byte cfg a 0x13]"
    by (subst u32_bytes) (simp add: config_byte_dword [of _ "0x10"])
  have bar1: "cfg (config_address a 0x14) = le_value [config_byte cfg a 0x14, config_byte cfg a 0x15,
      config_byte cfg a 0x16, config_byte cfg a 0x17]"
    by (subst u32_bytes) (simp add: config_byte_dword [of _ "0x14"])
  have irq: "ucast (cfg (config_address a 0x3C)) = config_byte cfg a 0x3C"
    by (simp add: config_byte_def)
  show ?thesis
    unfolding device_at_def Let_def aligned vendor device class_bytes bar0 bar1 irq ..
qed

section \<open>Steps of a scan\<close>

text \<open>A step of a scan that hands the devices \<open>ds\<close> to the callback and leaves the configuration alone.\<close>

definition visits ::
    "('h \<Rightarrow> u32 \<Rightarrow> u32) \<Rightarrow> (PciDevice \<Rightarrow> 'c \<Rightarrow> 'c) \<Rightarrow> (u32 \<Rightarrow> u32) \<Rightarrow> ('c \<times> 'h \<Rightarrow> 'c \<times> 'h) \<Rightarrow> PciDevice list
     \<Rightarrow> bool" where
  "visits config callback cfg step ds \<longleftrightarrow>
     (\<forall>c h. config h = cfg \<longrightarrow> (\<exists>h'. step (c, h) = (fold callback ds c, h') \<and> config h' = cfg))"

lemma visits_fold:
  assumes "\<And>x. visits config callback cfg (step x) (g x)"
  shows "visits config callback cfg (fold step xs) (concat (map g xs))"
proof (induction xs)
  case Nil
  then show ?case
    by (simp add: visits_def)
next
  case (Cons x xs)
  show ?case
    unfolding visits_def
  proof (intro allI impI)
    fix c h
    assume "config h = cfg"
    then obtain h1 where h1: "step x (c, h) = (fold callback (g x) c, h1)" "config h1 = cfg"
      using assms [of x] by (auto simp: visits_def)
    then obtain h2 where "fold step xs (fold callback (g x) c, h1)
        = (fold callback (concat (map g xs)) (fold callback (g x) c), h2)" "config h2 = cfg"
      using Cons.IH by (auto simp: visits_def)
    with h1 show "\<exists>h'. fold step (x # xs) (c, h) = (fold callback (concat (map g (x # xs))) c, h') \<and> config h' = cfg"
      by simp
  qed
qed

lemma fold_find:
  "fold (\<lambda>dev result. if result = None \<and> p dev then Some dev else result) ds None = find p ds"
proof -
  have "fold (\<lambda>dev result. if result = None \<and> p dev then Some dev else result) ds (Some d) = Some d" for d
    by (induction ds) auto
  then show ?thesis
    by (induction ds) auto
qed

section \<open>Configuration mechanism 1\<close>

locale config_mechanism =
  fixes P :: "'h port_ops"
    and config :: "'h \<Rightarrow> u32 \<Rightarrow> u32"
  assumes config_read:
    "bit a 31 \<Longrightarrow> port_in32 P PCI_CONFIG_DATA (port_out32 P PCI_CONFIG_ADDRESS a h) = (v, h')
       \<Longrightarrow> v = config h a \<and> config h' = config h"
begin

lemma read_u32:
  obtains h' where "read_config_u32 P a off h = (config h (config_address a off), h')" "config h' = config h"
  using config_read [OF config_address_enabled]
  by (metis prod.collapse read_config_u32_def)

lemma read_u16:
  obtains h' where "read_config_u16 P a off h
      = (ucast (drop_bit (unat ((off AND 2) * 8)) (config h (config_address a off))), h')" "config h' = config h"
  by (rule read_u32 [of a "off AND 0xFC" h]) (simp add: read_config_u16_def ucast_mask_16)

lemma read_u8:
  obtains h' where "read_config_u8 P a off h
      = (ucast (drop_bit (unat ((off AND 3) * 8)) (config h (config_address a off))), h')" "config h' = config h"
  by (rule read_u32 [of a "off AND 0xFC" h]) (simp add: read_config_u8_def ucast_mask_8)

lemma device_read:
  obtains h' where "PciDevice_read P a h = (device_at (config h) a, h')" "config h' = config h"
proof -
  let ?d = "\<lambda>off. config h (config_address a off)"
  obtain h1 where h1: "read_config_u16 P a 0 h = (ucast (?d 0), h1)" "config h1 = config h"
    by (rule read_u16 [of a 0 h]) simp
  obtain h2 where h2: "read_config_u16 P a 2 h1 = (ucast (drop_bit 16 (?d 2)), h2)" "config h2 = config h"
    by (rule read_u16 [of a 2 h1]) (simp add: h1)
  obtain h3 where h3: "read_config_u32 P a 9 h2 = (?d 9, h3)" "config h3 = config h"
    by (rule read_u32 [of a 9 h2]) (simp add: h2)
  obtain h4 where h4: "read_config_u32 P a 0x10 h3 = (?d 0x10, h4)" "config h4 = config h"
    by (rule read_u32 [of a "0x10" h3]) (simp add: h3)
  obtain h5 where h5: "read_config_u32 P a 0x14 h4 = (?d 0x14, h5)" "config h5 = config h"
    by (rule read_u32 [of a "0x14" h4]) (simp add: h4)
  obtain h6 where h6: "read_config_u8 P a 0x3C h5 = (ucast (?d 0x3C), h6)" "config h6 = config h"
    by (rule read_u8 [of a "0x3C" h5]) (simp add: h5)
  show ?thesis
  proof (rule that)
    show "PciDevice_read P a h = (device_at (config h) a, if ucast (?d 0) = (0xFFFF :: u16) then h1 else h6)"
      by (simp add: PciDevice_read_def pci_constants h1 h2 h3 h4 h5 h6 device_at_registers Let_def)
    show "config (if ucast (?d 0) = (0xFFFF :: u16) then h1 else h6) = config h"
      by (simp add: h1 h6)
  qed
qed

lemma visits_function:
  "visits config callback cfg (scan_function P callback bus device func)
     (option_list (device_at cfg (PciAddress_new bus device func)))"
  unfolding visits_def
proof (intro allI impI)
  fix c h
  assume "config h = cfg"
  then obtain h' where "PciDevice_read P (PciAddress_new bus device func) h
      = (device_at cfg (PciAddress_new bus device func), h')" "config h' = cfg"
    by (metis device_read)
  then show "\<exists>h'. scan_function P callback bus device func (c, h)
      = (fold callback (option_list (device_at cfg (PciAddress_new bus device func))) c, h') \<and> config h' = cfg"
    by (auto simp: scan_function_def option_list_def split: option.splits)
qed

lemma visits_slot: "visits config callback cfg (scan_slot P callback bus device) (slot_devices cfg bus device)"
  unfolding visits_def
proof (intro allI impI)
  fix c h
  assume cfg: "config h = cfg"
  let ?a = "PciAddress_new bus device 0"
  obtain h1 where h1: "PciDevice_read P ?a h = (device_at cfg ?a, h1)" "config h1 = cfg"
    using cfg by (metis device_read)
  obtain h2 where h2: "read_config_u8 P ?a 0x0E h1 = (config_byte cfg ?a 0x0E, h2)" "config h2 = cfg"
    by (rule read_u8 [of ?a "0x0E" h1]) (simp add: h1 config_byte_def)
  have multi: "config_byte cfg ?a 0x0E AND 0x80 \<noteq> 0 \<longleftrightarrow> bit (config_byte cfg ?a 0x0E) 7"
    by (simp add: and_exp_eq_0_iff_not_bit [of _ 7, simplified])
  have "visits config callback cfg (fold (\<lambda>func. scan_function P callback bus device (of_nat func)) [1..<8])
      (concat (map (\<lambda>func. option_list (device_at cfg (PciAddress_new bus device (of_nat func)))) [1..<8]))"
    by (rule visits_fold) (rule visits_function)
  then show "\<exists>h'. scan_slot P callback bus device (c, h) = (fold callback (slot_devices cfg bus device) c, h')
      \<and> config h' = cfg"
    using h1 h2 multi
    by (auto simp: visits_def scan_slot_def slot_devices_def pci_constants simp del: upt_rec_numeral
        split: option.splits)
qed

lemma visits_scan: "visits config callback cfg (scan P callback) (visible_devices cfg)"
  unfolding scan_def visible_devices_def by (intro visits_fold visits_slot)

lemma scan_exact:
  "\<exists>h'. scan P callback (c, h) = (fold callback (visible_devices (config h)) c, h') \<and> config h' = config h"
  using visits_scan [of callback "config h"] by (simp add: visits_def)

lemma find_e1000_first:
  "\<exists>h'. find_e1000 P h = (find is_e1000 (visible_devices (config h)), h') \<and> config h' = config h"
  using scan_exact [of "\<lambda>dev result. if result = None \<and> is_e1000 dev then Some dev else result" None h]
  by (simp add: find_e1000_def fold_find)

end

section \<open>What a scan sees\<close>

lemma device_at_addr: "device_at cfg a = Some d \<Longrightarrow> addr d = a"
  by (auto simp: device_at_def Let_def split: if_splits)

lemma set_option_list [simp]: "set (option_list r) = set_option r"
  by (cases r) (simp_all add: option_list_def)

lemma unat_of_nat_u8 [word_facts]: "n < 256 \<Longrightarrow> unat (of_nat n :: u8) = n"
  by (simp add: unsigned_of_nat take_bit_nat_eq_self)

lemma of_nat_u8_eq: "a < 256 \<Longrightarrow> b < 256 \<Longrightarrow> (of_nat a :: u8) = of_nat b \<longleftrightarrow> a = b"
  by (metis unat_of_nat_u8)

lemma distinct_concat_map:
  assumes "distinct xs" "\<And>x. x \<in> set xs \<Longrightarrow> distinct (f x)"
    and "\<And>x y. x \<in> set xs \<Longrightarrow> y \<in> set xs \<Longrightarrow> x \<noteq> y \<Longrightarrow> set (f x) \<inter> set (f y) = {}"
  shows "distinct (concat (map f xs))"
  using assms
proof (induction xs)
  case (Cons x xs)
  then have "distinct (concat (map f xs))"
    by simp
  moreover have "set (f x) \<inter> set (concat (map f xs)) = {}"
    using Cons.prems(1,3) by fastforce
  ultimately show ?case
    using Cons.prems(2) by simp
qed simp

text \<open>A function is visible if it is function 0 or if function 0 of its slot is there and says that the
  device has several functions.\<close>

definition probed :: "(u32 \<Rightarrow> u32) \<Rightarrow> PciAddress \<Rightarrow> bool" where
  "probed cfg a \<longleftrightarrow> valid_address a \<and>
     (pci_function a = 0
      \<or> device_at cfg (a\<lparr>pci_function := 0\<rparr>) \<noteq> None \<and> bit (config_byte cfg (a\<lparr>pci_function := 0\<rparr>) 0x0E) 7)"

lemma set_slot_devices:
  "d \<in> set (slot_devices cfg bus device) \<longleftrightarrow>
     (\<exists>func < 8. device_at cfg (PciAddress_new bus device (of_nat func)) = Some d
        \<and> (func = 0 \<or> device_at cfg (PciAddress_new bus device 0) \<noteq> None
                     \<and> bit (config_byte cfg (PciAddress_new bus device 0) 0x0E) 7))"
  (is "?l \<longleftrightarrow> (\<exists>func < 8. ?at func \<and> (func = 0 \<or> ?multi))")
proof -
  have eight: "(\<exists>func < 8. Q func) \<longleftrightarrow> Q 0 \<or> (\<exists>func \<in> set [1..<8]. Q func)" for Q :: "nat \<Rightarrow> bool"
  proof -
    have split: "func < 8 \<longleftrightarrow> func = 0 \<or> func \<in> set [1..<8]" for func :: nat
      unfolding set_upt by auto
    show ?thesis unfolding split by blast
  qed
  show ?thesis
    unfolding eight
    by (cases "device_at cfg (PciAddress_new bus device 0)")
      (auto simp: slot_devices_def simp del: upt_rec_numeral)
qed

lemma slot_devices_addr:
  "d \<in> set (slot_devices cfg bus device) \<Longrightarrow> pci_bus (addr d) = bus \<and> pci_device (addr d) = device"
  by (auto simp: set_slot_devices PciAddress_new_def dest: device_at_addr)

lemma distinct_slot_devices: "distinct (map addr (slot_devices cfg bus device))"
proof -
  let ?f = "\<lambda>func. map addr (option_list (device_at cfg (PciAddress_new bus device (of_nat func))))"
  have one: "set (?f func) \<subseteq> {PciAddress_new bus device (of_nat func)}" for func
    using device_at_addr by (auto simp: option_list_def split: option.splits)
  have "distinct (concat (map ?f [1..<8]))"
  proof (rule distinct_concat_map)
    fix x y assume "x \<in> set [1..<8]" "y \<in> set [1..<8]" "x \<noteq> y"
    then show "set (?f x) \<inter> set (?f y) = {}"
      using one [of x] one [of y] of_nat_u8_eq [of x y] by (fastforce simp: PciAddress_new_def)
  qed (auto simp: option_list_def split: option.splits)
  moreover have "PciAddress_new bus device 0 \<notin> set (concat (map ?f [1..<8]))"
  proof
    assume "PciAddress_new bus device 0 \<in> set (concat (map ?f [1..<8]))"
    then obtain func where "func \<in> {1..<8}" "PciAddress_new bus device 0 \<in> set (?f func)"
      by (auto simp del: upt_rec_numeral)
    then show False
      using one [of func] of_nat_u8_eq [of func 0] by (fastforce simp: PciAddress_new_def)
  qed
  moreover have "map addr (slot_devices cfg bus device) =
      (case device_at cfg (PciAddress_new bus device 0) of
         None \<Rightarrow> []
       | Some d \<Rightarrow> addr d # (if bit (config_byte cfg (PciAddress_new bus device 0) 0x0E) 7
           then concat (map ?f [1..<8]) else []))"
    by (simp add: slot_devices_def map_concat comp_def del: upt_rec_numeral split: option.split)
  ultimately show ?thesis
    using device_at_addr [of cfg "PciAddress_new bus device 0"]
    by (cases "device_at cfg (PciAddress_new bus device 0)")
      (simp_all del: upt_rec_numeral set_concat)
qed

lemma distinct_visible_devices: "distinct (map addr (visible_devices cfg))"
proof -
  let ?slot = "\<lambda>bus device. map addr (slot_devices cfg (of_nat bus) (of_nat device))"
  let ?bus = "\<lambda>bus. concat (map (?slot bus) [0..<32])"
  have slot: "a \<in> set (?slot bus device) \<Longrightarrow> pci_bus a = of_nat bus \<and> pci_device a = of_nat device" for a bus device
    using slot_devices_addr by fastforce
  have bus: "distinct (?bus bus)" for bus
  proof (rule distinct_concat_map)
    fix x y :: nat assume "x \<in> set [0..<32]" "y \<in> set [0..<32]" "x \<noteq> y"
    then have "(of_nat x :: u8) \<noteq> of_nat y"
      using of_nat_u8_eq [of x y] by (simp del: upt_rec_numeral)
    then show "set (?slot bus x) \<inter> set (?slot bus y) = {}"
      unfolding disjoint_iff using slot [of _ bus x] slot [of _ bus y] by metis
  qed (simp_all add: distinct_slot_devices del: upt_rec_numeral)
  have "distinct (concat (map ?bus [0..<256]))"
  proof (rule distinct_concat_map)
    fix x y :: nat assume "x \<in> set [0..<256]" "y \<in> set [0..<256]" "x \<noteq> y"
    then have "(of_nat x :: u8) \<noteq> of_nat y"
      using of_nat_u8_eq [of x y] by (simp del: upt_rec_numeral)
    moreover have "a \<in> set (?bus x) \<Longrightarrow> pci_bus a = of_nat x" for a x
      using slot [of a x] by (auto simp del: upt_rec_numeral)
    ultimately show "set (?bus x) \<inter> set (?bus y) = {}"
      unfolding disjoint_iff by metis
  qed (simp_all add: bus del: upt_rec_numeral)
  then show ?thesis
    by (simp add: visible_devices_def map_concat comp_def del: upt_rec_numeral)
qed

lemma u8_of_nat: "\<exists>n < 256. b = of_nat n" for b :: u8
  using unsigned_less [of b, where 'a = nat] by (intro exI [of _ "unat b"]) simp

lemma set_visible_devices:
  "d \<in> set (visible_devices cfg) \<longleftrightarrow> probed cfg (addr d) \<and> device_at cfg (addr d) = Some d"
  (is "?l \<longleftrightarrow> ?r")
proof
  assume ?l
  then obtain bus device :: nat where "device < 32" "d \<in> set (slot_devices cfg (of_nat bus) (of_nat device))"
    by (auto simp: visible_devices_def simp del: upt_rec_numeral)
  then obtain func :: nat where r: "device < 32" "func < 8"
      "device_at cfg (PciAddress_new (of_nat bus) (of_nat device) (of_nat func)) = Some d"
      "func = 0 \<or> device_at cfg (PciAddress_new (of_nat bus) (of_nat device) 0) \<noteq> None
        \<and> bit (config_byte cfg (PciAddress_new (of_nat bus) (of_nat device) 0) 0x0E) 7"
    unfolding set_slot_devices by blast
  then have "addr d = PciAddress_new (of_nat bus) (of_nat device) (of_nat func)"
    using device_at_addr by blast
  with r show ?r
    by (auto simp: probed_def valid_address_def PciAddress_new_def word_less_nat_alt unat_of_nat_u8)
next
  assume r: ?r
  obtain bus where bus: "bus < 256" "pci_bus (addr d) = of_nat bus"
    using u8_of_nat by blast
  let ?device = "unat (pci_device (addr d))" and ?func = "unat (pci_function (addr d))"
  have a: "addr d = PciAddress_new (of_nat bus) (of_nat ?device) (of_nat ?func)"
    using bus by (simp add: PciAddress_new_def)
  have "?device < 32" "?func < 8"
    using r by (auto simp: probed_def valid_address_def word_less_nat_alt)
  moreover have "d \<in> set (slot_devices cfg (of_nat bus) (of_nat ?device))"
    unfolding set_slot_devices
  proof (intro exI conjI)
    show "?func < 8" by fact
    show "device_at cfg (PciAddress_new (of_nat bus) (of_nat ?device) (of_nat ?func)) = Some d"
      using r a by simp
    have "(addr d)\<lparr>pci_function := 0\<rparr> = PciAddress_new (of_nat bus) (of_nat ?device) 0"
      using bus by (simp add: PciAddress_new_def)
    then show "?func = 0 \<or> device_at cfg (PciAddress_new (of_nat bus) (of_nat ?device) 0) \<noteq> None
        \<and> bit (config_byte cfg (PciAddress_new (of_nat bus) (of_nat ?device) 0) 0x0E) 7"
      using r by (auto simp: probed_def unat_eq_zero)
  qed
  ultimately show ?l
    using bus(1) by (force simp: visible_devices_def simp del: upt_rec_numeral)
qed

section \<open>Command and Status\<close>

text \<open>The dword at offset 4 holds Command in its low and Status in its high half. Of Command the
  specification makes bits 1 and 2 read-write for a device with memory that can master the bus; the
  error bits of Status are cleared by writing ones to them.\<close>

definition status_errors :: "nat set" where
  "status_errors = {24, 27, 28, 29, 30, 31}"

locale command_register = config_mechanism P config
  for P :: "'h port_ops" and config :: "'h \<Rightarrow> u32 \<Rightarrow> u32" +
  assumes command_written:
    "c = config_address a 4 \<Longrightarrow> k \<in> {1, 2} \<Longrightarrow>
       bit (config (port_out32 P PCI_CONFIG_DATA v (port_out32 P PCI_CONFIG_ADDRESS c h)) c) k = bit v k"
    and status_write_clears:
    "c = config_address a 4 \<Longrightarrow> k \<in> status_errors \<Longrightarrow>
       bit (config (port_out32 P PCI_CONFIG_DATA v (port_out32 P PCI_CONFIG_ADDRESS c h)) c) k
         \<longleftrightarrow> bit (config h c) k \<and> \<not> bit v k"
begin

text \<open>What a 16-bit write to Command puts on the bus: the other half is the Status just read.\<close>

lemma write_command:
  obtains h1 where "config h1 = config h"
    "write_config_u16 P a 4 v h =
       port_out32 P PCI_CONFIG_DATA
         (config h (config_address a 4) AND NOT 0xFFFF OR ucast v)
         (port_out32 P PCI_CONFIG_ADDRESS (config_address a 4) h1)"
proof (rule read_u32 [of a 4 h])
  fix h1
  assume "read_config_u32 P a 4 h = (config h (config_address a 4), h1)" "config h1 = config h"
  then show thesis
    using that [of h1] by (simp add: write_config_u16_def write_config_u32_def)
qed

lemma enable_effect:
  assumes "c = config_address (addr d) 4"
  shows "bit (config (PciDevice_enable P d h) c) 1 \<and> bit (config (PciDevice_enable P d h) c) 2
    \<and> (\<forall>k \<in> status_errors. \<not> bit (config (PciDevice_enable P d h) c) k)"
proof -
  obtain h1 where h1: "read_config_u16 P (addr d) 4 h = (ucast (config h c), h1)" "config h1 = config h"
    by (rule read_u16 [of "addr d" 4 h]) (simp add: assms)
  let ?v = "ucast (config h c) OR MEM_SPACE OR BUS_MASTER"
  obtain h2 where h2: "config h2 = config h1" "write_config_u16 P (addr d) 4 ?v h1 =
      port_out32 P PCI_CONFIG_DATA (config h1 c AND NOT 0xFFFF OR ucast ?v) (port_out32 P PCI_CONFIG_ADDRESS c h2)"
    using write_command [of h1 "addr d" ?v] assms by metis
  have en: "PciDevice_enable P d h =
      port_out32 P PCI_CONFIG_DATA (config h c AND NOT 0xFFFF OR ucast ?v) (port_out32 P PCI_CONFIG_ADDRESS c h2)"
    using h1 h2 by (simp add: PciDevice_enable_def COMMAND_def)
  have "bit (config h c AND NOT 0xFFFF OR ucast ?v) 1" "bit (config h c AND NOT 0xFFFF OR ucast ?v) 2"
    by (simp_all add: bit_simps MEM_SPACE_def BUS_MASTER_def)
  moreover have "k \<in> status_errors \<Longrightarrow> bit (config h c AND NOT 0xFFFF OR ucast ?v) k = bit (config h c) k" for k
    by (auto simp: status_errors_def bit_simps MEM_SPACE_def BUS_MASTER_def)
  ultimately show ?thesis
    unfolding en using h1 h2 by (simp add: command_written [OF assms] status_write_clears [OF assms])
qed

end

section \<open>A configuration space\<close>

text \<open>A machine with the two ports: the address latched last and the registers.\<close>

record sim_ports =
  sim_latch :: u32
  sim_space :: "u32 \<Rightarrow> u32"

definition sim_write :: "u32 \<Rightarrow> u32 \<Rightarrow> u32 \<Rightarrow> u32" where
  "sim_write a old v =
     (if (ucast a :: u8) = 4 then (v AND 0xFFFF) OR (old AND NOT 0xFFFF AND NOT v) else v)"

definition sim_port_ops :: "sim_ports port_ops" where
  "sim_port_ops =
     \<lparr>port_out32 = (\<lambda>p v h.
        if p = 0x0CF8 then h\<lparr>sim_latch := v\<rparr>
        else if p = 0x0CFC \<and> bit (sim_latch h) 31
        then h\<lparr>sim_space := (sim_space h)(sim_latch h := sim_write (sim_latch h) (sim_space h (sim_latch h)) v)\<rparr>
        else h),
      port_in32 = (\<lambda>p h. (if p = 0x0CFC \<and> bit (sim_latch h) 31 then sim_space h (sim_latch h) else 0xFFFFFFFF, h))\<rparr>"

lemma config_address_command: "(ucast (config_address a 4) :: u8) = 4"
  by (rule u8_eqI) (simp_all add: config_address_def bit_simps)

interpretation sp: command_register sim_port_ops sim_space
proof
  fix c a k h v
  assume c: "c = config_address a 4"
  have "sim_space (port_out32 sim_port_ops PCI_CONFIG_DATA v (port_out32 sim_port_ops PCI_CONFIG_ADDRESS c h)) c
      = (v AND 0xFFFF) OR (sim_space h c AND NOT 0xFFFF AND NOT v)"
    using config_address_enabled [of a 4] config_address_command [of a]
    by (simp add: sim_port_ops_def pci_constants sim_write_def c)
  then show
    "k \<in> {1, 2} \<Longrightarrow> bit (sim_space (port_out32 sim_port_ops PCI_CONFIG_DATA v
        (port_out32 sim_port_ops PCI_CONFIG_ADDRESS c h)) c) k = bit v k"
    "k \<in> status_errors \<Longrightarrow> bit (sim_space (port_out32 sim_port_ops PCI_CONFIG_DATA v
        (port_out32 sim_port_ops PCI_CONFIG_ADDRESS c h)) c) k \<longleftrightarrow> bit (sim_space h c) k \<and> \<not> bit v k"
    by (auto simp: bit_simps status_errors_def)
qed (auto simp: sim_port_ops_def pci_constants)

text \<open>A network controller in slot 3 of bus 0 behind a host bridge, with a received master abort.\<close>

definition sim_config :: "u32 \<Rightarrow> u32" where
  "sim_config c =
     (if c = 0x80000000 then 0x12378086 else if c = 0x80001800 then 0x100E8086
      else if c = 0x80001804 then 0x20100103 else if c = 0x80001808 then 0x02000003
      else if c = 0x80001810 then 0xFEBC0000 else if c = 0x8000183C then 0x0000010B
      else if c AND 0xFF = 0 then 0xFFFFFFFF else 0)"

definition sim_machine :: sim_ports where
  "sim_machine = \<lparr>sim_latch = 0, sim_space = sim_config\<rparr>"

section \<open>Properties\<close>

text \<open>Different functions and registers of valid addresses have different configuration addresses,
  and the address gives back bus, device, function and register.\<close>

theorem config_address_roundtrip:
  assumes "valid_address a" "c = config_address a off"
  shows "a = PciAddress_new (ucast (drop_bit 16 c)) (ucast (drop_bit 11 c AND 31)) (ucast (drop_bit 8 c AND 7))
    \<and> ucast c = off AND 0xFC \<and> bit c 31"
  using assms
  by (simp add: PciAddress_new_def config_address_bus config_address_device config_address_function
      config_address_offset config_address_enabled)

theorem config_address_roundtrip_witness:
  "config_address (PciAddress_new 0 3 0) 0x3D = 0x8000183C
   \<and> PciAddress_new 0 3 0 = PciAddress_new (ucast (drop_bit 16 (0x8000183C :: u32)))
       (ucast (drop_bit 11 (0x8000183C :: u32) AND 31)) (ucast (drop_bit 8 (0x8000183C :: u32) AND 7))"
proof -
  have c: "config_address (PciAddress_new 0 3 0) 0x3D = 0x8000183C"
    by (simp add: config_address_def PciAddress_new_def)
  have "valid_address (PciAddress_new 0 3 0)"
    by (simp add: valid_address_def PciAddress_new_def)
  from config_address_roundtrip [OF this c [symmetric]] c show ?thesis
    by blast
qed

text \<open>C28: A scan hands every function that is present and probed to the callback, in the order of the
  addresses and each once, with its registers read as little-endian bytes, and changes nothing in the
  configuration space; the network controller found is the first one of them.\<close>

theorem pci_scan_exact:
  assumes "config_mechanism P config"
  shows "(\<exists>h'. scan P callback (c, h) = (fold callback (visible_devices (config h)) c, h') \<and> config h' = config h)
    \<and> (\<exists>h'. find_e1000 P h = (find is_e1000 (visible_devices (config h)), h') \<and> config h' = config h)
    \<and> distinct (map addr (visible_devices cfg))
    \<and> set (visible_devices cfg) = {d. probed cfg (addr d) \<and> device_at cfg (addr d) = Some d}"
proof (intro conjI)
  show "set (visible_devices cfg) = {d. probed cfg (addr d) \<and> device_at cfg (addr d) = Some d}"
    using set_visible_devices by auto
qed (rule config_mechanism.scan_exact [OF assms] config_mechanism.find_e1000_first [OF assms]
  distinct_visible_devices)+

lemma find_append: "find p (xs @ ys) = (case find p xs of None \<Rightarrow> find p ys | Some x \<Rightarrow> Some x)"
  by (induction xs) auto

definition sim_controller :: PciDevice where
  "sim_controller = \<lparr>addr = PciAddress_new 0 3 0, vendor_id = 0x8086, device_id = 0x100E,
     class_code = 0x020000, bar0 = 0xFEBC0000, bar1 = 0, irq = 11\<rparr>"

lemma sim_slots:
  "slot_devices sim_config 0 1 = []" "slot_devices sim_config 0 2 = []"
  "find is_e1000 (slot_devices sim_config 0 0) = None"
  "slot_devices sim_config 0 3 = [sim_controller]"
  by (simp_all add: slot_devices_def device_at_registers config_byte_def sim_config_def config_address_def
      PciAddress_new_def is_e1000_def pci_constants sim_controller_def Let_def)

lemma sim_find: "find is_e1000 (visible_devices sim_config) = Some sim_controller"
proof -
  have buses: "[0..<256] = 0 # [1..<256]" and slots: "[0..<32] = [0, 1, 2, 3] @ [4..<32]"
    by (simp_all add: upt_rec)
  have "is_e1000 sim_controller"
    by (simp add: is_e1000_def sim_controller_def pci_constants)
  then show ?thesis
    unfolding visible_devices_def buses slots
    by (simp add: find_append sim_slots del: upt_rec_numeral)
qed

theorem pci_scan_exact_witness:
  "\<exists>h'. find_e1000 sim_port_ops sim_machine = (Some sim_controller, h') \<and> sim_space h' = sim_config"
  using pci_scan_exact [OF sp.config_mechanism_axioms, of "\<lambda>_ c. c" "()" sim_machine sim_config] sim_find
  by (simp add: sim_machine_def)

text \<open>Enabling a device sets memory access and bus mastering, and acknowledges every error its Status
  register reports, because the 16-bit write to Command writes the Status bits back.\<close>

theorem enable_clears_status:
  assumes "command_register P config" "c = config_address (addr d) COMMAND"
  shows "bit (config (PciDevice_enable P d h) c) 1 \<and> bit (config (PciDevice_enable P d h) c) 2
    \<and> (\<forall>k \<in> status_errors. \<not> bit (config (PciDevice_enable P d h) c) k)"
  using command_register.enable_effect [OF assms(1)] assms(2) by (simp add: COMMAND_def)

theorem enable_clears_status_witness:
  "bit (sim_space sim_machine 0x80001804) 29
   \<and> \<not> bit (sim_space (PciDevice_enable sim_port_ops sim_controller sim_machine) 0x80001804) 29"
proof
  show "bit (sim_space sim_machine 0x80001804) 29"
    by (simp add: sim_machine_def sim_config_def)
  have "0x80001804 = config_address (addr sim_controller) COMMAND"
    by (simp add: sim_controller_def config_address_def PciAddress_new_def COMMAND_def)
  from enable_clears_status [OF sp.command_register_axioms this]
  show "\<not> bit (sim_space (PciDevice_enable sim_port_ops sim_controller sim_machine) 0x80001804) 29"
    by (auto simp: status_errors_def)
qed

end
