(* ===== verification/Memory.thy ===== *)
theory Memory
  imports Prelude
begin

text \<open>
  Physical frames and the kernel heap (\<open>memory.rs\<close>, \<open>allocator.rs\<close>). Addresses are naturals; a frame and
  a page are named by their start address. \<open>None\<close> is a panic. The memory map comes from the
  \<open>bootloader\<close> crate, page tables are those of the \<open>x86_64\<close> crate: \<open>map_to\<close> is a parameter that gets the
  frame allocator, and the locale \<open>page_mapper\<close> states what its documentation says.
\<close>

section \<open>Frames\<close>

datatype MemoryRegionType = Usable | OtherRegion nat

record MemoryRegion =
  start_addr :: nat
  end_addr :: nat
  region_type :: MemoryRegionType

type_synonym MemoryMap = "MemoryRegion list"

definition FRAME_SIZE :: nat where "FRAME_SIZE = 4096"

definition align_down :: "nat \<Rightarrow> nat" where
  "align_down a = a - a mod FRAME_SIZE"

text \<open>\<open>(a..b).step_by(4096)\<close>.\<close>

definition step_range :: "nat \<Rightarrow> nat \<Rightarrow> nat list" where
  "step_range a b = map (\<lambda>i. a + FRAME_SIZE * i) [0..<(b - a + FRAME_SIZE - 1) div FRAME_SIZE]"

text \<open>\<open>PhysAddr::new\<close> panics above 52 bits.\<close>

definition PhysAddr_new :: "nat \<Rightarrow> nat option" where
  "PhysAddr_new a = (if a < 2 ^ 52 then Some a else None)"

record BootInfoFrameAllocator =
  memory_map :: MemoryMap
  next_frame :: usize

definition BootInfoFrameAllocator_init :: "MemoryMap \<Rightarrow> BootInfoFrameAllocator" where
  "BootInfoFrameAllocator_init m = \<lparr>memory_map = m, next_frame = 0\<rparr>"

text \<open>The iterator of usable frames; each item is computed when it is reached.\<close>

definition usable_frames :: "BootInfoFrameAllocator \<Rightarrow> nat option list" where
  "usable_frames a =
     (let usable_regions = filter (\<lambda>r. region_type r = Usable) (memory_map a);
          addr_ranges = map (\<lambda>r. (start_addr r, end_addr r)) usable_regions;
          frame_addresses = concat (map (\<lambda>(s, e). step_range s e) addr_ranges)
      in map (\<lambda>addr. map_option align_down (PhysAddr_new addr)) frame_addresses)"

text \<open>\<open>Iterator::nth\<close> computes the items it skips.\<close>

fun iter_nth :: "'a option list \<Rightarrow> nat \<Rightarrow> 'a option option" where
  "iter_nth [] n = Some None"
| "iter_nth (None # xs) n = None"
| "iter_nth (Some x # xs) 0 = Some (Some x)"
| "iter_nth (Some x # xs) (Suc n) = iter_nth xs n"

definition allocate_frame :: "BootInfoFrameAllocator \<Rightarrow> (nat option \<times> BootInfoFrameAllocator) option" where
  "allocate_frame a =
     (case iter_nth (usable_frames a) (unat (next_frame a)) of
        None \<Rightarrow> None
      | Some frame \<Rightarrow>
          if next_frame a = - 1 then None
          else Some (frame, a\<lparr>next_frame := next_frame a + 1\<rparr>))"

section \<open>The heap\<close>

definition HEAP_START :: nat where "HEAP_START = 0x444444440000"
definition HEAP_SIZE :: nat where "HEAP_SIZE = 1024 * 1024"

datatype MapToError = FrameAllocationFailed | ParentEntryHugePage | PageAlreadyMapped nat

datatype PageTableFlag = PRESENT | WRITABLE

type_synonym ('m, 'a) map_to_fn =
  "('a \<Rightarrow> (nat option \<times> 'a) option) \<Rightarrow> nat \<Rightarrow> nat \<Rightarrow> PageTableFlag set \<Rightarrow> 'm \<times> 'a
   \<Rightarrow> ((MapToError + unit) \<times> 'm \<times> 'a) option"

text \<open>The pages from the first to the last of the heap, \<open>Page::range_inclusive\<close>.\<close>

definition page_range :: "nat list" where
  "page_range =
     (let heap_end = HEAP_START + HEAP_SIZE - 1;
          heap_start_page = align_down HEAP_START;
          heap_end_page = align_down heap_end
      in step_range heap_start_page (heap_end_page + 1))"

text \<open>The loop of \<open>init_heap\<close>, with any frame allocator.\<close>

fun map_pages ::
    "('m, 'a) map_to_fn \<Rightarrow> ('a \<Rightarrow> (nat option \<times> 'a) option) \<Rightarrow> nat list \<Rightarrow> 'm \<times> 'a
     \<Rightarrow> ((MapToError + unit) \<times> 'm \<times> 'a) option" where
  "map_pages map_to alloc [] (m, a) = Some (Inr (), m, a)"
| "map_pages map_to alloc (page # pages) (m, a) =
     (case alloc a of
        None \<Rightarrow> None
      | Some (None, a) \<Rightarrow> Some (Inl FrameAllocationFailed, m, a)
      | Some (Some frame, a) \<Rightarrow>
          (case map_to alloc page frame {PRESENT, WRITABLE} (m, a) of
             None \<Rightarrow> None
           | Some (Inl e, m, a) \<Rightarrow> Some (Inl e, m, a)
           | Some (Inr _, m, a) \<Rightarrow> map_pages map_to alloc pages (m, a)))"

text \<open>The result of \<open>init_heap\<close> with the region given to the global allocator.\<close>

definition init_heap ::
    "('m, 'a) map_to_fn \<Rightarrow> ('a \<Rightarrow> (nat option \<times> 'a) option) \<Rightarrow> 'm \<times> 'a
     \<Rightarrow> ((MapToError + nat \<times> nat) \<times> 'm \<times> 'a) option" where
  "init_heap map_to alloc s =
     (case map_pages map_to alloc page_range s of
        None \<Rightarrow> None
      | Some (Inl e, s) \<Rightarrow> Some (Inl e, s)
      | Some (Inr _, s) \<Rightarrow> Some (Inr (HEAP_START, HEAP_SIZE), s))"

section \<open>Lemmas\<close>

text \<open>What the bootloader promises of its map: whole frames below \<open>2 ^ 52\<close>, and usable regions that do not
  overlap.\<close>

definition map_ok :: "MemoryMap \<Rightarrow> bool" where
  "map_ok m \<longleftrightarrow>
     (\<forall>r \<in> set m. FRAME_SIZE dvd start_addr r \<and> FRAME_SIZE dvd end_addr r \<and> end_addr r \<le> 2 ^ 52)
     \<and> sorted_wrt (\<lambda>r r'. end_addr r \<le> start_addr r' \<or> end_addr r' \<le> start_addr r)
         (filter (\<lambda>r. region_type r = Usable) m)"

definition frames :: "MemoryMap \<Rightarrow> nat list" where
  "frames m = concat (map (\<lambda>r. step_range (start_addr r) (end_addr r)) (filter (\<lambda>r. region_type r = Usable) m))"

lemma step_range_frames:
  "step_range (FRAME_SIZE * i) (FRAME_SIZE * j) = map (\<lambda>k. FRAME_SIZE * k) [i..<j]"
proof -
  have "(FRAME_SIZE * j - FRAME_SIZE * i + FRAME_SIZE - 1) div FRAME_SIZE = j - i"
    by (simp add: FRAME_SIZE_def diff_mult_distrib2 [symmetric])
  moreover have "[i..<j] = map (\<lambda>k. i + k) [0..<j - i]"
    by (rule nth_equalityI) simp_all
  ultimately show ?thesis
    by (simp add: step_range_def distrib_left)
qed

lemma set_step_range:
  assumes "FRAME_SIZE dvd a" "FRAME_SIZE dvd b"
  shows "set (step_range a b) = {x. a \<le> x \<and> x < b \<and> FRAME_SIZE dvd x}"
proof -
  obtain i j where ij: "a = FRAME_SIZE * i" "b = FRAME_SIZE * j"
    using assms by (auto elim!: dvdE)
  show ?thesis
    unfolding ij step_range_frames by (auto simp: FRAME_SIZE_def)
qed

lemma distinct_step_range: "distinct (step_range a b)"
  by (simp add: step_range_def distinct_map FRAME_SIZE_def inj_on_def)

lemma length_step_range: "FRAME_SIZE dvd a \<Longrightarrow> FRAME_SIZE dvd b \<Longrightarrow> length (step_range a b) = (b - a) div FRAME_SIZE"
  by (auto simp: step_range_frames diff_mult_distrib2 [symmetric] elim!: dvdE) (simp add: FRAME_SIZE_def)

lemma set_frames:
  "map_ok m \<Longrightarrow>
     set (frames m) = {x. \<exists>r \<in> set m. region_type r = Usable \<and> start_addr r \<le> x \<and> x < end_addr r \<and> FRAME_SIZE dvd x}"
  by (auto simp: frames_def map_ok_def set_step_range)

lemma distinct_frames:
  assumes "map_ok m"
  shows "distinct (frames m)"
proof -
  have "distinct (concat (map (\<lambda>r. step_range (start_addr r) (end_addr r)) rs))"
    if "\<forall>r \<in> set rs. FRAME_SIZE dvd start_addr r \<and> FRAME_SIZE dvd end_addr r"
      "sorted_wrt (\<lambda>r r'. end_addr r \<le> start_addr r' \<or> end_addr r' \<le> start_addr r) rs"
    for rs :: MemoryMap
    using that
    by (induction rs) (auto simp: distinct_step_range set_step_range)
  with assms show ?thesis
    by (simp add: frames_def map_ok_def)
qed

lemma usable_frames_eq:
  assumes "map_ok (memory_map a)"
  shows "usable_frames a = map Some (frames (memory_map a))"
proof -
  have "map_option align_down (PhysAddr_new x) = Some x" if "x \<in> set (frames (memory_map a))" for x
  proof -
    have "FRAME_SIZE dvd x" "x < 2 ^ 52"
      using that assms by (auto simp: set_frames map_ok_def)
    then show ?thesis
      by (simp add: PhysAddr_new_def align_down_def)
  qed
  then show ?thesis
    by (auto simp: usable_frames_def frames_def Let_def comp_def)
qed

lemma iter_nth_Some: "iter_nth (map Some xs) n = Some (if n < length xs then Some (xs ! n) else None)"
  by (induction xs arbitrary: n; case_tac n) auto

lemma allocate_frame_eq:
  assumes "map_ok (memory_map a)" "next_frame a \<noteq> - 1"
  shows "allocate_frame a =
    Some (if unat (next_frame a) < length (frames (memory_map a))
          then Some (frames (memory_map a) ! unat (next_frame a)) else None, a\<lparr>next_frame := next_frame a + 1\<rparr>)"
  using assms by (simp add: allocate_frame_def usable_frames_eq iter_nth_Some)

lemma boot_init [simp]:
  "memory_map (BootInfoFrameAllocator_init m) = m" "next_frame (BootInfoFrameAllocator_init m) = 0"
  by (simp_all add: BootInfoFrameAllocator_init_def)

text \<open>A sequence of allocations.\<close>

fun allocate_frames :: "nat \<Rightarrow> BootInfoFrameAllocator \<Rightarrow> (nat option list \<times> BootInfoFrameAllocator) option" where
  "allocate_frames 0 a = Some ([], a)"
| "allocate_frames (Suc n) a =
     (case allocate_frame a of
        None \<Rightarrow> None
      | Some (r, a) \<Rightarrow> map_option (\<lambda>(rs, a). (r # rs, a)) (allocate_frames n a))"

lemma allocate_frames_eq:
  assumes "map_ok (memory_map a)" "unat (next_frame a) + n < 2 ^ 64"
  shows "\<exists>a'. allocate_frames n a =
      Some (map (\<lambda>i. if i < length (frames (memory_map a)) then Some (frames (memory_map a) ! i) else None)
              [unat (next_frame a)..<unat (next_frame a) + n], a')
    \<and> memory_map a' = memory_map a \<and> unat (next_frame a') = unat (next_frame a) + n"
  using assms
proof (induction n arbitrary: a)
  case 0
  then show ?case by simp
next
  case (Suc n)
  let ?a = "a\<lparr>next_frame := next_frame a + 1\<rparr>"
  have "unat (- 1 :: usize) = 2 ^ 64 - 1"
    by (simp add: unsigned_minus_1_eq_mask mask_eq_exp_minus_1)
  then have ne: "next_frame a \<noteq> - 1"
    using Suc.prems(2) by auto
  then have inc: "unat (next_frame a + 1) = Suc (unat (next_frame a))"
    by (metis add.commute add_eq_0_iff unatSuc)
  with Suc.prems Suc.IH [of ?a] show ?case
    by (auto simp: allocate_frame_eq ne upt_rec [of "unat (next_frame a)"])
qed

section \<open>Page tables\<close>

text \<open>Some calls of an allocator, and an allocator that still has some frames.\<close>

primrec calls :: "('a \<Rightarrow> ('r \<times> 'a) option) \<Rightarrow> nat \<Rightarrow> 'a \<Rightarrow> 'a \<Rightarrow> bool" where
  "calls alloc 0 a a' \<longleftrightarrow> a' = a"
| "calls alloc (Suc n) a a' \<longleftrightarrow> (\<exists>r a1. alloc a = Some (r, a1) \<and> calls alloc n a1 a')"

primrec has_frames :: "('a \<Rightarrow> (nat option \<times> 'a) option) \<Rightarrow> nat \<Rightarrow> 'a \<Rightarrow> bool" where
  "has_frames alloc 0 a \<longleftrightarrow> True"
| "has_frames alloc (Suc n) a \<longleftrightarrow> (\<exists>f a1. alloc a = Some (Some f, a1) \<and> has_frames alloc n a1)"

text \<open>The documented behaviour of \<open>Mapper::map_to\<close>: success maps the page and nothing else, an error maps
  nothing; a page that is not mapped, with no huge page above it, can be mapped when the allocator has
  frames for the three tables above the page.\<close>

locale page_mapper =
  fixes map_to :: "('m, BootInfoFrameAllocator) map_to_fn"
    and translate :: "'m \<Rightarrow> nat \<Rightarrow> nat option"
    and huge :: "'m \<Rightarrow> nat \<Rightarrow> bool"
  assumes map_to_ok:
    "map_to alloc page frame flags (m, a) = Some (Inr u, m', a') \<Longrightarrow> translate m' = (translate m)(page \<mapsto> frame)"
    and map_to_calls:
    "map_to alloc page frame flags (m, a) = Some (r, m', a') \<Longrightarrow> \<exists>n \<le> 3. calls alloc n a a'"
    and map_to_succeeds:
    "translate m page = None \<Longrightarrow> \<not> huge m page \<Longrightarrow> has_frames alloc 3 a \<Longrightarrow>
       \<exists>m' a'. map_to alloc page frame flags (m, a) = Some (Inr (), m', a') \<and> (\<forall>p. huge m' p \<longrightarrow> huge m p)"

lemma allocate_frame_calls:
  assumes "map_ok (memory_map a)" "allocate_frame a = Some (r, a')"
  shows "memory_map a' = memory_map a" "unat (next_frame a') = Suc (unat (next_frame a))"
    "r = (if unat (next_frame a) < length (frames (memory_map a))
          then Some (frames (memory_map a) ! unat (next_frame a)) else None)"
proof -
  have ne: "next_frame a \<noteq> - 1"
    using assms(2) by (auto simp: allocate_frame_def split: option.splits)
  then have "unat (next_frame a + 1) = Suc (unat (next_frame a))"
    by (metis add.commute add_eq_0_iff unatSuc)
  with ne assms show "memory_map a' = memory_map a" "unat (next_frame a') = Suc (unat (next_frame a))"
    "r = (if unat (next_frame a) < length (frames (memory_map a))
          then Some (frames (memory_map a) ! unat (next_frame a)) else None)"
    by (auto simp: allocate_frame_eq)
qed

lemma calls_allocate_frame:
  "map_ok (memory_map a) \<Longrightarrow> calls allocate_frame n a a' \<Longrightarrow>
     memory_map a' = memory_map a \<and> unat (next_frame a') = unat (next_frame a) + n"
proof (induction n arbitrary: a)
  case (Suc n)
  then obtain r a1 where "allocate_frame a = Some (r, a1)" "calls allocate_frame n a1 a'"
    by auto
  with allocate_frame_calls [OF Suc.prems(1)] Suc.IH [of a1] Suc.prems(1) show ?case
    by simp
qed simp

lemma has_frames_boot:
  assumes "map_ok (memory_map a)" "unat (next_frame a) + n \<le> length (frames (memory_map a))"
    and "length (frames (memory_map a)) < 2 ^ 64"
  shows "has_frames allocate_frame n a"
  using assms
proof (induction n arbitrary: a)
  case (Suc n)
  have ne: "next_frame a \<noteq> - 1"
    using Suc.prems by (auto simp: unsigned_minus_1_eq_mask mask_eq_exp_minus_1)
  then have step: "allocate_frame a = Some (Some (frames (memory_map a) ! unat (next_frame a)), a\<lparr>next_frame := next_frame a + 1\<rparr>)"
    using Suc.prems by (simp add: allocate_frame_eq)
  with allocate_frame_calls [OF Suc.prems(1) step] Suc.IH [of "a\<lparr>next_frame := next_frame a + 1\<rparr>"] Suc.prems
  show ?case
    by auto
qed simp

context page_mapper
begin

text \<open>The pages are mapped to frames with increasing numbers.\<close>

lemma map_pages_boot:
  assumes "map_pages map_to allocate_frame pages (m, a) = Some (Inr u, m', a')"
    and "map_ok (memory_map a)" "distinct pages"
  shows "\<exists>ns. length ns = length pages \<and> sorted_wrt (<) ns
    \<and> (\<forall>n \<in> set ns. unat (next_frame a) \<le> n \<and> n < length (frames (memory_map a)))
    \<and> (\<forall>i < length pages. translate m' (pages ! i) = Some (frames (memory_map a) ! (ns ! i)))
    \<and> (\<forall>p. p \<notin> set pages \<longrightarrow> translate m' p = translate m p)"
  using assms
proof (induction pages arbitrary: m a)
  case Nil
  then show ?case by simp
next
  case (Cons page pages)
  obtain frame a1 where a1: "allocate_frame a = Some (Some frame, a1)"
    using Cons.prems(1) by (auto split: option.splits)
  obtain m2 a2 where m2: "map_to allocate_frame page frame {PRESENT, WRITABLE} (m, a1) = Some (Inr (), m2, a2)"
      "map_pages map_to allocate_frame pages (m2, a2) = Some (Inr u, m', a')"
    using Cons.prems(1) a1 by (auto split: option.splits sum.splits)
  have next1: "memory_map a1 = memory_map a" "unat (next_frame a1) = Suc (unat (next_frame a))"
      "unat (next_frame a) < length (frames (memory_map a))" "frame = frames (memory_map a) ! unat (next_frame a)"
    using allocate_frame_calls [OF Cons.prems(2) a1] by (auto split: if_splits)
  obtain k where "calls allocate_frame k a1 a2"
    using map_to_calls [OF m2(1)] by blast
  then have next2: "memory_map a2 = memory_map a" "unat (next_frame a2) = Suc (unat (next_frame a)) + k"
    using calls_allocate_frame [of a1 k a2] Cons.prems(2) next1 by auto
  obtain ns where ns: "length ns = length pages" "sorted_wrt (<) ns"
      "\<forall>n \<in> set ns. unat (next_frame a2) \<le> n \<and> n < length (frames (memory_map a))"
      "\<forall>i < length pages. translate m' (pages ! i) = Some (frames (memory_map a) ! (ns ! i))"
      "\<forall>p. p \<notin> set pages \<longrightarrow> translate m' p = translate m2 p"
    using Cons.IH [OF m2(2)] Cons.prems next2 by auto
  have t2: "translate m2 = (translate m)(page \<mapsto> frame)"
    by (rule map_to_ok [OF m2(1)])
  show ?case
  proof (intro exI [of _ "unat (next_frame a) # ns"] conjI)
    show "sorted_wrt (<) (unat (next_frame a) # ns)"
      using ns(2,3) next2 by fastforce
    show "\<forall>n \<in> set (unat (next_frame a) # ns). unat (next_frame a) \<le> n \<and> n < length (frames (memory_map a))"
      using ns(3) next2 next1 by fastforce
    show "\<forall>i < length (page # pages). translate m' ((page # pages) ! i)
        = Some (frames (memory_map a) ! ((unat (next_frame a) # ns) ! i))"
      using ns(4,5) t2 next1 Cons.prems(3) by (auto simp: nth_Cons split: nat.split)
    show "\<forall>p. p \<notin> set (page # pages) \<longrightarrow> translate m' p = translate m p"
      using ns(5) t2 by simp
  qed (simp add: ns)
qed

lemma map_pages_succeeds:
  assumes "map_ok (memory_map a)" "length (frames (memory_map a)) < 2 ^ 64"
    and "unat (next_frame a) + 4 * length pages \<le> length (frames (memory_map a))"
    and "distinct pages" "\<forall>p \<in> set pages. translate m p = None \<and> \<not> huge m p"
  shows "\<exists>m' a'. map_pages map_to allocate_frame pages (m, a) = Some (Inr (), m', a')"
  using assms
proof (induction pages arbitrary: m a)
  case (Cons page pages)
  have "has_frames allocate_frame 4 a"
    using has_frames_boot [of a 4] Cons.prems by simp
  then obtain frame a1 where a1: "allocate_frame a = Some (Some frame, a1)" "has_frames allocate_frame 3 a1"
    by (auto simp: eval_nat_numeral)
  obtain m2 a2 where m2: "map_to allocate_frame page frame {PRESENT, WRITABLE} (m, a1) = Some (Inr (), m2, a2)"
      "\<forall>p. huge m2 p \<longrightarrow> huge m p"
    using map_to_succeeds [OF _ _ a1(2), of m page] Cons.prems(5) by fastforce
  obtain k where k: "k \<le> 3" "calls allocate_frame k a1 a2"
    using map_to_calls [OF m2(1)] by blast
  have "memory_map a2 = memory_map a" "unat (next_frame a2) = Suc (unat (next_frame a)) + k"
    using calls_allocate_frame [of a1 k a2] allocate_frame_calls [OF Cons.prems(1) a1(1)] Cons.prems(1) k(2) by auto
  moreover have "\<forall>p \<in> set pages. translate m2 p = None \<and> \<not> huge m2 p"
    using Cons.prems(4,5) m2(2) map_to_ok [OF m2(1)] by auto
  ultimately have "\<exists>m' a'. map_pages map_to allocate_frame pages (m2, a2) = Some (Inr (), m', a')"
    using Cons.IH [of a2 m2] Cons.prems(1-4) k(1) by auto
  with a1 m2 show ?case
    by simp
qed simp

end

lemma page_range_eq: "page_range = map (\<lambda>i. HEAP_START + FRAME_SIZE * i) [0..<256]"
proof -
  have "align_down HEAP_START = HEAP_START" "align_down (HEAP_START + HEAP_SIZE - 1) + 1 - HEAP_START = 255 * FRAME_SIZE + 1"
    by (simp_all add: align_down_def HEAP_START_def HEAP_SIZE_def FRAME_SIZE_def)
  then show ?thesis
    by (simp add: page_range_def step_range_def FRAME_SIZE_def del: upt_rec_numeral)
qed

lemma distinct_page_range: "distinct page_range"
  by (simp add: page_range_eq distinct_map FRAME_SIZE_def inj_on_def del: upt_rec_numeral)

context page_mapper
begin

lemma init_heap_maps:
  assumes "init_heap map_to allocate_frame (m, BootInfoFrameAllocator_init mm) = Some (Inr (start, sz), m', a')"
    and "map_ok mm"
  shows "start = HEAP_START \<and> sz = HEAP_SIZE
    \<and> (\<exists>fs. length fs = 256 \<and> distinct fs \<and> set fs \<subseteq> set (frames mm)
          \<and> (\<forall>i < 256. translate m' (HEAP_START + 4096 * i) = Some (fs ! i)))
    \<and> (\<forall>p. p < HEAP_START \<or> HEAP_START + HEAP_SIZE \<le> p \<longrightarrow> translate m' p = translate m p)"
proof -
  obtain u where u: "map_pages map_to allocate_frame page_range (m, BootInfoFrameAllocator_init mm) = Some (Inr u, m', a')"
    using assms(1) by (auto simp: init_heap_def split: option.splits sum.splits)
  obtain ns where ns: "length ns = 256" "sorted_wrt (<) ns" "\<forall>n \<in> set ns. n < length (frames mm)"
      "\<forall>i < 256. translate m' (page_range ! i) = Some (frames mm ! (ns ! i))"
      "\<forall>p. p \<notin> set page_range \<longrightarrow> translate m' p = translate m p"
    using map_pages_boot [OF u] assms(2) distinct_page_range
    by (auto simp: page_range_eq simp del: upt_rec_numeral)
  have "distinct (map (\<lambda>n. frames mm ! n) ns)"
    using ns(2,3) distinct_frames [OF assms(2)]
    by (auto simp: distinct_map strict_sorted_iff inj_on_nth inj_on_def nth_eq_iff_index_eq)
  moreover have "set (map (\<lambda>n. frames mm ! n) ns) \<subseteq> set (frames mm)"
    using ns(3) by auto
  moreover have "\<forall>i < 256. translate m' (HEAP_START + 4096 * i) = Some (map (\<lambda>n. frames mm ! n) ns ! i)"
    using ns(1,4) by (simp add: page_range_eq FRAME_SIZE_def del: upt_rec_numeral)
  moreover have "p \<notin> set page_range" if "p < HEAP_START \<or> HEAP_START + HEAP_SIZE \<le> p" for p
    using that by (auto simp: page_range_eq FRAME_SIZE_def HEAP_SIZE_def simp del: upt_rec_numeral)
  moreover have "start = HEAP_START \<and> sz = HEAP_SIZE"
    using assms(1) by (auto simp: init_heap_def split: option.splits sum.splits)
  ultimately show ?thesis
    using ns(1,5) by (metis length_map)
qed

lemma init_heap_succeeds:
  assumes "map_ok mm" "length (frames mm) < 2 ^ 64" "1024 \<le> length (frames mm)"
    and "\<forall>i < 256. translate m (HEAP_START + 4096 * i) = None \<and> \<not> huge m (HEAP_START + 4096 * i)"
  shows "\<exists>m' a'. init_heap map_to allocate_frame (m, BootInfoFrameAllocator_init mm)
    = Some (Inr (HEAP_START, HEAP_SIZE), m', a')"
  using map_pages_succeeds [of "BootInfoFrameAllocator_init mm" page_range m] assms distinct_page_range
  by (auto simp: init_heap_def page_range_eq FRAME_SIZE_def simp del: upt_rec_numeral)

end

text \<open>An instance: a table of translations that needs one frame for each 2 MiB it covers.\<close>

definition table_of :: "nat \<Rightarrow> nat" where
  "table_of page = page div (512 * FRAME_SIZE)"

definition sim_map_to :: "((nat \<Rightarrow> nat option) \<times> nat set, 'a) map_to_fn" where
  "sim_map_to alloc page frame flags = (\<lambda>((t, tables), a).
     if t page \<noteq> None then Some (Inl (PageAlreadyMapped (the (t page))), (t, tables), a)
     else if table_of page \<in> tables then Some (Inr (), (t(page \<mapsto> frame), tables), a)
     else case alloc a of
       None \<Rightarrow> None
     | Some (None, a) \<Rightarrow> Some (Inl FrameAllocationFailed, (t, tables), a)
     | Some (Some _, a) \<Rightarrow> Some (Inr (), (t(page \<mapsto> frame), insert (table_of page) tables), a))"

interpretation sm: page_mapper sim_map_to fst "\<lambda>_ _. False"
proof
  fix alloc page frame flags m a u m' a' r
  show "sim_map_to alloc page frame flags (m, a) = Some (Inr u, m', a') \<Longrightarrow> fst m' = (fst m)(page \<mapsto> frame)"
    by (auto simp: sim_map_to_def split: if_splits option.splits prod.splits)
  show "sim_map_to alloc page frame flags (m, a) = Some (r, m', a') \<Longrightarrow> \<exists>n \<le> 3. calls alloc n a a'"
    by (auto simp: sim_map_to_def intro: exI [of _ "0 :: nat"] exI [of _ "1 :: nat"]
        split: if_splits option.splits prod.splits)
  show "\<exists>m' a'. sim_map_to alloc page frame flags (m, a) = Some (Inr (), m', a') \<and> (\<forall>p. False \<longrightarrow> False)"
    if "fst m page = None" "has_frames alloc 3 a"
    using that by (auto simp: sim_map_to_def eval_nat_numeral split: option.splits prod.splits)
qed

section \<open>Properties\<close>

text \<open>C24: The frame allocator hands out exactly the frames of the usable regions, in order and each once,
  and then nothing.\<close>

theorem frames_allocated_once:
  assumes "map_ok m" "k < 2 ^ 64"
  shows "\<exists>a. allocate_frames k (BootInfoFrameAllocator_init m)
      = Some (map Some (take k (frames m)) @ replicate (k - length (frames m)) None, a)
    \<and> distinct (frames m)
    \<and> set (frames m) = {x. \<exists>r \<in> set m. region_type r = Usable \<and> start_addr r \<le> x \<and> x < end_addr r \<and> 4096 dvd x}"
proof -
  obtain a where a: "allocate_frames k (BootInfoFrameAllocator_init m)
      = Some (map (\<lambda>i. if i < length (frames m) then Some (frames m ! i) else None) [0..<k], a)"
    using allocate_frames_eq [of "BootInfoFrameAllocator_init m" k] assms by auto
  have "map (\<lambda>i. if i < length (frames m) then Some (frames m ! i) else None) [0..<k]
      = map Some (take k (frames m)) @ replicate (k - length (frames m)) None"
    by (rule nth_equalityI) (auto simp: nth_append)
  with a assms(1) show ?thesis
    by (simp add: distinct_frames set_frames FRAME_SIZE_def)
qed

definition small_map :: MemoryMap where
  "small_map = [\<lparr>start_addr = 0, end_addr = 0x1000, region_type = OtherRegion 0\<rparr>,
     \<lparr>start_addr = 0x1000, end_addr = 0x3000, region_type = Usable\<rparr>,
     \<lparr>start_addr = 0x10000, end_addr = 0x11000, region_type = Usable\<rparr>]"

theorem frames_allocated_once_witness:
  "\<exists>a. allocate_frames 4 (BootInfoFrameAllocator_init small_map)
     = Some ([Some 0x1000, Some 0x2000, Some 0x10000, None], a)"
proof -
  have "map_ok small_map"
    by (simp add: map_ok_def small_map_def FRAME_SIZE_def)
  moreover have "frames small_map = [0x1000, 0x2000, 0x10000]"
    by (simp add: frames_def small_map_def step_range_def FRAME_SIZE_def upt_rec)
  ultimately show ?thesis
    using frames_allocated_once [of small_map 4] by simp
qed

text \<open>C25: When the heap is initialised, its 256 pages are mapped to different usable frames, no other page
  is touched, and the allocator gets exactly this range. It is initialised whenever 1024 usable frames
  are left and its pages are free.\<close>

theorem heap_initialised:
  assumes "page_mapper map_to translate huge" "map_ok mm" "length (frames mm) < 2 ^ 64"
  shows "(\<forall>start size m' a'. init_heap map_to allocate_frame (m, BootInfoFrameAllocator_init mm) = Some (Inr (start, size), m', a') \<longrightarrow>
        start = HEAP_START \<and> size = HEAP_SIZE
        \<and> (\<exists>fs. length fs = 256 \<and> distinct fs \<and> set fs \<subseteq> set (frames mm)
              \<and> (\<forall>i < 256. translate m' (HEAP_START + 4096 * i) = Some (fs ! i)))
        \<and> (\<forall>p. p < HEAP_START \<or> HEAP_START + HEAP_SIZE \<le> p \<longrightarrow> translate m' p = translate m p))
    \<and> (1024 \<le> length (frames mm) \<and> (\<forall>i < 256. translate m (HEAP_START + 4096 * i) = None \<and> \<not> huge m (HEAP_START + 4096 * i)) \<longrightarrow>
        (\<exists>m' a'. init_heap map_to allocate_frame (m, BootInfoFrameAllocator_init mm) = Some (Inr (HEAP_START, HEAP_SIZE), m', a')))"
  using page_mapper.init_heap_maps [OF assms(1) _ assms(2), of m] page_mapper.init_heap_succeeds [OF assms, of m]
  by blast

definition eight_mib :: MemoryMap where
  "eight_mib = [\<lparr>start_addr = 0x100000, end_addr = 0x900000, region_type = Usable\<rparr>]"

theorem heap_initialised_witness:
  "\<exists>m' a' fs. init_heap sim_map_to allocate_frame ((\<lambda>_. None, {}), BootInfoFrameAllocator_init eight_mib)
       = Some (Inr (HEAP_START, HEAP_SIZE), m', a')
     \<and> length fs = 256 \<and> distinct fs \<and> (\<forall>i < 256. fst m' (HEAP_START + 4096 * i) = Some (fs ! i))"
proof -
  have ok: "map_ok eight_mib" "length (frames eight_mib) = 2048"
    by (simp_all add: map_ok_def eight_mib_def frames_def FRAME_SIZE_def length_step_range [unfolded FRAME_SIZE_def])
  show ?thesis
    using heap_initialised [OF sm.page_mapper_axioms ok(1), of "(\<lambda>_. None, {})"] ok(2) by fastforce
qed

end
