(* ===== verification/E1000.thy ===== *)
theory E1000
  imports Pci Memory
begin

text \<open>
  The e1000 network driver (\<open>net/e1000.rs\<close>): device set-up and the two descriptor rings. Ports, memory-mapped
  registers and the heap are parameters. Descriptors and buffers are memory that driver and controller
  share; the locale \<open>nic\<close> says what the controller's manual says of its registers and of what it does to
  the rings. Diagnostics on the serial port leave no trace; \<open>None\<close> is a panic, which includes arithmetic
  overflow.
\<close>

section \<open>Definitions\<close>

definition PACKET_BUFFER_SIZE :: nat where "PACKET_BUFFER_SIZE = 2048"
definition TX_DESC_COUNT :: nat where "TX_DESC_COUNT = 64"
definition RX_DESC_COUNT :: nat where "RX_DESC_COUNT = 64"

definition REG_CTRL :: u32 where "REG_CTRL = 0x0000"
definition REG_STATUS :: u32 where "REG_STATUS = 0x0008"
definition REG_IMC :: u32 where "REG_IMC = 0x00D8"
definition REG_RCTL :: u32 where "REG_RCTL = 0x0100"
definition REG_RDBAL :: u32 where "REG_RDBAL = 0x2800"
definition REG_RDBAH :: u32 where "REG_RDBAH = 0x2804"
definition REG_RDLEN :: u32 where "REG_RDLEN = 0x2808"
definition REG_RDH :: u32 where "REG_RDH = 0x2810"
definition REG_RDT :: u32 where "REG_RDT = 0x2818"
definition REG_TCTL :: u32 where "REG_TCTL = 0x0400"
definition REG_TIPG :: u32 where "REG_TIPG = 0x0410"
definition REG_TDBAL :: u32 where "REG_TDBAL = 0x3800"
definition REG_TDBAH :: u32 where "REG_TDBAH = 0x3804"
definition REG_TDLEN :: u32 where "REG_TDLEN = 0x3808"
definition REG_TDH :: u32 where "REG_TDH = 0x3810"
definition REG_TDT :: u32 where "REG_TDT = 0x3818"
definition REG_RAL0 :: u32 where "REG_RAL0 = 0x5400"
definition REG_RAH0 :: u32 where "REG_RAH0 = 0x5404"

definition CTRL_RST :: u32 where "CTRL_RST = push_bit 26 1"
definition CTRL_SLU :: u32 where "CTRL_SLU = push_bit 6 1"
definition RCTL_EN :: u32 where "RCTL_EN = push_bit 1 1"
definition RCTL_BAM :: u32 where "RCTL_BAM = push_bit 15 1"
definition TCTL_EN :: u32 where "TCTL_EN = push_bit 1 1"
definition TCTL_PSP :: u32 where "TCTL_PSP = push_bit 3 1"

definition TX_DD :: u8 where "TX_DD = push_bit 0 1"
definition RX_DD :: u8 where "RX_DD = push_bit 0 1"

lemmas e1000_registers =
  REG_CTRL_def REG_STATUS_def REG_IMC_def REG_RCTL_def REG_RDBAL_def REG_RDBAH_def REG_RDLEN_def
  REG_RDH_def REG_RDT_def REG_TCTL_def REG_TIPG_def REG_TDBAL_def REG_TDBAH_def REG_TDLEN_def
  REG_TDH_def REG_TDT_def REG_RAL0_def REG_RAH0_def

record TxDesc =
  tx_addr :: u64
  tx_length :: u16
  tx_cso :: u8
  tx_cmd :: u8
  tx_status :: u8
  tx_css :: u8
  tx_special :: u16

definition TxDesc_default :: TxDesc where
  "TxDesc_default = \<lparr>tx_addr = 0, tx_length = 0, tx_cso = 0, tx_cmd = 0, tx_status = 0, tx_css = 0, tx_special = 0\<rparr>"

record RxDesc =
  rx_addr :: u64
  rx_length :: u16
  rx_checksum :: u16
  rx_status :: u8
  rx_errors :: u8
  rx_special :: u16

definition RxDesc_default :: RxDesc where
  "RxDesc_default = \<lparr>rx_addr = 0, rx_length = 0, rx_checksum = 0, rx_status = 0, rx_errors = 0, rx_special = 0\<rparr>"

text \<open>The driver, with the addresses of its four boxes beside their contents.\<close>

record E1000 =
  mmio :: u64
  phys_mem_offset :: u64
  mac_address :: "u8 list"
  tx_descs :: "TxDesc list"
  tx_descs_ptr :: u64
  tx_buffers :: "u8 list list"
  tx_buffers_ptr :: u64
  tx_cur :: nat
  rx_descs :: "RxDesc list"
  rx_descs_ptr :: u64
  rx_buffers :: "u8 list list"
  rx_buffers_ptr :: u64
  rx_cur :: nat

text \<open>The hardware and the heap: \<open>box_alloc\<close> gives the address of a box of some size.\<close>

record 'n nic_env =
  mmio_read :: "u64 \<Rightarrow> 'n \<Rightarrow> u32 \<times> 'n"
  mmio_write :: "u64 \<Rightarrow> u32 \<Rightarrow> 'n \<Rightarrow> 'n"
  pci_ports :: "'n port_ops"
  box_alloc :: "nat \<Rightarrow> 'n \<Rightarrow> u64 option \<times> 'n"

definition read_reg :: "'n nic_env \<Rightarrow> E1000 \<Rightarrow> u32 \<Rightarrow> 'n \<Rightarrow> u32 \<times> 'n" where
  "read_reg N d offset n = mmio_read N (mmio d + ucast offset) n"

definition write_reg :: "'n nic_env \<Rightarrow> E1000 \<Rightarrow> u32 \<Rightarrow> u32 \<Rightarrow> 'n \<Rightarrow> 'n" where
  "write_reg N d offset v n = mmio_write N (mmio d + ucast offset) v n"

definition virt_to_phys :: "E1000 \<Rightarrow> u64 \<Rightarrow> u64 option" where
  "virt_to_phys d virt = (if virt < phys_mem_offset d then None else Some (virt - phys_mem_offset d))"

definition E1000_reset :: "'n nic_env \<Rightarrow> E1000 \<Rightarrow> 'n \<Rightarrow> 'n" where
  "E1000_reset N d n = write_reg N d REG_CTRL CTRL_RST (write_reg N d REG_IMC 0xFFFFFFFF n)"

definition read_mac_address :: "'n nic_env \<Rightarrow> E1000 \<times> 'n \<Rightarrow> E1000 \<times> 'n" where
  "read_mac_address N = (\<lambda>(d, n).
     let (ral, n) = read_reg N d REG_RAL0 n;
         (rah, n) = read_reg N d REG_RAH0 n
     in if rah AND push_bit 31 1 \<noteq> 0 \<or> ral \<noteq> 0
        then (d\<lparr>mac_address := [ucast ral, ucast (drop_bit 8 ral), ucast (drop_bit 16 ral), ucast (drop_bit 24 ral),
                               ucast rah, ucast (drop_bit 8 rah)]\<rparr>, n)
        else (d\<lparr>mac_address := [0x02, 0x00, 0x00, 0x00, 0x00, 0x01]\<rparr>, n))"

definition write_mac_address :: "'n nic_env \<Rightarrow> E1000 \<Rightarrow> 'n \<Rightarrow> 'n" where
  "write_mac_address N d n =
     (let mac = mac_address d;
          ral = le_value [mac ! 0, mac ! 1, mac ! 2, mac ! 3];
          rah = le_value [mac ! 4, mac ! 5, 0, 0] OR push_bit 31 1
      in write_reg N d REG_RAH0 rah (write_reg N d REG_RAL0 ral n))"

text \<open>The address of buffer \<open>i\<close> in a box of buffers.\<close>

definition buffer_ptr :: "u64 \<Rightarrow> nat \<Rightarrow> u64" where
  "buffer_ptr p i = p + of_nat (PACKET_BUFFER_SIZE * i)"

primrec init_tx_descs :: "nat \<Rightarrow> E1000 \<Rightarrow> E1000 option" where
  "init_tx_descs 0 d = Some d"
| "init_tx_descs (Suc i) d =
     Option.bind (init_tx_descs i d) (\<lambda>d.
       map_option (\<lambda>phys. d\<lparr>tx_descs := (tx_descs d)[i := (tx_descs d ! i)\<lparr>tx_addr := phys, tx_status := TX_DD\<rparr>]\<rparr>)
         (virt_to_phys d (buffer_ptr (tx_buffers_ptr d) i)))"

definition init_tx :: "'n nic_env \<Rightarrow> E1000 \<times> 'n \<Rightarrow> (E1000 \<times> 'n) option" where
  "init_tx N = (\<lambda>(d, n).
     Option.bind (init_tx_descs TX_DESC_COUNT d) (\<lambda>d.
     Option.bind (virt_to_phys d (tx_descs_ptr d)) (\<lambda>phys.
       let n = write_reg N d REG_TDBAL (ucast phys) n;
           n = write_reg N d REG_TDBAH (ucast (drop_bit 32 phys)) n;
           n = write_reg N d REG_TDLEN (of_nat (TX_DESC_COUNT * 16)) n;
           n = write_reg N d REG_TDH 0 n;
           n = write_reg N d REG_TDT 0 n;
           n = write_reg N d REG_TIPG 0x0060200A n;
           n = write_reg N d REG_TCTL (TCTL_EN OR TCTL_PSP OR push_bit 4 0x10 OR push_bit 12 0x40) n
       in Some (d, n))))"

primrec init_rx_descs :: "nat \<Rightarrow> E1000 \<Rightarrow> E1000 option" where
  "init_rx_descs 0 d = Some d"
| "init_rx_descs (Suc i) d =
     Option.bind (init_rx_descs i d) (\<lambda>d.
       map_option (\<lambda>phys. d\<lparr>rx_descs := (rx_descs d)[i := (rx_descs d ! i)\<lparr>rx_addr := phys, rx_status := 0\<rparr>]\<rparr>)
         (virt_to_phys d (buffer_ptr (rx_buffers_ptr d) i)))"

definition init_rx :: "'n nic_env \<Rightarrow> E1000 \<times> 'n \<Rightarrow> (E1000 \<times> 'n) option" where
  "init_rx N = (\<lambda>(d, n).
     Option.bind (init_rx_descs RX_DESC_COUNT d) (\<lambda>d.
     Option.bind (virt_to_phys d (rx_descs_ptr d)) (\<lambda>phys.
       let n = write_reg N d REG_RDBAL (ucast phys) n;
           n = write_reg N d REG_RDBAH (ucast (drop_bit 32 phys)) n;
           n = write_reg N d REG_RDLEN (of_nat (RX_DESC_COUNT * 16)) n;
           n = write_reg N d REG_RDH 0 n;
           n = write_reg N d REG_RDT (of_nat (RX_DESC_COUNT - 1)) n;
           n = write_reg N d REG_RCTL (RCTL_EN OR RCTL_BAM OR push_bit 3 1 OR push_bit 4 1) n;
           (ctrl, n) = read_reg N d REG_CTRL n;
           n = write_reg N d REG_CTRL (ctrl OR CTRL_SLU) n
       in Some (d, n))))"

text \<open>\<open>E1000::new\<close>: \<open>Some (None, _)\<close> when the device has no memory-mapped registers. The boxes of
  descriptors and buffers, the driver around them, and its set-up.\<close>

definition box_new :: "'n nic_env \<Rightarrow> nat \<Rightarrow> 'n \<Rightarrow> (u64 \<times> 'n) option" where
  "box_new N k n = (case box_alloc N k n of (None, n) \<Rightarrow> None | (Some p, n) \<Rightarrow> Some (p, n))"

definition E1000_boxes :: "'n nic_env \<Rightarrow> 'n \<Rightarrow> ((u64 \<times> u64 \<times> u64 \<times> u64) \<times> 'n) option" where
  "E1000_boxes N n =
     Option.bind (box_new N (TX_DESC_COUNT * 16) n) (\<lambda>(p1, n).
     Option.bind (box_new N (TX_DESC_COUNT * PACKET_BUFFER_SIZE) n) (\<lambda>(p2, n).
     Option.bind (box_new N (RX_DESC_COUNT * 16) n) (\<lambda>(p3, n).
     Option.bind (box_new N (RX_DESC_COUNT * PACKET_BUFFER_SIZE) n) (\<lambda>(p4, n).
       Some ((p1, p2, p3, p4), n)))))"

definition E1000_struct :: "u64 \<Rightarrow> u64 \<Rightarrow> u64 \<times> u64 \<times> u64 \<times> u64 \<Rightarrow> E1000" where
  "E1000_struct base offset = (\<lambda>(p1, p2, p3, p4).
     \<lparr>mmio = base, phys_mem_offset = offset, mac_address = replicate 6 0,
      tx_descs = replicate TX_DESC_COUNT TxDesc_default, tx_descs_ptr = p1,
      tx_buffers = replicate TX_DESC_COUNT (replicate PACKET_BUFFER_SIZE 0), tx_buffers_ptr = p2, tx_cur = 0,
      rx_descs = replicate RX_DESC_COUNT RxDesc_default, rx_descs_ptr = p3,
      rx_buffers = replicate RX_DESC_COUNT (replicate PACKET_BUFFER_SIZE 0), rx_buffers_ptr = p4, rx_cur = 0\<rparr>)"

definition E1000_start :: "'n nic_env \<Rightarrow> E1000 \<Rightarrow> 'n \<Rightarrow> (E1000 \<times> 'n) option" where
  "E1000_start N d n =
     (let n = E1000_reset N d n;
          (d, n) = read_mac_address N (d, n);
          n = write_mac_address N d n
      in Option.bind (init_tx N (d, n)) (\<lambda>s.
         Option.bind (init_rx N s) (\<lambda>(d, n). Some (d, snd (read_reg N d REG_STATUS n)))))"

definition E1000_new :: "'n nic_env \<Rightarrow> PciDevice \<Rightarrow> u64 \<Rightarrow> 'n \<Rightarrow> (E1000 option \<times> 'n) option" where
  "E1000_new N pci_dev offset n =
     (let n = PciDevice_enable (pci_ports N) pci_dev n in
      case mmio_base pci_dev of
        None \<Rightarrow> Some (None, n)
      | Some mmio_phys \<Rightarrow>
          if 2 ^ 64 \<le> unat mmio_phys + unat offset then None
          else
            Option.bind (E1000_boxes N n) (\<lambda>(boxes, n).
              map_option (\<lambda>(d, n). (Some d, n)) (E1000_start N (E1000_struct (mmio_phys + offset) offset boxes) n)))"

definition E1000_probe :: "'n nic_env \<Rightarrow> u64 \<Rightarrow> 'n \<Rightarrow> (E1000 option \<times> 'n) option" where
  "E1000_probe N offset n =
     (case find_e1000 (pci_ports N) n of
        (None, n) \<Rightarrow> Some (None, n)
      | (Some pci, n) \<Rightarrow> E1000_new N pci offset n)"

section \<open>The rings\<close>

definition transmit_raw :: "'n nic_env \<Rightarrow> u8 list \<Rightarrow> E1000 \<times> 'n \<Rightarrow> (bool \<times> E1000 \<times> 'n) option" where
  "transmit_raw N data = (\<lambda>(d, n).
     if length data > PACKET_BUFFER_SIZE then Some (False, d, n)
     else
       let idx = tx_cur d in
       if length (tx_descs d) \<le> idx then None
       else
         let desc = tx_descs d ! idx in
         if tx_status desc AND TX_DD = 0 then Some (False, d, n)
         else
           let d = d\<lparr>tx_buffers := (tx_buffers d)[idx := data @ drop (length data) (tx_buffers d ! idx)]\<rparr>;
               desc = desc\<lparr>tx_length := of_nat (length data), tx_cmd := push_bit 0 1 OR push_bit 1 1 OR push_bit 3 1,
                           tx_status := 0\<rparr>;
               d = d\<lparr>tx_descs := (tx_descs d)[idx := desc], tx_cur := (tx_cur d + 1) mod TX_DESC_COUNT\<rparr>;
               n = write_reg N d REG_TDT (of_nat (tx_cur d)) n
           in Some (True, d, n))"

definition receive_raw :: "'n nic_env \<Rightarrow> E1000 \<times> 'n \<Rightarrow> (u8 list option \<times> E1000 \<times> 'n) option" where
  "receive_raw N = (\<lambda>(d, n).
     let idx = rx_cur d in
     if length (rx_descs d) \<le> idx then None
     else
       let desc = rx_descs d ! idx in
       if rx_status desc AND RX_DD = 0 then
         let (rdh, n) = read_reg N d REG_RDH n in Some (None, d, n)
       else
         let len = unat (rx_length desc) in
         if length (rx_buffers d ! idx) < len then None
         else
           let data = take len (rx_buffers d ! idx);
               d = d\<lparr>rx_descs := (rx_descs d)[idx := desc\<lparr>rx_status := 0\<rparr>],
                     rx_cur := (rx_cur d + 1) mod RX_DESC_COUNT\<rparr>;
               n = write_reg N d REG_RDT (of_nat idx) n
           in Some (Some data, d, n))"

text \<open>The device of \<open>smoltcp\<close>: a transmit token exists while the current descriptor is free; consuming it
  fills a buffer with the function given and drops what \<open>transmit_raw\<close> refuses.\<close>

definition E1000_can_transmit :: "E1000 \<Rightarrow> bool option" where
  "E1000_can_transmit d =
     (if length (tx_descs d) \<le> tx_cur d then None else Some (tx_status (tx_descs d ! tx_cur d) AND TX_DD \<noteq> 0))"

definition E1000_consume_tx ::
    "'n nic_env \<Rightarrow> nat \<Rightarrow> (u8 list \<Rightarrow> 'r \<times> u8 list) \<Rightarrow> E1000 \<times> 'n \<Rightarrow> ('r \<times> E1000 \<times> 'n) option" where
  "E1000_consume_tx N len f s =
     (let (r, b) = f (replicate len 0) in map_option (\<lambda>(_, s). (r, s)) (transmit_raw N b s))"

end
