(* ===== verification/E1000_Spec.thy ===== *)
theory E1000_Spec
  imports E1000
begin

text \<open>
  The descriptor rings of the e1000 driver together with the controller: the locales \<open>nic_registers\<close> and \<open>nic\<close> with
  the documented behaviour of the controller, runs in which driver and controller take turns, and the
  refinement of the two rings to queues of frames. The controller reaches descriptors and buffers by the physical
  addresses in its registers and in the descriptors; that these are where the driver's boxes are is part of what
  is proved, or refuted.
\<close>

section \<open>The controller\<close>

record ring_regs =
  rdbal :: u32
  rdbah :: u32
  rdlen :: u32
  rdh :: nat
  rdt :: nat
  rctl :: u32
  tdbal :: u32
  tdbah :: u32
  tdlen :: u32
  tdh :: nat
  tdt :: nat

definition set_reg :: "u32 \<Rightarrow> u32 \<Rightarrow> ring_regs \<Rightarrow> ring_regs" where
  "set_reg off v r =
     (if off = REG_RDBAL then r\<lparr>rdbal := v\<rparr> else if off = REG_RDBAH then r\<lparr>rdbah := v\<rparr>
      else if off = REG_RDLEN then r\<lparr>rdlen := v\<rparr>
      else if off = REG_RDH then r\<lparr>rdh := unat v\<rparr> else if off = REG_RDT then r\<lparr>rdt := unat v\<rparr>
      else if off = REG_RCTL then r\<lparr>rctl := v\<rparr>
      else if off = REG_TDBAL then r\<lparr>tdbal := v\<rparr> else if off = REG_TDBAH then r\<lparr>tdbah := v\<rparr>
      else if off = REG_TDLEN then r\<lparr>tdlen := v\<rparr>
      else if off = REG_TDH then r\<lparr>tdh := unat v\<rparr> else if off = REG_TDT then r\<lparr>tdt := unat v\<rparr> else r)"

text \<open>The physical address of a ring, and the size of a receive buffer, as the registers say.\<close>

definition ring_base :: "u32 \<Rightarrow> u32 \<Rightarrow> u64" where
  "ring_base low high = push_bit 32 (ucast high) OR ucast low"

abbreviation rx_base :: "ring_regs \<Rightarrow> u64" where "rx_base r \<equiv> ring_base (rdbal r) (rdbah r)"
abbreviation tx_base :: "ring_regs \<Rightarrow> u64" where "tx_base r \<equiv> ring_base (tdbal r) (tdbah r)"

definition rx_buffer_size :: "u32 \<Rightarrow> nat" where
  "rx_buffer_size v =
     (let bsize = unat (drop_bit 16 v AND 3) in (if bit v 25 then [0, 16384, 8192, 4096] else [2048, 1024, 512, 256]) ! bsize)"

text \<open>The bytes at a virtual address are those at a physical one: \<open>pa\<close> is the physical address of a virtual one.\<close>

definition dma_at :: "(u64 \<Rightarrow> u64) \<Rightarrow> u64 \<Rightarrow> u64 \<Rightarrow> nat \<Rightarrow> bool" where
  "dma_at pa a v len \<longleftrightarrow> (\<forall>k < len. pa (v + of_nat k) = a + of_nat k)"

definition desc_ptr :: "u64 \<Rightarrow> nat \<Rightarrow> u64" where
  "desc_ptr p i = p + of_nat (16 * i)"

datatype nic_event = Stored "u8 list" | Sent "u8 list" | Quiet

text \<open>Descriptor \<open>i\<close> and buffer \<open>j\<close> of the driver, written by the controller.\<close>

definition store_frame :: "u8 list \<Rightarrow> nat \<Rightarrow> nat \<Rightarrow> RxDesc \<Rightarrow> E1000 \<Rightarrow> E1000" where
  "store_frame f i j desc d =
     d\<lparr>rx_descs := (rx_descs d)[i := desc], rx_buffers := (rx_buffers d)[j := f @ drop (length f) (rx_buffers d ! j)]\<rparr>"

definition complete_tx :: "nat \<Rightarrow> E1000 \<Rightarrow> E1000" where
  "complete_tx i d =
     d\<lparr>tx_descs := (tx_descs d)[i := (tx_descs d ! i)\<lparr>tx_status := tx_status (tx_descs d ! i) OR TX_DD\<rparr>]\<rparr>"

text \<open>The registers keep what is written to them, except by a reset, and reading changes none.\<close>

locale nic_registers =
  fixes N :: "'n nic_env"
    and base :: u64
    and regs :: "'n \<Rightarrow> ring_regs"
  assumes write_regs: "\<not> (off = REG_CTRL \<and> bit v 26) \<Longrightarrow> regs (mmio_write N (base + ucast off) v n) = set_reg off v (regs n)"
    and read_regs: "mmio_read N a n = (v, n') \<Longrightarrow> regs n' = regs n"
    and reset_done: "mmio_read N (base + ucast REG_CTRL) n = (v, n') \<Longrightarrow> \<not> bit v 26"

text \<open>The controller stores a frame while receive head and tail differ, and one that fits a buffer. It reads the
  descriptor at the head from the ring's address in its registers, which has to be aligned. If the driver's descriptor
  \<open>i\<close> is there, and its buffer \<open>j\<close> at the address in that descriptor, the frame goes into the buffer, and length and
  status into the descriptor, whose address stays. Sending is similar. If the addresses lead elsewhere, nothing
  is said about the driver's memory.\<close>

locale nic = nic_registers N base regs for N :: "'n nic_env" and base regs +
  fixes pa :: "u64 \<Rightarrow> u64"
    and hw :: "E1000 \<times> 'n \<Rightarrow> nic_event \<Rightarrow> E1000 \<times> 'n \<Rightarrow> bool"
  assumes hw_room: "hw (d, n) (Stored f) (d', n') \<Longrightarrow>
      rdh (regs n) \<noteq> rdt (regs n) \<and> length f \<le> rx_buffer_size (rctl (regs n))"
    and hw_Stored: "hw (d, n) (Stored f) (d', n') \<Longrightarrow> i < RX_DESC_COUNT \<Longrightarrow> j < RX_DESC_COUNT \<Longrightarrow> length f \<le> PACKET_BUFFER_SIZE \<Longrightarrow>
      rx_base (regs n) AND 15 = 0 \<Longrightarrow>
      dma_at pa (desc_ptr (rx_base (regs n)) (rdh (regs n))) (desc_ptr (rx_descs_ptr d) i) 16 \<Longrightarrow>
      dma_at pa (rx_addr (rx_descs d ! i)) (buffer_ptr (rx_buffers_ptr d) j) PACKET_BUFFER_SIZE \<Longrightarrow>
      (\<exists>desc. rx_status desc AND RX_DD \<noteq> 0 \<and> rx_length desc = of_nat (length f) \<and> rx_addr desc = rx_addr (rx_descs d ! i)
            \<and> d' = store_frame f i j desc d)
      \<and> regs n' = (regs n)\<lparr>rdh := (rdh (regs n) + 1) mod (unat (rdlen (regs n)) div 16)\<rparr>"
    and hw_ready: "hw (d, n) (Sent f) (d', n') \<Longrightarrow> tdh (regs n) \<noteq> tdt (regs n)"
    and hw_Sent: "hw (d, n) (Sent f) (d', n') \<Longrightarrow> i < TX_DESC_COUNT \<Longrightarrow> j < TX_DESC_COUNT \<Longrightarrow>
      unat (tx_length (tx_descs d ! i)) \<le> PACKET_BUFFER_SIZE \<Longrightarrow> tx_base (regs n) AND 15 = 0 \<Longrightarrow>
      dma_at pa (desc_ptr (tx_base (regs n)) (tdh (regs n))) (desc_ptr (tx_descs_ptr d) i) 16 \<Longrightarrow>
      dma_at pa (tx_addr (tx_descs d ! i)) (buffer_ptr (tx_buffers_ptr d) j) PACKET_BUFFER_SIZE \<Longrightarrow>
      f = take (unat (tx_length (tx_descs d ! i))) (tx_buffers d ! j) \<and> d' = complete_tx i d
      \<and> regs n' = (regs n)\<lparr>tdh := (tdh (regs n) + 1) mod (unat (tdlen (regs n)) div 16)\<rparr>"
    and hw_Quiet: "hw (d, n) Quiet (d', n') \<Longrightarrow> d' = d \<and> regs n' = regs n"

text \<open>Driver calls and steps of the controller in any order.\<close>

datatype ring_event = Hw nic_event | Received "u8 list option" | Transmitted "u8 list" bool

inductive ring_run ::
    "'n nic_env \<Rightarrow> (E1000 \<times> 'n \<Rightarrow> nic_event \<Rightarrow> E1000 \<times> 'n \<Rightarrow> bool) \<Rightarrow> E1000 \<times> 'n \<Rightarrow> ring_event list
     \<Rightarrow> E1000 \<times> 'n \<Rightarrow> bool"
  for N hw where
  ring_nil: "ring_run N hw s [] s"
| ring_hw: "ring_run N hw s es s' \<Longrightarrow> hw s' e s'' \<Longrightarrow> ring_run N hw s (es @ [Hw e]) s''"
| ring_receive: "ring_run N hw s es s' \<Longrightarrow> receive_raw N s' = Some (r, s'') \<Longrightarrow> ring_run N hw s (es @ [Received r]) s''"
| ring_transmit: "ring_run N hw s es s' \<Longrightarrow> transmit_raw N data s' = Some (ok, s'') \<Longrightarrow>
    ring_run N hw s (es @ [Transmitted data ok]) s''"

definition stored :: "ring_event list \<Rightarrow> u8 list list" where
  "stored es = concat (map (\<lambda>e. case e of Hw (Stored f) \<Rightarrow> [f] | _ \<Rightarrow> []) es)"

definition received :: "ring_event list \<Rightarrow> u8 list list" where
  "received es = concat (map (\<lambda>e. case e of Received (Some f) \<Rightarrow> [f] | _ \<Rightarrow> []) es)"

definition sent :: "ring_event list \<Rightarrow> u8 list list" where
  "sent es = concat (map (\<lambda>e. case e of Hw (Sent f) \<Rightarrow> [f] | _ \<Rightarrow> []) es)"

definition accepted :: "ring_event list \<Rightarrow> u8 list list" where
  "accepted es = concat (map (\<lambda>e. case e of Transmitted f True \<Rightarrow> [f] | _ \<Rightarrow> []) es)"

lemmas ring_logs = stored_def received_def sent_def accepted_def

section \<open>Ring arithmetic\<close>

lemma ring_index_eq:
  "j < 64 \<and> k < 64 \<Longrightarrow> (c + j) mod 64 = (c + k) mod 64 \<longleftrightarrow> j = k" for c j k :: nat
proof (induction j k rule: linorder_wlog)
  case (le j k)
  show ?case
  proof
    assume "(c + j) mod 64 = (c + k) mod 64"
    then have "64 dvd k - j"
      using mod_eq_dvd_iff_nat [of "c + j" "c + k" 64] le(1) by (simp add: eq_commute)
    with le show "j = k"
      using nat_dvd_not_less [of "k - j" 64] by fastforce
  qed simp
qed (simp add: eq_commute)

lemma ring_update:
  "length xs = 64 \<Longrightarrow> j < 64 \<Longrightarrow> k < 64 \<Longrightarrow>
     xs[(c + k) mod 64 := x] ! ((c + j) mod 64) = (if j = k then x else xs ! ((c + j) mod 64))"
  by (simp add: nth_list_update ring_index_eq)

lemma ring_next: "(Suc c mod 64 + j) mod 64 = (c + Suc j) mod 64" for c j :: nat
  by (simp add: mod_simps)

section \<open>The receive ring\<close>

definition rx_full :: "u8 list \<Rightarrow> E1000 \<Rightarrow> nat \<Rightarrow> bool" where
  "rx_full f d i \<longleftrightarrow> rx_status (rx_descs d ! i) AND RX_DD \<noteq> 0 \<and> unat (rx_length (rx_descs d ! i)) = length f
     \<and> length f \<le> 2048 \<and> take (length f) (rx_buffers d ! i) = f"

definition rx_empty :: "E1000 \<Rightarrow> nat \<Rightarrow> bool" where
  "rx_empty d i \<longleftrightarrow> rx_status (rx_descs d ! i) AND RX_DD = 0"

text \<open>The ring holds the frames \<open>q\<close>, from the current descriptor to the head.\<close>

definition rx_ring :: "ring_regs \<Rightarrow> u8 list list \<Rightarrow> E1000 \<Rightarrow> bool" where
  "rx_ring r q d \<longleftrightarrow>
     length (rx_descs d) = 64 \<and> length (rx_buffers d) = 64 \<and> (\<forall>b \<in> set (rx_buffers d). length b = 2048)
     \<and> rx_cur d < 64 \<and> length q \<le> 63
     \<and> rdh r = (rx_cur d + length q) mod 64 \<and> rdt r = (rx_cur d + 63) mod 64
     \<and> (\<forall>j < 64. if j < length q then rx_full (q ! j) d ((rx_cur d + j) mod 64)
                 else rx_empty d ((rx_cur d + j) mod 64))"

lemma rx_ring_store:
  assumes "rx_ring r q d" "rdh r \<noteq> rdt r" "length f \<le> 2048"
    and "rx_status desc AND RX_DD \<noteq> 0" "rx_length desc = of_nat (length f)"
  shows "rx_ring (r\<lparr>rdh := (rdh r + 1) mod 64\<rparr>) (q @ [f]) (store_frame f (rdh r) (rdh r) desc d)"
proof -
  let ?c = "rx_cur d" and ?k = "length q"
  let ?d = "store_frame f (rdh r) (rdh r) desc d"
  have r: "length (rx_descs d) = 64" "length (rx_buffers d) = 64" "\<forall>b \<in> set (rx_buffers d). length b = 2048"
    "?c < 64" "?k \<le> 63" "rdh r = (?c + ?k) mod 64" "rdt r = (?c + 63) mod 64"
    "\<forall>j < 64. if j < ?k then rx_full (q ! j) d ((?c + j) mod 64) else rx_empty d ((?c + j) mod 64)"
    using assms(1) by (auto simp: rx_ring_def)
  have k: "?k < 63"
    using assms(2) r(5-7) by (metis antisym_conv2)
  have b: "length (rx_buffers d ! i) = 2048" if "i < 64" for i
    using r(2,3) that by simp
  have slots: "if j < length (q @ [f]) then rx_full ((q @ [f]) ! j) ?d ((?c + j) mod 64)
      else rx_empty ?d ((?c + j) mod 64)" if "j < 64" for j
  proof (cases "j = ?k")
    case True
    have "unat (of_nat (length f) :: u16) = length f"
      using assms(3) by (simp add: unsigned_of_nat take_bit_nat_eq_self)
    with True that k assms(3-5) r(1,2,6) show ?thesis
      by (simp add: rx_full_def store_frame_def ring_update)
  next
    case False
    have "rx_descs ?d ! ((?c + j) mod 64) = rx_descs d ! ((?c + j) mod 64)"
      "rx_buffers ?d ! ((?c + j) mod 64) = rx_buffers d ! ((?c + j) mod 64)"
      using False that k r(1,2,6) by (simp_all add: store_frame_def ring_update)
    then have "rx_full g ?d ((?c + j) mod 64) = rx_full g d ((?c + j) mod 64)"
      "rx_empty ?d ((?c + j) mod 64) = rx_empty d ((?c + j) mod 64)" for g
      by (simp_all add: rx_full_def rx_empty_def)
    with False r(8) that show ?thesis
      by (simp add: nth_append)
  qed
  have "\<forall>b \<in> set (rx_buffers ?d). length b = 2048"
    using set_update_subset_insert [of "rx_buffers d" "rdh r"] r(3,6) b [of "rdh r"] assms(3)
    by (fastforce simp: store_frame_def)
  moreover have "(?c + 63) mod 64 = rdt r" "(rdh r + 1) mod 64 = (?c + length (q @ [f])) mod 64"
    using r(6,7) by (simp_all add: mod_simps)
  moreover have "rx_cur ?d = ?c" "length (rx_descs ?d) = 64" "length (rx_buffers ?d) = 64" "length (q @ [f]) \<le> 63"
    using r(1,2) k by (simp_all add: store_frame_def)
  ultimately show ?thesis
    unfolding rx_ring_def using r(4) k
    by (intro conjI allI impI) (simp_all del: length_append add: slots)
qed

definition take_frame :: "E1000 \<Rightarrow> E1000" where
  "take_frame d =
     d\<lparr>rx_descs := (rx_descs d)[rx_cur d := (rx_descs d ! rx_cur d)\<lparr>rx_status := 0\<rparr>],
       rx_cur := (rx_cur d + 1) mod 64\<rparr>"

lemma rx_ring_take:
  assumes "rx_ring r (f # q) d"
  shows "rx_ring (r\<lparr>rdt := rx_cur d\<rparr>) q (take_frame d)"
proof -
  let ?c = "rx_cur d" and ?d = "take_frame d"
  have r: "length (rx_descs d) = 64" "length (rx_buffers d) = 64" "\<forall>b \<in> set (rx_buffers d). length b = 2048"
    "?c < 64" "length q < 63" "rdh r = (?c + Suc (length q)) mod 64"
    "\<forall>j < 64. if j < Suc (length q) then rx_full ((f # q) ! j) d ((?c + j) mod 64) else rx_empty d ((?c + j) mod 64)"
    using assms by (auto simp: rx_ring_def)
  have slots: "if j < length q then rx_full (q ! j) ?d ((rx_cur ?d + j) mod 64)
      else rx_empty ?d ((rx_cur ?d + j) mod 64)" if "j < 64" for j
  proof (cases "j = 63")
    case True
    have "(Suc ?c mod 64 + 63) mod 64 = ?c"
      using r(4) by (simp add: mod_simps)
    with True r(1,4,5) show ?thesis
      by (simp add: take_frame_def rx_empty_def)
  next
    case False
    have "(?c + Suc j) mod 64 \<noteq> ?c"
      using ring_index_eq [of "Suc j" 0 ?c] that False r(4) by simp
    then have "rx_full g ?d ((?c + Suc j) mod 64) = rx_full g d ((?c + Suc j) mod 64)"
      "rx_empty ?d ((?c + Suc j) mod 64) = rx_empty d ((?c + Suc j) mod 64)" for g
      by (simp_all add: rx_full_def rx_empty_def take_frame_def)
    moreover have "(rx_cur ?d + j) mod 64 = (?c + Suc j) mod 64"
      by (simp add: take_frame_def ring_next)
    ultimately show ?thesis
      using r(7) [rule_format, of "Suc j"] False that by (simp split: if_splits)
  qed
  have "rx_cur ?d < 64" "length (rx_descs ?d) = 64" "rx_buffers ?d = rx_buffers d" "?c = (rx_cur ?d + 63) mod 64"
    "rdh r = (rx_cur ?d + length q) mod 64"
    using r(1,4,6) by (simp_all add: take_frame_def ring_next mod_simps)
  then show ?thesis
    unfolding rx_ring_def using r(2,3,5) by (intro conjI allI impI) (simp_all add: slots)
qed

section \<open>The transmit ring\<close>

definition tx_pending :: "u8 list \<Rightarrow> E1000 \<Rightarrow> nat \<Rightarrow> bool" where
  "tx_pending f d i \<longleftrightarrow> tx_status (tx_descs d ! i) AND TX_DD = 0 \<and> unat (tx_length (tx_descs d ! i)) = length f
     \<and> length f \<le> 2048 \<and> take (length f) (tx_buffers d ! i) = f"

definition tx_free :: "E1000 \<Rightarrow> nat \<Rightarrow> bool" where
  "tx_free d i \<longleftrightarrow> tx_status (tx_descs d ! i) AND TX_DD \<noteq> 0"

text \<open>The ring holds the frames \<open>p\<close>, from the head to the current descriptor.\<close>

definition tx_ring :: "ring_regs \<Rightarrow> u8 list list \<Rightarrow> E1000 \<Rightarrow> bool" where
  "tx_ring r p d \<longleftrightarrow>
     length (tx_descs d) = 64 \<and> length (tx_buffers d) = 64 \<and> tdh r < 64 \<and> length p \<le> 64
     \<and> tdt r = tx_cur d \<and> tx_cur d = (tdh r + length p) mod 64
     \<and> (\<forall>j < 64. if j < length p then tx_pending (p ! j) d ((tdh r + j) mod 64)
                 else tx_free d ((tdh r + j) mod 64))"

definition put_frame :: "u8 list \<Rightarrow> E1000 \<Rightarrow> E1000" where
  "put_frame data d =
     d\<lparr>tx_buffers := (tx_buffers d)[tx_cur d := data @ drop (length data) (tx_buffers d ! tx_cur d)],
       tx_descs := (tx_descs d)[tx_cur d := (tx_descs d ! tx_cur d)
         \<lparr>tx_length := of_nat (length data), tx_cmd := push_bit 0 1 OR push_bit 1 1 OR push_bit 3 1, tx_status := 0\<rparr>],
       tx_cur := (tx_cur d + 1) mod 64\<rparr>"

lemma tx_ring_put:
  assumes "tx_ring r p d" "length p < 64" "length data \<le> 2048"
  shows "tx_ring (r\<lparr>tdt := (tx_cur d + 1) mod 64\<rparr>) (p @ [data]) (put_frame data d)"
proof -
  let ?h = "tdh r" and ?k = "length p" and ?d = "put_frame data d"
  have r: "length (tx_descs d) = 64" "length (tx_buffers d) = 64" "?h < 64" "tx_cur d = (?h + ?k) mod 64"
    "\<forall>j < 64. if j < ?k then tx_pending (p ! j) d ((?h + j) mod 64) else tx_free d ((?h + j) mod 64)"
    using assms(1) by (auto simp: tx_ring_def)
  have slots: "if j < length (p @ [data]) then tx_pending ((p @ [data]) ! j) ?d ((?h + j) mod 64)
      else tx_free ?d ((?h + j) mod 64)" if "j < 64" for j
  proof (cases "j = ?k")
    case True
    have "unat (of_nat (length data) :: u16) = length data"
      using assms(3) by (simp add: unsigned_of_nat take_bit_nat_eq_self)
    with True that assms(2,3) r(1,2,4) show ?thesis
      by (simp add: tx_pending_def put_frame_def ring_update)
  next
    case False
    have "tx_descs ?d ! ((?h + j) mod 64) = tx_descs d ! ((?h + j) mod 64)"
      "tx_buffers ?d ! ((?h + j) mod 64) = tx_buffers d ! ((?h + j) mod 64)"
      using False that assms(2) r(1,2,4) by (simp_all add: put_frame_def ring_update)
    then have "tx_pending g ?d ((?h + j) mod 64) = tx_pending g d ((?h + j) mod 64)"
      "tx_free ?d ((?h + j) mod 64) = tx_free d ((?h + j) mod 64)" for g
      by (simp_all add: tx_pending_def tx_free_def)
    with False r(5) that show ?thesis
      by (simp add: nth_append)
  qed
  have "tx_cur ?d = (tx_cur d + 1) mod 64" "(tx_cur d + 1) mod 64 = (?h + length (p @ [data])) mod 64"
    "length (tx_descs ?d) = 64" "length (tx_buffers ?d) = 64" "length (p @ [data]) \<le> 64"
    using r(1,2,4) assms(2) by (simp_all add: put_frame_def mod_simps)
  then show ?thesis
    unfolding tx_ring_def using r(3)
    by (intro conjI allI impI) (simp_all del: length_append add: slots)
qed

lemma tx_ring_complete:
  assumes "tx_ring r (f # p) d" "tdh r \<noteq> tdt r"
  shows "tx_ring (r\<lparr>tdh := (tdh r + 1) mod 64\<rparr>) p (complete_tx (tdh r) d)"
    and "take (unat (tx_length (tx_descs d ! tdh r))) (tx_buffers d ! tdh r) = f"
    and "unat (tx_length (tx_descs d ! tdh r)) \<le> 2048"
proof -
  let ?h = "tdh r" and ?d = "complete_tx (tdh r) d" and ?r = "r\<lparr>tdh := (tdh r + 1) mod 64\<rparr>"
  have r: "length (tx_descs d) = 64" "length (tx_buffers d) = 64" "?h < 64" "length p < 64" "tdt r = tx_cur d"
    "tx_cur d = (?h + Suc (length p)) mod 64"
    "\<forall>j < 64. if j < Suc (length p) then tx_pending ((f # p) ! j) d ((?h + j) mod 64) else tx_free d ((?h + j) mod 64)"
    using assms(1) by (auto simp: tx_ring_def)
  have p: "length p < 63"
    using assms(2) r(3-6) by (cases "length p = 63") auto
  have slots: "if j < length p then tx_pending (p ! j) ?d ((tdh ?r + j) mod 64)
      else tx_free ?d ((tdh ?r + j) mod 64)" if "j < 64" for j
  proof (cases "j = 63")
    case True
    have "(Suc ?h mod 64 + 63) mod 64 = ?h"
      using r(3) by (simp add: mod_simps)
    moreover have "(x OR TX_DD) AND TX_DD \<noteq> 0" for x
      by (simp add: TX_DD_def word_ao_absorbs)
    ultimately show ?thesis
      using True r(1,3) p by (simp add: complete_tx_def tx_free_def)
  next
    case False
    have "(?h + Suc j) mod 64 \<noteq> ?h"
      using ring_index_eq [of "Suc j" 0 ?h] that False r(3) by simp
    then have "tx_pending g ?d ((?h + Suc j) mod 64) = tx_pending g d ((?h + Suc j) mod 64)"
      "tx_free ?d ((?h + Suc j) mod 64) = tx_free d ((?h + Suc j) mod 64)" for g
      by (simp_all add: tx_pending_def tx_free_def complete_tx_def)
    moreover have "(tdh ?r + j) mod 64 = (?h + Suc j) mod 64"
      by (simp add: ring_next)
    ultimately show ?thesis
      using r(7) [rule_format, of "Suc j"] False that by (simp split: if_splits)
  qed
  have "tdh ?r < 64" "length (tx_descs ?d) = 64" "length (tx_buffers ?d) = 64" "length p \<le> 64" "tdt ?r = tx_cur ?d"
    "tx_cur ?d = (tdh ?r + length p) mod 64"
    using r p by (simp_all add: complete_tx_def ring_next)
  then show "tx_ring ?r p ?d"
    unfolding tx_ring_def by (intro conjI allI impI slots)
  show "take (unat (tx_length (tx_descs d ! ?h))) (tx_buffers d ! ?h) = f" "unat (tx_length (tx_descs d ! ?h)) \<le> 2048"
    using r(7) [rule_format, of 0] r(3) by (simp_all add: tx_pending_def)
qed

section \<open>Addresses\<close>

text \<open>Registers and descriptors lead the controller to the driver's boxes.\<close>

definition dma_linked :: "(u64 \<Rightarrow> u64) \<Rightarrow> ring_regs \<Rightarrow> E1000 \<Rightarrow> bool" where
  "dma_linked pa r d \<longleftrightarrow>
     unat (rdlen r) = 1024 \<and> unat (tdlen r) = 1024 \<and> rx_buffer_size (rctl r) = 2048
     \<and> rx_base r AND 15 = 0 \<and> tx_base r AND 15 = 0
     \<and> (\<forall>i < 64. dma_at pa (desc_ptr (rx_base r) i) (desc_ptr (rx_descs_ptr d) i) 16
          \<and> dma_at pa (desc_ptr (tx_base r) i) (desc_ptr (tx_descs_ptr d) i) 16
          \<and> dma_at pa (map rx_addr (rx_descs d) ! i) (buffer_ptr (rx_buffers_ptr d) i) 2048
          \<and> dma_at pa (map tx_addr (tx_descs d) ! i) (buffer_ptr (tx_buffers_ptr d) i) 2048)"

lemma map_update_same: "f y = f (xs ! i) \<Longrightarrow> map f (xs[i := y]) = map f xs"
  by (cases "i < length xs") (simp_all add: map_update list_update_same_conv list_update_beyond)

lemma dma_linked_frame [simp]:
  "dma_linked pa (r\<lparr>rdh := x\<rparr>) d = dma_linked pa r d" "dma_linked pa (r\<lparr>rdt := x\<rparr>) d = dma_linked pa r d"
  "dma_linked pa (r\<lparr>tdh := x\<rparr>) d = dma_linked pa r d" "dma_linked pa (r\<lparr>tdt := x\<rparr>) d = dma_linked pa r d"
  "rx_addr desc = rx_addr (rx_descs d ! i) \<Longrightarrow> dma_linked pa r (store_frame f i j desc d) = dma_linked pa r d"
  "dma_linked pa r (complete_tx i d) = dma_linked pa r d" "dma_linked pa r (put_frame f d) = dma_linked pa r d"
  "dma_linked pa r (take_frame d) = dma_linked pa r d"
  by (simp_all add: dma_linked_def store_frame_def complete_tx_def put_frame_def take_frame_def map_update_same)

text \<open>The boxes lie in the direct mapping of physical memory, the rings aligned.\<close>

definition direct_boxes :: "(u64 \<Rightarrow> u64) \<Rightarrow> E1000 \<Rightarrow> bool" where
  "direct_boxes pa d \<longleftrightarrow>
     dma_at pa (rx_descs_ptr d - phys_mem_offset d) (rx_descs_ptr d) (RX_DESC_COUNT * 16)
     \<and> dma_at pa (tx_descs_ptr d - phys_mem_offset d) (tx_descs_ptr d) (TX_DESC_COUNT * 16)
     \<and> dma_at pa (rx_buffers_ptr d - phys_mem_offset d) (rx_buffers_ptr d) (RX_DESC_COUNT * PACKET_BUFFER_SIZE)
     \<and> dma_at pa (tx_buffers_ptr d - phys_mem_offset d) (tx_buffers_ptr d) (TX_DESC_COUNT * PACKET_BUFFER_SIZE)
     \<and> (rx_descs_ptr d - phys_mem_offset d) AND 15 = 0 \<and> (tx_descs_ptr d - phys_mem_offset d) AND 15 = 0"

lemma dma_at_part:
  assumes "dma_at pa a v len" "off + len' \<le> len"
  shows "dma_at pa (a + of_nat off) (v + of_nat off) len'"
  unfolding dma_at_def
proof (intro allI impI)
  fix k
  assume "k < len'"
  then have "pa (v + of_nat (off + k)) = a + of_nat (off + k)"
    using assms unfolding dma_at_def by (metis add_less_cancel_left order_less_le_trans)
  then show "pa (v + of_nat off + of_nat k) = a + of_nat off + of_nat k"
    by (simp add: add.assoc)
qed

lemma ring_base_split: "ring_base (ucast a) (ucast (drop_bit 32 a)) = a" for a :: u64
  by (rule bit_word_eqI) (auto simp: ring_base_def bit_simps)

lemma rx_buffer_size_init: "rx_buffer_size (RCTL_EN OR RCTL_BAM OR push_bit 3 1 OR push_bit 4 1) = 2048"
  by (simp add: rx_buffer_size_def RCTL_EN_def RCTL_BAM_def push_bit_eq_mult)

text \<open>What the set-up programs, and that it leads to boxes in the direct mapping.\<close>

definition dma_programmed :: "ring_regs \<Rightarrow> E1000 \<Rightarrow> bool" where
  "dma_programmed r d \<longleftrightarrow>
     unat (rdlen r) = 1024 \<and> unat (tdlen r) = 1024 \<and> rx_buffer_size (rctl r) = 2048
     \<and> Some (rx_base r) = virt_to_phys d (rx_descs_ptr d) \<and> Some (tx_base r) = virt_to_phys d (tx_descs_ptr d)
     \<and> (\<forall>i < 64. Some (tx_addr (tx_descs d ! i)) = virt_to_phys d (buffer_ptr (tx_buffers_ptr d) i)
          \<and> Some (rx_addr (rx_descs d ! i)) = virt_to_phys d (buffer_ptr (rx_buffers_ptr d) i))"

lemma virt_to_phys_eq: "Some p = virt_to_phys d v \<Longrightarrow> p = v - phys_mem_offset d"
  by (simp add: virt_to_phys_def split: if_splits)

lemma direct_desc:
  assumes "dma_at pa (p - off) p 1024" "i < 64"
  shows "dma_at pa (desc_ptr (p - off) i) (desc_ptr p i) 16"
  using dma_at_part [OF assms(1), of "16 * i" 16] assms(2) by (simp add: desc_ptr_def)

lemma direct_buffer:
  assumes "dma_at pa (p - off) p 131072" "i < 64"
  shows "dma_at pa (buffer_ptr p i - off) (buffer_ptr p i) 2048"
  using dma_at_part [OF assms(1), of "2048 * i" 2048] assms(2)
  by (simp add: buffer_ptr_def PACKET_BUFFER_SIZE_def algebra_simps)

lemma direct_linked:
  assumes "dma_programmed r d" "direct_boxes pa d" "length (rx_descs d) = 64" "length (tx_descs d) = 64"
  shows "dma_linked pa r d"
proof -
  have r: "rx_base r = rx_descs_ptr d - phys_mem_offset d" "tx_base r = tx_descs_ptr d - phys_mem_offset d"
      "\<forall>i < 64. tx_addr (tx_descs d ! i) = buffer_ptr (tx_buffers_ptr d) i - phys_mem_offset d
        \<and> rx_addr (rx_descs d ! i) = buffer_ptr (rx_buffers_ptr d) i - phys_mem_offset d"
    using assms(1) by (auto simp: dma_programmed_def dest: virt_to_phys_eq)
  have b: "dma_at pa (rx_descs_ptr d - phys_mem_offset d) (rx_descs_ptr d) 1024"
      "dma_at pa (tx_descs_ptr d - phys_mem_offset d) (tx_descs_ptr d) 1024"
      "dma_at pa (rx_buffers_ptr d - phys_mem_offset d) (rx_buffers_ptr d) 131072"
      "dma_at pa (tx_buffers_ptr d - phys_mem_offset d) (tx_buffers_ptr d) 131072"
      "(rx_descs_ptr d - phys_mem_offset d) AND 15 = 0" "(tx_descs_ptr d - phys_mem_offset d) AND 15 = 0"
    using assms(2) by (simp_all add: direct_boxes_def RX_DESC_COUNT_def TX_DESC_COUNT_def PACKET_BUFFER_SIZE_def)
  show ?thesis
    unfolding dma_linked_def using assms(1,3,4) r b(5,6) direct_desc [OF b(1)] direct_desc [OF b(2)]
      direct_buffer [OF b(3)] direct_buffer [OF b(4)]
    by (simp add: dma_programmed_def)
qed

lemma dma_linked_rx:
  assumes "dma_linked pa r d" "i < 64"
  shows "rx_base r AND 15 = 0" "dma_at pa (desc_ptr (rx_base r) i) (desc_ptr (rx_descs_ptr d) i) 16"
    "length (rx_descs d) = 64 \<Longrightarrow> dma_at pa (rx_addr (rx_descs d ! i)) (buffer_ptr (rx_buffers_ptr d) i) 2048"
    "unat (rdlen r) div 16 = 64"
  using assms by (auto simp: dma_linked_def)

lemma dma_linked_tx:
  assumes "dma_linked pa r d" "i < 64" "length (tx_descs d) = 64"
  shows "tx_base r AND 15 = 0" "dma_at pa (desc_ptr (tx_base r) i) (desc_ptr (tx_descs_ptr d) i) 16"
    "dma_at pa (tx_addr (tx_descs d ! i)) (buffer_ptr (tx_buffers_ptr d) i) 2048" "unat (tdlen r) div 16 = 64"
  using assms by (auto simp: dma_linked_def)

section \<open>Set-up\<close>

lemma init_tx_descs_eq:
  "init_tx_descs k d = Some d' \<Longrightarrow> k \<le> length (tx_descs d) \<Longrightarrow>
     (\<exists>ds. d' = d\<lparr>tx_descs := ds\<rparr> \<and> length ds = length (tx_descs d)
        \<and> (\<forall>i < k. tx_status (ds ! i) = TX_DD \<and> Some (tx_addr (ds ! i)) = virt_to_phys d (buffer_ptr (tx_buffers_ptr d) i)))"
proof (induction k arbitrary: d')
  case 0
  then show ?case
    by (auto intro!: exI [of _ "tx_descs d"])
next
  case (Suc k)
  then obtain d1 phys where d1: "init_tx_descs k d = Some d1" "virt_to_phys d1 (buffer_ptr (tx_buffers_ptr d1) k) = Some phys"
      "d' = d1\<lparr>tx_descs := (tx_descs d1)[k := (tx_descs d1 ! k)\<lparr>tx_addr := phys, tx_status := TX_DD\<rparr>]\<rparr>"
    by (auto simp: bind_eq_Some_conv)
  obtain ds where ds: "d1 = d\<lparr>tx_descs := ds\<rparr>" "length ds = length (tx_descs d)"
      "\<forall>i < k. tx_status (ds ! i) = TX_DD \<and> Some (tx_addr (ds ! i)) = virt_to_phys d (buffer_ptr (tx_buffers_ptr d) i)"
    using Suc.IH [OF d1(1)] Suc.prems(2) by auto
  show ?case
    using d1(2,3) ds Suc.prems(2)
    by (intro exI [of _ "ds[k := (ds ! k)\<lparr>tx_addr := phys, tx_status := TX_DD\<rparr>]"])
      (auto simp: nth_list_update less_Suc_eq virt_to_phys_def)
qed

lemma init_rx_descs_eq:
  "init_rx_descs k d = Some d' \<Longrightarrow> k \<le> length (rx_descs d) \<Longrightarrow>
     (\<exists>ds. d' = d\<lparr>rx_descs := ds\<rparr> \<and> length ds = length (rx_descs d)
        \<and> (\<forall>i < k. rx_status (ds ! i) = 0 \<and> Some (rx_addr (ds ! i)) = virt_to_phys d (buffer_ptr (rx_buffers_ptr d) i)))"
proof (induction k arbitrary: d')
  case 0
  then show ?case
    by (auto intro!: exI [of _ "rx_descs d"])
next
  case (Suc k)
  then obtain d1 phys where d1: "init_rx_descs k d = Some d1" "virt_to_phys d1 (buffer_ptr (rx_buffers_ptr d1) k) = Some phys"
      "d' = d1\<lparr>rx_descs := (rx_descs d1)[k := (rx_descs d1 ! k)\<lparr>rx_addr := phys, rx_status := 0\<rparr>]\<rparr>"
    by (auto simp: bind_eq_Some_conv)
  obtain ds where ds: "d1 = d\<lparr>rx_descs := ds\<rparr>" "length ds = length (rx_descs d)"
      "\<forall>i < k. rx_status (ds ! i) = 0 \<and> Some (rx_addr (ds ! i)) = virt_to_phys d (buffer_ptr (rx_buffers_ptr d) i)"
    using Suc.IH [OF d1(1)] Suc.prems(2) by auto
  show ?case
    using d1(2,3) ds Suc.prems(2)
    by (intro exI [of _ "ds[k := (ds ! k)\<lparr>rx_addr := phys, rx_status := 0\<rparr>]"])
      (auto simp: nth_list_update less_Suc_eq virt_to_phys_def)
qed

section \<open>Runs\<close>

lemma rx_ring_frame [simp]:
  "rx_ring (r\<lparr>tdh := x\<rparr>) q d = rx_ring r q d" "rx_ring (r\<lparr>tdt := x\<rparr>) q d = rx_ring r q d"
  "rx_ring r q (complete_tx i d) = rx_ring r q d" "rx_ring r q (put_frame f d) = rx_ring r q d"
  by (simp_all add: rx_ring_def rx_full_def rx_empty_def complete_tx_def put_frame_def)

lemma tx_ring_frame [simp]:
  "tx_ring (r\<lparr>rdh := x\<rparr>) p d = tx_ring r p d" "tx_ring (r\<lparr>rdt := x\<rparr>) p d = tx_ring r p d"
  "tx_ring r p (store_frame f i j desc d) = tx_ring r p d" "tx_ring r p (take_frame d) = tx_ring r p d"
  by (simp_all add: tx_ring_def tx_pending_def tx_free_def store_frame_def take_frame_def)

lemma mmio_frame [simp]:
  "mmio (complete_tx i d) = mmio d" "mmio (put_frame f d) = mmio d"
  "mmio (store_frame f i j desc d) = mmio d" "mmio (take_frame d) = mmio d"
  by (simp_all add: store_frame_def take_frame_def complete_tx_def put_frame_def)

lemma stored_simps [simp]:
  "stored [] = []" "stored (es @ es') = stored es @ stored es'" "stored [Hw (Stored f)] = [f]"
  "stored [Hw (Sent f)] = []" "stored [Hw Quiet] = []" "stored [Received r] = []" "stored [Transmitted f b] = []"
  by (simp_all add: stored_def)

lemma received_simps [simp]:
  "received [] = []" "received (es @ es') = received es @ received es'" "received [Hw e] = []"
  "received [Received (Some f)] = [f]" "received [Received None] = []" "received [Transmitted f b] = []"
  by (simp_all add: received_def)

lemma sent_simps [simp]:
  "sent [] = []" "sent (es @ es') = sent es @ sent es'" "sent [Hw (Stored f)] = []"
  "sent [Hw (Sent f)] = [f]" "sent [Hw Quiet] = []" "sent [Received r] = []" "sent [Transmitted f b] = []"
  by (simp_all add: sent_def)

lemma accepted_simps [simp]:
  "accepted [] = []" "accepted (es @ es') = accepted es @ accepted es'" "accepted [Hw e] = []"
  "accepted [Received r] = []" "accepted [Transmitted f True] = [f]" "accepted [Transmitted f False] = []"
  by (simp_all add: accepted_def)

context nic_registers
begin

lemma write_tails:
  "regs (mmio_write N (base + ucast REG_RDT) v n) = (regs n)\<lparr>rdt := unat v\<rparr>"
  "regs (mmio_write N (base + ucast REG_TDT) v n) = (regs n)\<lparr>tdt := unat v\<rparr>"
  using write_regs [of REG_RDT v n] write_regs [of REG_TDT v n] by (simp_all add: set_reg_def e1000_registers)

lemma receive_step:
  assumes "rx_ring (regs n) q d" "mmio d = base"
  shows "\<exists>n'. regs n' = (case q of [] \<Rightarrow> regs n | _ \<Rightarrow> (regs n)\<lparr>rdt := rx_cur d\<rparr>) \<and> receive_raw N (d, n) =
    Some (case q of [] \<Rightarrow> (None, d, n') | f # _ \<Rightarrow> (Some f, take_frame d, n'))"
proof -
  have len: "length (rx_descs d) = 64" "rx_cur d < 64"
    using assms(1) by (auto simp: rx_ring_def)
  have slot: "if 0 < length q then rx_full (q ! 0) d (rx_cur d) else rx_empty d (rx_cur d)"
    using assms(1) unfolding rx_ring_def by (metis add_0_right mod_less zero_less_numeral)
  show ?thesis
  proof (cases q)
    case Nil
    obtain v n' where rd: "read_reg N d REG_RDH n = (v, n')"
      by (cases "read_reg N d REG_RDH n")
    then have "regs n' = regs n"
      by (auto simp: read_reg_def dest: read_regs)
    with Nil slot len rd show ?thesis
      by (simp add: receive_raw_def rx_empty_def)
  next
    case (Cons f q')
    then have full: "rx_full f d (rx_cur d)"
      using slot by simp
    have "length (rx_buffers d ! rx_cur d) = 2048"
      using assms(1) len by (simp add: rx_ring_def)
    moreover have "unat (of_nat (rx_cur d) :: u32) = rx_cur d"
      using len(2) by (intro unat_of_nat_u32) simp
    ultimately show ?thesis
      using Cons full len assms(2)
      by (simp add: receive_raw_def rx_full_def take_frame_def RX_DESC_COUNT_def write_reg_def write_tails Let_def)
  qed
qed

lemma transmit_step:
  assumes "tx_ring (regs n) p d" "mmio d = base"
  shows "\<exists>n'. transmit_raw N data (d, n) =
      (if length data \<le> 2048 \<and> length p < 64 then Some (True, put_frame data d, n') else Some (False, d, n))
    \<and> regs n' = (regs n)\<lparr>tdt := (tx_cur d + 1) mod 64\<rparr>"
proof -
  have t: "length (tx_descs d) = 64" "tx_cur d = (tdh (regs n) + length p) mod 64" "length p \<le> 64" "tdh (regs n) < 64"
      "\<forall>j < 64. if j < length p then tx_pending (p ! j) d ((tdh (regs n) + j) mod 64)
                else tx_free d ((tdh (regs n) + j) mod 64)"
    using assms(1) by (auto simp: tx_ring_def)
  have "tx_status (tx_descs d ! tx_cur d) AND TX_DD = 0 \<longleftrightarrow> length p = 64"
  proof (cases "length p = 64")
    case True
    then have "tx_pending (p ! 0) d (tx_cur d)"
      using t(5) [rule_format, of 0] t(2,4) by simp
    with True show ?thesis
      by (simp add: tx_pending_def)
  next
    case False
    then have "tx_free d (tx_cur d)"
      using t(5) [rule_format, of "length p"] t(2,3) by simp
    with False show ?thesis
      by (simp add: tx_free_def)
  qed
  moreover have "regs (mmio_write N (mmio d + ucast REG_TDT) (of_nat (Suc (tx_cur d) mod 64)) n)
      = (regs n)\<lparr>tdt := Suc (tx_cur d) mod 64\<rparr>"
  proof -
    have "unat (of_nat (Suc (tx_cur d) mod 64) :: u32) = Suc (tx_cur d) mod 64"
      by (intro unat_of_nat_u32) (simp add: less_trans [OF mod_less_divisor])
    then show ?thesis
      unfolding assms(2) write_tails by simp
  qed
  moreover have "tx_cur d < 64"
    using t(2) by simp
  ultimately show ?thesis
    using t(1,3)
    by (auto simp: transmit_raw_def put_frame_def TX_DESC_COUNT_def PACKET_BUFFER_SIZE_def write_reg_def Let_def
        intro!: exI [of _ "mmio_write N (mmio d + ucast REG_TDT) (of_nat (Suc (tx_cur d) mod 64)) n"])
qed

lemma write_reg_regs:
  assumes "mmio d = base" "\<not> (off = REG_CTRL \<and> bit v 26)"
  shows "regs (write_reg N d off v n) = set_reg off v (regs n)"
  using assms by (simp add: write_reg_def write_regs)

lemma init_tx_ring:
  assumes "init_tx N (d, n) = Some (d', n')" "mmio d = base" "length (tx_descs d) = 64" "length (tx_buffers d) = 64"
    and "tx_cur d = 0"
  shows "\<exists>ds. d' = d\<lparr>tx_descs := ds\<rparr>
      \<and> (\<forall>i < 64. Some (tx_addr (ds ! i)) = virt_to_phys d (buffer_ptr (tx_buffers_ptr d) i))
      \<and> Some (tx_base (regs n')) = virt_to_phys d (tx_descs_ptr d) \<and> unat (tdlen (regs n')) = 1024"
    and "tx_ring (regs n') [] d'"
proof -
  obtain d1 phys where d1: "init_tx_descs 64 d = Some d1" "virt_to_phys d1 (tx_descs_ptr d1) = Some phys" "d' = d1"
    using assms(1) by (auto simp: init_tx_def TX_DESC_COUNT_def bind_eq_Some_conv)
  obtain ds where ds: "d1 = d\<lparr>tx_descs := ds\<rparr>" "length ds = 64" "\<forall>i < 64. tx_status (ds ! i) = TX_DD
      \<and> Some (tx_addr (ds ! i)) = virt_to_phys d (buffer_ptr (tx_buffers_ptr d) i)"
    using init_tx_descs_eq [OF d1(1)] assms(3) by auto
  have "mmio d1 = base"
    using ds(1) assms(2) by simp
  then have r: "regs n' = (regs n)\<lparr>tdbal := ucast phys, tdbah := ucast (drop_bit 32 phys), tdlen := 1024, tdh := 0, tdt := 0\<rparr>"
    using assms(1) d1
    by (auto simp: init_tx_def TX_DESC_COUNT_def bind_eq_Some_conv Let_def write_reg_regs set_reg_def e1000_registers)
  moreover have "TX_DD AND TX_DD \<noteq> 0"
    by (simp add: TX_DD_def)
  ultimately show "tx_ring (regs n') [] d'"
    using d1(3) ds assms(4,5) by (simp add: tx_ring_def tx_free_def)
  have "virt_to_phys d (tx_descs_ptr d) = Some phys"
    using d1(2) ds(1) by (simp add: virt_to_phys_def split: if_splits)
  then show "\<exists>ds. d' = d\<lparr>tx_descs := ds\<rparr>
      \<and> (\<forall>i < 64. Some (tx_addr (ds ! i)) = virt_to_phys d (buffer_ptr (tx_buffers_ptr d) i))
      \<and> Some (tx_base (regs n')) = virt_to_phys d (tx_descs_ptr d) \<and> unat (tdlen (regs n')) = 1024"
    using d1(3) ds r by (intro exI [of _ ds]) (simp add: ring_base_split)
qed

lemma init_rx_ring:
  assumes "init_rx N (d, n) = Some (d', n')" "mmio d = base" "length (rx_descs d) = 64" "length (rx_buffers d) = 64"
    and "\<forall>b \<in> set (rx_buffers d). length b = 2048" "rx_cur d = 0"
  shows "\<exists>ds. d' = d\<lparr>rx_descs := ds\<rparr>
      \<and> (\<forall>i < 64. Some (rx_addr (ds ! i)) = virt_to_phys d (buffer_ptr (rx_buffers_ptr d) i))
      \<and> Some (rx_base (regs n')) = virt_to_phys d (rx_descs_ptr d) \<and> unat (rdlen (regs n')) = 1024
      \<and> rx_buffer_size (rctl (regs n')) = 2048"
    and "\<exists>low high len ctl. regs n' = (regs n)\<lparr>rdbal := low, rdbah := high, rdlen := len, rdh := 0, rdt := 63, rctl := ctl\<rparr>"
    and "rx_ring (regs n') [] d'"
proof -
  obtain d1 phys where d1: "init_rx_descs 64 d = Some d1" "virt_to_phys d1 (rx_descs_ptr d1) = Some phys"
    using assms(1) by (auto simp: init_rx_def RX_DESC_COUNT_def bind_eq_Some_conv Let_def)
  let ?n = "write_reg N d1 REG_RCTL (RCTL_EN OR RCTL_BAM OR push_bit 3 1 OR push_bit 4 1)
      (write_reg N d1 REG_RDT 63 (write_reg N d1 REG_RDH 0 (write_reg N d1 REG_RDLEN 1024
        (write_reg N d1 REG_RDBAH (ucast (drop_bit 32 phys)) (write_reg N d1 REG_RDBAL (ucast phys) n)))))"
  obtain v n2 where rd: "read_reg N d1 REG_CTRL ?n = (v, n2)"
    by (cases "read_reg N d1 REG_CTRL ?n")
  have new: "d' = d1" "n' = write_reg N d1 REG_CTRL (v OR CTRL_SLU) n2"
    using assms(1) d1 rd by (auto simp: init_rx_def RX_DESC_COUNT_def Let_def)
  obtain ds where ds: "d1 = d\<lparr>rx_descs := ds\<rparr>" "length ds = 64" "\<forall>i < 64. rx_status (ds ! i) = 0
      \<and> Some (rx_addr (ds ! i)) = virt_to_phys d (buffer_ptr (rx_buffers_ptr d) i)"
    using init_rx_descs_eq [OF d1(1)] assms(3) by auto
  have base: "mmio d1 = base"
    using ds(1) assms(2) by simp
  have "\<not> bit (v OR CTRL_SLU) 26" "regs n2 = regs ?n"
    using rd base reset_done [of ?n v n2] read_regs [of "base + ucast REG_CTRL" ?n v n2]
    by (simp_all add: read_reg_def CTRL_SLU_def bit_simps)
  then have regs: "regs n' = (regs n)\<lparr>rdbal := ucast phys, rdbah := ucast (drop_bit 32 phys), rdlen := 1024, rdh := 0,
      rdt := 63, rctl := RCTL_EN OR RCTL_BAM OR push_bit 3 1 OR push_bit 4 1\<rparr>"
    unfolding new using base by (simp add: write_reg_regs set_reg_def e1000_registers)
  then show "\<exists>low high len ctl. regs n' = (regs n)\<lparr>rdbal := low, rdbah := high, rdlen := len, rdh := 0, rdt := 63, rctl := ctl\<rparr>"
    by blast
  show "rx_ring (regs n') [] d'"
    using new(1) ds assms(4-6) regs by (simp add: rx_ring_def rx_empty_def)
  have "virt_to_phys d (rx_descs_ptr d) = Some phys"
    using d1(2) ds(1) by (simp add: virt_to_phys_def split: if_splits)
  moreover have "rx_base (regs n') = phys" "unat (rdlen (regs n')) = 1024" "rx_buffer_size (rctl (regs n')) = 2048"
    using regs rx_buffer_size_init by (simp_all add: ring_base_split)
  ultimately show "\<exists>ds. d' = d\<lparr>rx_descs := ds\<rparr>
      \<and> (\<forall>i < 64. Some (rx_addr (ds ! i)) = virt_to_phys d (buffer_ptr (rx_buffers_ptr d) i))
      \<and> Some (rx_base (regs n')) = virt_to_phys d (rx_descs_ptr d) \<and> unat (rdlen (regs n')) = 1024
      \<and> rx_buffer_size (rctl (regs n')) = 2048"
    using new(1) ds by (intro exI [of _ ds]) simp
qed

text \<open>A driver that has been set up has two empty rings.\<close>

lemma new_rings:
  assumes "E1000_new N pci_dev offset n = Some (Some d, n')" "map_option (\<lambda>p. p + offset) (mmio_base pci_dev) = Some base"
  shows "mmio d = base \<and> phys_mem_offset d = offset \<and> rx_ring (regs n') [] d \<and> tx_ring (regs n') [] d"
    and "dma_programmed (regs n') d"
    and "\<exists>n0 n1. E1000_boxes N n0 = Some ((tx_descs_ptr d, tx_buffers_ptr d, rx_descs_ptr d, rx_buffers_ptr d), n1)"
proof -
  obtain mmio_phys p1 p2 p3 p4 n0 n1 where boxes: "mmio_base pci_dev = Some mmio_phys"
      "E1000_boxes N n0 = Some ((p1, p2, p3, p4), n1)"
      "E1000_start N (E1000_struct (mmio_phys + offset) offset (p1, p2, p3, p4)) n1 = Some (d, n')"
    using assms(1) by (auto simp: E1000_new_def Let_def bind_eq_Some_conv split: option.splits if_splits)
  define d0 where "d0 = E1000_struct (mmio_phys + offset) offset (p1, p2, p3, p4)"
  obtain d1 n3 where d1: "read_mac_address N (d0, E1000_reset N d0 n1) = (d1, n3)"
    by (cases "read_mac_address N (d0, E1000_reset N d0 n1)")
  then obtain m where m: "d1 = d0\<lparr>mac_address := m\<rparr>"
    by (auto simp: read_mac_address_def Let_def split: prod.splits if_splits)
  obtain d2 n5 n6 where inits: "init_tx N (d1, write_mac_address N d1 n3) = Some (d2, n5)"
      "init_rx N (d2, n5) = Some (d, n6)" "n' = snd (read_reg N d REG_STATUS n6)"
    using boxes(3) d1 by (auto simp: E1000_start_def Let_def d0_def [symmetric] bind_eq_Some_conv)
  have base: "mmio d1 = base"
    using assms(2) boxes(1) by (simp add: m d0_def E1000_struct_def)
  note sizes = TX_DESC_COUNT_def RX_DESC_COUNT_def PACKET_BUFFER_SIZE_def
  note tx = init_tx_ring [OF inits(1) base]
  obtain txd where txd: "d2 = d1\<lparr>tx_descs := txd\<rparr>"
      "\<forall>i < 64. Some (tx_addr (txd ! i)) = virt_to_phys d1 (buffer_ptr (tx_buffers_ptr d1) i)" "tx_ring (regs n5) [] d2"
      "Some (tx_base (regs n5)) = virt_to_phys d1 (tx_descs_ptr d1)" "unat (tdlen (regs n5)) = 1024"
    using tx by (auto simp: m d0_def E1000_struct_def sizes)
  note rx = init_rx_ring [OF inits(2)]
  obtain rxd low high len ctl where rxd: "d = d2\<lparr>rx_descs := rxd\<rparr>"
      "\<forall>i < 64. Some (rx_addr (rxd ! i)) = virt_to_phys d2 (buffer_ptr (rx_buffers_ptr d2) i)"
      "regs n6 = (regs n5)\<lparr>rdbal := low, rdbah := high, rdlen := len, rdh := 0, rdt := 63, rctl := ctl\<rparr>"
      "rx_ring (regs n6) [] d"
      "Some (rx_base (regs n6)) = virt_to_phys d2 (rx_descs_ptr d2)" "unat (rdlen (regs n6)) = 1024"
      "rx_buffer_size (rctl (regs n6)) = 2048"
    using rx base by (auto simp: txd(1) m d0_def E1000_struct_def sizes)
  have same: "regs n' = regs n6"
    using inits(3) read_regs by (metis prod.collapse read_reg_def)
  moreover have "tx_ring (regs n6) [] d"
    using txd(3) by (simp add: rxd(1,3) tx_ring_def tx_free_def)
  ultimately show rings: "mmio d = base \<and> phys_mem_offset d = offset \<and> rx_ring (regs n') [] d \<and> tx_ring (regs n') [] d"
    using rxd(4) base by (simp add: rxd(1) txd(1) m d0_def E1000_struct_def)
  have "Some (rx_base (regs n6)) = virt_to_phys d (rx_descs_ptr d)" "Some (tx_base (regs n6)) = virt_to_phys d (tx_descs_ptr d)"
      "\<forall>i < 64. Some (tx_addr (tx_descs d ! i)) = virt_to_phys d (buffer_ptr (tx_buffers_ptr d) i)
        \<and> Some (rx_addr (rx_descs d ! i)) = virt_to_phys d (buffer_ptr (rx_buffers_ptr d) i)"
    using txd(2,4) rxd(2,5) by (simp_all add: rxd(1,3) txd(1) virt_to_phys_def)
  then show "dma_programmed (regs n') d"
    unfolding dma_programmed_def same using rxd(6,7) txd(5) by (simp add: rxd(3))
  show "\<exists>n0 n1. E1000_boxes N n0 = Some ((tx_descs_ptr d, tx_buffers_ptr d, rx_descs_ptr d, rx_buffers_ptr d), n1)"
    using boxes(2) by (auto simp: rxd(1) txd(1) m d0_def E1000_struct_def)
qed

end

context nic
begin

text \<open>One step of the controller on both rings.\<close>

lemma hw_step:
  assumes "rx_ring (regs n) q d" "tx_ring (regs n) p d" "dma_linked pa (regs n) d" "hw (d, n) e (d', n')"
  shows "mmio d' = mmio d \<and> dma_linked pa (regs n') d'
    \<and> rx_ring (regs n') (case e of Stored f \<Rightarrow> q @ [f] | _ \<Rightarrow> q) d'
    \<and> (case e of Sent f \<Rightarrow> \<exists>p'. p = f # p' \<and> length p < 64 \<and> tx_ring (regs n') p' d' | _ \<Rightarrow> tx_ring (regs n') p d')"
proof (cases e)
  case (Stored f)
  let ?h = "rdh (regs n)"
  have h: "?h < 64"
    using assms(1) by (auto simp: rx_ring_def)
  have room: "?h \<noteq> rdt (regs n)" "length f \<le> 2048"
    using hw_room [of d n f d' n'] assms(3,4) Stored by (auto simp: dma_linked_def)
  obtain desc where "rx_status desc AND RX_DD \<noteq> 0" "rx_length desc = of_nat (length f)"
      "rx_addr desc = rx_addr (rx_descs d ! ?h)" "d' = store_frame f ?h ?h desc d"
      "regs n' = (regs n)\<lparr>rdh := (?h + 1) mod 64\<rparr>"
    using hw_Stored [of d n f d' n' ?h ?h] dma_linked_rx [OF assms(3) h] room(2) h assms(1,4) Stored
    by (auto simp: PACKET_BUFFER_SIZE_def RX_DESC_COUNT_def rx_ring_def)
  with rx_ring_store [OF assms(1)] room assms(2,3) Stored show ?thesis
    by simp
next
  case (Sent f)
  let ?h = "tdh (regs n)"
  have t: "length p \<le> 64" "tdt (regs n) = (?h + length p) mod 64" "?h < 64" "length (tx_descs d) = 64"
    using assms(2) by (auto simp: tx_ring_def)
  have ready: "?h \<noteq> tdt (regs n)"
    using hw_ready assms(4) Sent by blast
  then have "length p \<noteq> 64" "p \<noteq> []"
    using t by auto
  then obtain g p' where p: "p = g # p'" "length p < 64"
    using t(1) by (cases p) auto
  note complete = tx_ring_complete [of "regs n" g p' d]
  have s: "f = take (unat (tx_length (tx_descs d ! ?h))) (tx_buffers d ! ?h)"
      "d' = complete_tx ?h d" "regs n' = (regs n)\<lparr>tdh := (?h + 1) mod 64\<rparr>"
    using hw_Sent [of d n f d' n' ?h ?h] dma_linked_tx [OF assms(3) t(3,4)] complete(3) ready p(1) assms(2,4) t(3) Sent
    by (auto simp: PACKET_BUFFER_SIZE_def TX_DESC_COUNT_def)
  then have "g = f"
    using complete(2) ready p(1) assms(2) by simp
  with p complete(1) ready assms(1-3) s(2,3) Sent show ?thesis
    by simp
next
  case Quiet
  with hw_Quiet [of d n d' n'] assms show ?thesis
    by simp
qed

text \<open>Both rings as queues, in every run.\<close>

lemma ring_run_queues:
  assumes "ring_run N hw (d0, n0) es s" "rx_ring (regs n0) q0 d0" "tx_ring (regs n0) p0 d0" "mmio d0 = base"
    and "dma_linked pa (regs n0) d0"
  shows "\<exists>q p. rx_ring (regs (snd s)) q (fst s) \<and> tx_ring (regs (snd s)) p (fst s) \<and> mmio (fst s) = base
    \<and> dma_linked pa (regs (snd s)) (fst s)
    \<and> q0 @ stored es = received es @ q \<and> p0 @ accepted es = sent es @ p"
  using assms
proof (induction "(d0, n0)" es s rule: ring_run.induct)
  case ring_nil
  then show ?case
    by auto
next
  case (ring_hw es s' e s'')
  then obtain q p where qp: "rx_ring (regs (snd s')) q (fst s')" "tx_ring (regs (snd s')) p (fst s')" "mmio (fst s') = base"
      "q0 @ stored es = received es @ q" "p0 @ accepted es = sent es @ p" "dma_linked pa (regs (snd s')) (fst s')"
    by blast
  have "hw (fst s', snd s') e (fst s'', snd s'')"
    using ring_hw by simp
  note step = hw_step [OF qp(1,2,6) this]
  show ?case
  proof (cases e)
    case (Stored f)
    with step qp(3-5) show ?thesis
      by (intro exI [of _ "q @ [f]"] exI [of _ p]) simp
  next
    case (Sent f)
    with step obtain p' where "p = f # p'" "tx_ring (regs (snd s'')) p' (fst s'')"
      by auto
    with Sent step qp(3-5) show ?thesis
      by (intro exI [of _ q] exI [of _ p']) simp
  next
    case Quiet
    with step qp(3-5) show ?thesis
      by (intro exI [of _ q] exI [of _ p]) simp
  qed
next
  case (ring_receive es s' r s'')
  then obtain q p where qp: "rx_ring (regs (snd s')) q (fst s')" "tx_ring (regs (snd s')) p (fst s')" "mmio (fst s') = base"
      "q0 @ stored es = received es @ q" "p0 @ accepted es = sent es @ p" "dma_linked pa (regs (snd s')) (fst s')"
    by blast
  obtain n' where n': "regs n' = (case q of [] \<Rightarrow> regs (snd s') | _ \<Rightarrow> (regs (snd s'))\<lparr>rdt := rx_cur (fst s')\<rparr>)"
      "receive_raw N s' = Some (case q of [] \<Rightarrow> (None, fst s', n') | f # _ \<Rightarrow> (Some f, take_frame (fst s'), n'))"
    using receive_step [OF qp(1,3)] by auto
  show ?case
  proof (cases q)
    case Nil
    then have "s'' = (fst s', n')" "r = None" "regs n' = regs (snd s')"
      using n' ring_receive by auto
    with Nil qp show ?thesis
      by auto
  next
    case (Cons f q')
    then have "s'' = (take_frame (fst s'), n')" "r = Some f" "regs n' = (regs (snd s'))\<lparr>rdt := rx_cur (fst s')\<rparr>"
      using n' ring_receive by auto
    with Cons qp rx_ring_take [of "regs (snd s')" f q' "fst s'"] show ?thesis
      by auto
  qed
next
  case (ring_transmit es s' data ok s'')
  then obtain q p where qp: "rx_ring (regs (snd s')) q (fst s')" "tx_ring (regs (snd s')) p (fst s')" "mmio (fst s') = base"
      "q0 @ stored es = received es @ q" "p0 @ accepted es = sent es @ p" "dma_linked pa (regs (snd s')) (fst s')"
    by blast
  obtain n' where n': "transmit_raw N data s' =
      (if length data \<le> 2048 \<and> length p < 64 then Some (True, put_frame data (fst s'), n') else Some (False, s'))"
      "regs n' = (regs (snd s'))\<lparr>tdt := (tx_cur (fst s') + 1) mod 64\<rparr>"
    using transmit_step [OF qp(2,3)] by (metis prod.collapse)
  show ?case
  proof (cases "length data \<le> 2048 \<and> length p < 64")
    case True
    then have "s'' = (put_frame data (fst s'), n')" "ok"
      using n' ring_transmit by auto
    with True qp n'(2) tx_ring_put [of "regs (snd s')" p "fst s'" data] show ?thesis
      by (intro exI [of _ q] exI [of _ "p @ [data]"]) simp
  next
    case False
    then have "s'' = s'" "\<not> ok"
      using n' ring_transmit by auto
    with qp show ?thesis
      by auto
  qed
qed

text \<open>A transmit ring with 64 frames has its tail at its head: nothing is sent, nothing accepted.\<close>

lemma stalled_run:
  assumes "ring_run N hw (d0, n0) es s" "rx_ring (regs n0) q0 d0" "tx_ring (regs n0) p0 d0" "mmio d0 = base"
    and "dma_linked pa (regs n0) d0"
    and "length p0 = 64"
  shows "sent es = [] \<and> accepted es = [] \<and> tx_ring (regs (snd s)) p0 (fst s) \<and> mmio (fst s) = base
    \<and> dma_linked pa (regs (snd s)) (fst s) \<and> (\<exists>q. rx_ring (regs (snd s)) q (fst s))"
  using assms(1)
proof (induction "(d0, n0)" es s rule: ring_run.induct)
  case ring_nil
  then show ?case
    using assms by auto
next
  case (ring_hw es s' e s'')
  then obtain q where q: "rx_ring (regs (snd s')) q (fst s')"
    by blast
  have "hw (fst s', snd s') e (fst s'', snd s'')"
    using ring_hw by simp
  with hw_step [OF q _ _ this, of p0] ring_hw assms(6) show ?case
    by (cases e) auto
next
  case (ring_receive es s' r s'')
  then obtain q where q: "rx_ring (regs (snd s')) q (fst s')"
    by blast
  have "ring_run N hw (d0, n0) (es @ [Received r]) s''"
    using ring_receive by (blast intro: ring_run.ring_receive)
  with ring_run_queues [OF this assms(2-5)] ring_receive show ?case
    by auto
next
  case (ring_transmit es s' data ok s'')
  have "\<exists>n'. transmit_raw N data (fst s', snd s') = Some (False, fst s', snd s')"
    using transmit_step [of "snd s'" p0 "fst s'" data] ring_transmit assms(6) by auto
  with ring_transmit show ?case
    by auto
qed

text \<open>With no step of the controller in between, 64 frames are accepted.\<close>

lemma transmit_many:
  assumes "rx_ring (regs n0) q0 d0" "tx_ring (regs n0) [] d0" "mmio d0 = base" "dma_linked pa (regs n0) d0" "length f \<le> 2048"
  shows "k \<le> 64 \<Longrightarrow> \<exists>es s. ring_run N hw (d0, n0) es s \<and> accepted es = replicate k f \<and> sent es = []"
proof (induction k)
  case 0
  then show ?case
    by (intro exI [of _ "[]"] exI [of _ "(d0, n0)"]) (simp add: ring_nil)
next
  case (Suc k)
  then obtain es s where es: "ring_run N hw (d0, n0) es s" "accepted es = replicate k f" "sent es = []"
    by auto
  obtain p where p: "tx_ring (regs (snd s)) p (fst s)" "mmio (fst s) = base" "accepted es = sent es @ p"
    using ring_run_queues [OF es(1) assms(1-4)] by auto
  then have "length p = k"
    using es(2,3) by (metis append_Nil length_replicate)
  then obtain s' where "transmit_raw N f s = Some (True, s')"
    using transmit_step [OF p(1,2), of f] Suc.prems assms(5) by auto
  with es(1) have "ring_run N hw (d0, n0) (es @ [Transmitted f True]) s'"
    by (rule ring_transmit)
  with es show ?case
    by (intro exI [of _ "es @ [Transmitted f True]"] exI [of _ s']) (simp add: replicate_append_same)
qed

text \<open>A driver that has been set up, with its boxes in the direct mapping.\<close>

lemma new_linked:
  assumes "E1000_new N pci_dev offset n = Some (Some d, n')" "map_option (\<lambda>p. p + offset) (mmio_base pci_dev) = Some base"
    and "direct_boxes pa d"
  shows "rx_ring (regs n') [] d" "tx_ring (regs n') [] d" "mmio d = base" "dma_linked pa (regs n') d"
proof -
  note new = new_rings [OF assms(1,2)]
  show rings: "rx_ring (regs n') [] d" "tx_ring (regs n') [] d" "mmio d = base"
    using new(1) by auto
  have "length (rx_descs d) = 64" "length (tx_descs d) = 64"
    using rings by (auto simp: rx_ring_def tx_ring_def)
  with direct_linked [OF new(2) assms(3)] show "dma_linked pa (regs n') d"
    by blast
qed

end

section \<open>A controller\<close>

record sim_nic =
  nic_ports :: sim_ports
  nic_regs :: ring_regs
  nic_heap :: u64

definition sim_offset :: u64 where "sim_offset = 0x18000000000"
definition sim_base :: u64 where "sim_base = 0x180FEBC0000"

definition sim_nic_ports :: "sim_nic port_ops" where
  "sim_nic_ports =
     \<lparr>port_out32 = (\<lambda>p v n. n\<lparr>nic_ports := port_out32 sim_port_ops p v (nic_ports n)\<rparr>),
      port_in32 = (\<lambda>p n. let (v, h) = port_in32 sim_port_ops p (nic_ports n) in (v, n\<lparr>nic_ports := h\<rparr>))\<rparr>"

definition sim_nic_write :: "u64 \<Rightarrow> u32 \<Rightarrow> sim_nic \<Rightarrow> sim_nic" where
  "sim_nic_write a v n = n\<lparr>nic_regs := set_reg (ucast (a - sim_base)) v (nic_regs n)\<rparr>"

definition sim_nic_env :: "sim_nic nic_env" where
  "sim_nic_env =
     \<lparr>mmio_read = (\<lambda>a n. (0, n)), mmio_write = sim_nic_write, pci_ports = sim_nic_ports,
      box_alloc = (\<lambda>k n.
        if HEAP_START \<le> unat (nic_heap n) \<and> unat (nic_heap n) + k \<le> HEAP_START + HEAP_SIZE
        then (Some (nic_heap n), n\<lparr>nic_heap := nic_heap n + of_nat k\<rparr>) else (None, n))\<rparr>"

text \<open>All memory is in the direct mapping.\<close>

definition sim_pa :: "u64 \<Rightarrow> u64" where
  "sim_pa v = v - sim_offset"

fun sim_hw :: "E1000 \<times> sim_nic \<Rightarrow> nic_event \<Rightarrow> E1000 \<times> sim_nic \<Rightarrow> bool" where
  "sim_hw (d, n) (Stored f) s \<longleftrightarrow>
     (let r = nic_regs n in
      rdh r \<noteq> rdt r \<and> length f \<le> rx_buffer_size (rctl r)
      \<and> (\<exists>i < RX_DESC_COUNT. \<exists>j < RX_DESC_COUNT. desc_ptr (rx_base r) (rdh r) = sim_pa (desc_ptr (rx_descs_ptr d) i)
          \<and> rx_addr (rx_descs d ! i) = sim_pa (buffer_ptr (rx_buffers_ptr d) j)
          \<and> s = (store_frame f i j ((rx_descs d ! i)\<lparr>rx_length := of_nat (length f), rx_status := 3\<rparr>) d,
                 n\<lparr>nic_regs := r\<lparr>rdh := (rdh r + 1) mod (unat (rdlen r) div 16)\<rparr>\<rparr>)))"
| "sim_hw (d, n) (Sent f) s \<longleftrightarrow>
     (let r = nic_regs n in
      tdh r \<noteq> tdt r
      \<and> (\<exists>i < TX_DESC_COUNT. \<exists>j < TX_DESC_COUNT. desc_ptr (tx_base r) (tdh r) = sim_pa (desc_ptr (tx_descs_ptr d) i)
          \<and> tx_addr (tx_descs d ! i) = sim_pa (buffer_ptr (tx_buffers_ptr d) j)
          \<and> f = take (unat (tx_length (tx_descs d ! i))) (tx_buffers d ! j)
          \<and> s = (complete_tx i d, n\<lparr>nic_regs := r\<lparr>tdh := (tdh r + 1) mod (unat (tdlen r) div 16)\<rparr>\<rparr>)))"
| "sim_hw s Quiet s' \<longleftrightarrow> s' = s"

lemma sim_read: "mmio_read sim_nic_env a n = (0, n)"
  by (simp add: sim_nic_env_def)

lemma dma_at_sim: "dma_at sim_pa a v len \<Longrightarrow> 0 < len \<Longrightarrow> a = sim_pa v"
  by (auto simp: dma_at_def)

lemma of_nat_u64_inj: "a < 2 ^ 64 \<Longrightarrow> b < 2 ^ 64 \<Longrightarrow> (of_nat a :: u64) = of_nat b \<longleftrightarrow> a = b"
  by (metis unat_of_nat_u64)

lemma ptr_inj:
  "i < 64 \<Longrightarrow> j < 64 \<Longrightarrow> sim_pa (desc_ptr p i) = sim_pa (desc_ptr p j) \<longleftrightarrow> i = j"
  "i < 64 \<Longrightarrow> j < 64 \<Longrightarrow> sim_pa (buffer_ptr p i) = sim_pa (buffer_ptr p j) \<longleftrightarrow> i = j"
  using of_nat_u64_inj [of "16 * i" "16 * j"] of_nat_u64_inj [of "2048 * i" "2048 * j"]
  by (auto simp: sim_pa_def desc_ptr_def buffer_ptr_def PACKET_BUFFER_SIZE_def)

interpretation sn: nic sim_nic_env sim_base nic_regs sim_pa sim_hw
proof
  fix d n f d' n' i j
  show "sim_hw (d, n) (Stored f) (d', n') \<Longrightarrow> i < RX_DESC_COUNT \<Longrightarrow> j < RX_DESC_COUNT \<Longrightarrow> length f \<le> PACKET_BUFFER_SIZE \<Longrightarrow>
      rx_base (nic_regs n) AND 15 = 0 \<Longrightarrow>
      dma_at sim_pa (desc_ptr (rx_base (nic_regs n)) (rdh (nic_regs n))) (desc_ptr (rx_descs_ptr d) i) 16 \<Longrightarrow>
      dma_at sim_pa (rx_addr (rx_descs d ! i)) (buffer_ptr (rx_buffers_ptr d) j) PACKET_BUFFER_SIZE \<Longrightarrow>
      (\<exists>desc. rx_status desc AND RX_DD \<noteq> 0 \<and> rx_length desc = of_nat (length f) \<and> rx_addr desc = rx_addr (rx_descs d ! i)
            \<and> d' = store_frame f i j desc d)
      \<and> nic_regs n' = (nic_regs n)\<lparr>rdh := (rdh (nic_regs n) + 1) mod (unat (rdlen (nic_regs n)) div 16)\<rparr>"
    by (auto simp: Let_def RX_DD_def RX_DESC_COUNT_def PACKET_BUFFER_SIZE_def ptr_inj dest!: dma_at_sim
        intro!: exI [of _ "(rx_descs d ! i)\<lparr>rx_length := of_nat (length f), rx_status := 3\<rparr>"])
  show "sim_hw (d, n) (Sent f) (d', n') \<Longrightarrow> i < TX_DESC_COUNT \<Longrightarrow> j < TX_DESC_COUNT \<Longrightarrow>
      unat (tx_length (tx_descs d ! i)) \<le> PACKET_BUFFER_SIZE \<Longrightarrow> tx_base (nic_regs n) AND 15 = 0 \<Longrightarrow>
      dma_at sim_pa (desc_ptr (tx_base (nic_regs n)) (tdh (nic_regs n))) (desc_ptr (tx_descs_ptr d) i) 16 \<Longrightarrow>
      dma_at sim_pa (tx_addr (tx_descs d ! i)) (buffer_ptr (tx_buffers_ptr d) j) PACKET_BUFFER_SIZE \<Longrightarrow>
      f = take (unat (tx_length (tx_descs d ! i))) (tx_buffers d ! j) \<and> d' = complete_tx i d
      \<and> nic_regs n' = (nic_regs n)\<lparr>tdh := (tdh (nic_regs n) + 1) mod (unat (tdlen (nic_regs n)) div 16)\<rparr>"
    by (auto simp: Let_def TX_DESC_COUNT_def PACKET_BUFFER_SIZE_def ptr_inj dest!: dma_at_sim)
qed (auto simp: sim_read sim_nic_env_def sim_nic_write_def Let_def)

definition sim_nic_start :: sim_nic where
  "sim_nic_start = \<lparr>nic_ports = sim_machine, nic_regs =
     \<lparr>rdbal = 0, rdbah = 0, rdlen = 0, rdh = 0, rdt = 0, rctl = 0, tdbal = 0, tdbah = 0, tdlen = 0, tdh = 0, tdt = 0\<rparr>,
      nic_heap = of_nat HEAP_START\<rparr>"

lemma init_tx_descs_total:
  "(\<forall>i < k. virt_to_phys d (buffer_ptr (tx_buffers_ptr d) i) \<noteq> None) \<Longrightarrow> k \<le> length (tx_descs d) \<Longrightarrow>
     init_tx_descs k d \<noteq> None"
proof (induction k)
  case (Suc k)
  then obtain d1 where "init_tx_descs k d = Some d1"
    by fastforce
  with init_tx_descs_eq [OF this] Suc.prems show ?case
    by (auto simp: virt_to_phys_def split: if_splits)
qed simp

lemma init_rx_descs_total:
  "(\<forall>i < k. virt_to_phys d (buffer_ptr (rx_buffers_ptr d) i) \<noteq> None) \<Longrightarrow> k \<le> length (rx_descs d) \<Longrightarrow>
     init_rx_descs k d \<noteq> None"
proof (induction k)
  case (Suc k)
  then obtain d1 where "init_rx_descs k d = Some d1"
    by fastforce
  with init_rx_descs_eq [OF this] Suc.prems show ?case
    by (auto simp: virt_to_phys_def split: if_splits)
qed simp

lemma unat_buffer_ptr:
  assumes "unat p + 64 * 2048 \<le> 2 ^ 63" "i < 64"
  shows "unat (buffer_ptr p i) = unat p + 2048 * i"
proof -
  have "unat (of_nat (2048 * i) :: u64) = 2048 * i"
    using assms(2) by (intro unat_of_nat_u64) simp
  then show ?thesis
    using assms by (simp add: buffer_ptr_def PACKET_BUFFER_SIZE_def unat_word_ariths)
qed

lemma init_rx_total:
  "init_rx_descs 64 d = Some d' \<Longrightarrow> virt_to_phys d' (rx_descs_ptr d') \<noteq> None \<Longrightarrow> \<exists>n'. init_rx N (d, n) = Some (d', n')"
  by (auto simp: init_rx_def RX_DESC_COUNT_def Let_def split: prod.split)

text \<open>The driver starts when its boxes lie above the offset of the physical memory.\<close>

lemma E1000_start_total:
  assumes "offset \<le> p1" "offset \<le> p2" "offset \<le> p3" "offset \<le> p4"
    and "unat p2 + 64 * 2048 \<le> 2 ^ 63" "unat p4 + 64 * 2048 \<le> 2 ^ 63"
  shows "\<exists>d n'. E1000_start N (E1000_struct base offset (p1, p2, p3, p4)) n = Some (d, n')
    \<and> tx_descs_ptr d = p1 \<and> rx_descs_ptr d = p3 \<and> phys_mem_offset d = offset"
proof -
  define d0 where "d0 = E1000_struct base offset (p1, p2, p3, p4)"
  obtain d1 n1 where d1: "read_mac_address N (d0, E1000_reset N d0 n) = (d1, n1)"
    by (cases "read_mac_address N (d0, E1000_reset N d0 n)")
  then obtain m where m: "d1 = d0\<lparr>mac_address := m\<rparr>"
    by (auto simp: read_mac_address_def Let_def split: prod.splits if_splits)
  have v: "virt_to_phys d p \<noteq> None" if "phys_mem_offset d = offset" "offset \<le> p" for d p
    using that by (simp add: virt_to_phys_def)
  have above: "\<not> buffer_ptr p i < offset" if "unat p + 64 * 2048 \<le> 2 ^ 63" "offset \<le> p" "i < 64" for p i
    using that unat_buffer_ptr [OF that(1,3)] by (simp add: word_le_nat_alt not_less)
  have "init_tx_descs 64 d1 \<noteq> None"
    by (rule init_tx_descs_total)
      (simp_all add: above [OF assms(5,2)] virt_to_phys_def m d0_def E1000_struct_def TX_DESC_COUNT_def)
  then obtain d2 where d2: "init_tx_descs 64 d1 = Some d2"
    by blast
  then obtain txd where txd: "d2 = d1\<lparr>tx_descs := txd\<rparr>"
    using init_tx_descs_eq [OF d2] by (auto simp: m d0_def E1000_struct_def TX_DESC_COUNT_def)
  have "init_rx_descs 64 d2 \<noteq> None"
    by (rule init_rx_descs_total)
      (simp_all add: above [OF assms(6,4)] virt_to_phys_def txd m d0_def E1000_struct_def RX_DESC_COUNT_def)
  then obtain d3 where d3: "init_rx_descs 64 d2 = Some d3"
    by blast
  then obtain rxd where rxd: "d3 = d2\<lparr>rx_descs := rxd\<rparr>"
    using init_rx_descs_eq [OF d3] by (auto simp: txd m d0_def E1000_struct_def RX_DESC_COUNT_def)
  obtain n2 where tx: "init_tx N (d1, write_mac_address N d1 n1) = Some (d2, n2)"
    using v [of d2 p1] assms(1) d2 by (auto simp: init_tx_def TX_DESC_COUNT_def Let_def txd m d0_def E1000_struct_def)
  have d3_ptr: "rx_descs_ptr d3 = p3" "phys_mem_offset d3 = offset" "tx_descs_ptr d3 = p1"
    by (simp_all add: rxd txd m d0_def E1000_struct_def)
  obtain n3 where "init_rx N (d2, n2) = Some (d3, n3)"
    using init_rx_total [OF d3, of N n2] v [OF d3_ptr(2) assms(3)] unfolding d3_ptr(1) by blast
  with tx d1 d3_ptr show ?thesis
    by (simp add: E1000_start_def Let_def d0_def [symmetric])
qed

lemma sim_direct: "dma_at sim_pa (p - sim_offset) p len"
  by (simp add: dma_at_def sim_pa_def)

lemma sim_new: "\<exists>d n. E1000_new sim_nic_env sim_controller sim_offset sim_nic_start = Some (Some d, n) \<and> direct_boxes sim_pa d"
proof -
  have base: "mmio_base sim_controller = Some 0xFEBC0000"
    by (simp add: mmio_base_def sim_controller_def)
  define n where "n = PciDevice_enable (pci_ports sim_nic_env) sim_controller sim_nic_start"
  have "nic_heap n = nic_heap sim_nic_start"
    by (simp add: n_def PciDevice_enable_def read_config_u16_def read_config_u32_def write_config_u16_def write_config_u32_def
        sim_nic_env_def sim_nic_ports_def Let_def split_def)
  then have heap: "nic_heap n = 0x444444440000"
    by (simp add: sim_nic_start_def HEAP_START_def)
  have "\<exists>n'. E1000_boxes sim_nic_env n
      = Some ((0x444444440000, 0x444444440400, 0x444444460400, 0x444444460800), n')"
    by (simp add: E1000_boxes_def box_new_def sim_nic_env_def heap HEAP_START_def HEAP_SIZE_def TX_DESC_COUNT_def RX_DESC_COUNT_def
        PACKET_BUFFER_SIZE_def)
  then obtain n1 where n1: "E1000_boxes sim_nic_env n
      = Some ((0x444444440000, 0x444444440400, 0x444444460400, 0x444444460800), n1)"
    by blast
  have "\<exists>d n'. E1000_start sim_nic_env (E1000_struct (0xFEBC0000 + sim_offset) sim_offset
      (0x444444440000, 0x444444440400, 0x444444460400, 0x444444460800)) n1 = Some (d, n')
    \<and> tx_descs_ptr d = 0x444444440000 \<and> rx_descs_ptr d = 0x444444460400 \<and> phys_mem_offset d = sim_offset"
    by (rule E1000_start_total) (simp_all add: sim_offset_def)
  then obtain d n' where d: "E1000_start sim_nic_env (E1000_struct (0xFEBC0000 + sim_offset) sim_offset
      (0x444444440000, 0x444444440400, 0x444444460400, 0x444444460800)) n1 = Some (d, n')"
      "tx_descs_ptr d = 0x444444440000" "rx_descs_ptr d = 0x444444460400" "phys_mem_offset d = sim_offset"
    by blast
  have "((0x444444440000 :: u64) - sim_offset) AND 15 = 0" "((0x444444460400 :: u64) - sim_offset) AND 15 = 0"
    by (simp_all add: sim_offset_def)
  then have "direct_boxes sim_pa d"
    by (simp add: direct_boxes_def sim_direct d(2-4))
  moreover have "E1000_new sim_nic_env sim_controller sim_offset sim_nic_start = Some (Some d, n')"
    using base n1 d(1) by (simp add: E1000_new_def n_def [symmetric] sim_offset_def)
  ultimately show ?thesis
    by blast
qed

lemma sim_base_eq: "map_option (\<lambda>p. p + sim_offset) (mmio_base sim_controller) = Some sim_base"
  by (simp add: mmio_base_def sim_controller_def sim_offset_def sim_base_def)

text \<open>Boxes and pages of the heap.\<close>

lemma boxes_in_heap:
  assumes "\<forall>k n p n'. box_alloc N k n = (Some p, n') \<longrightarrow> HEAP_START \<le> unat p \<and> unat p + k \<le> HEAP_START + HEAP_SIZE"
    and "\<exists>n0 n1. E1000_boxes N n0 = Some ((p1, p2, p3, p4), n1)"
  shows "bp \<in> {p2, p4} \<Longrightarrow> HEAP_START \<le> unat bp \<and> unat bp + 64 * 2048 \<le> HEAP_START + HEAP_SIZE"
    and "rp \<in> {p1, p3} \<Longrightarrow> HEAP_START \<le> unat rp \<and> unat rp + 64 * 16 \<le> HEAP_START + HEAP_SIZE"
proof -
  have box: "HEAP_START \<le> unat p \<and> unat p + k \<le> HEAP_START + HEAP_SIZE" if "box_new N k n = Some (p, n')" for k n p n'
    using that assms(1) by (auto simp: box_new_def split: prod.splits option.splits)
  show "bp \<in> {p2, p4} \<Longrightarrow> HEAP_START \<le> unat bp \<and> unat bp + 64 * 2048 \<le> HEAP_START + HEAP_SIZE"
    "rp \<in> {p1, p3} \<Longrightarrow> HEAP_START \<le> unat rp \<and> unat rp + 64 * 16 \<le> HEAP_START + HEAP_SIZE"
    using assms(2)
    by (auto simp: E1000_boxes_def bind_eq_Some_conv TX_DESC_COUNT_def RX_DESC_COUNT_def PACKET_BUFFER_SIZE_def dest!: box)
qed

lemma align_down_bounds: "align_down a \<le> a" "a < align_down a + 4096"
  by (simp_all add: align_down_def FRAME_SIZE_def)

lemma heap_page:
  assumes "HEAP_START \<le> v" "v < HEAP_START + HEAP_SIZE"
  shows "\<exists>k < 256. align_down v = HEAP_START + 4096 * k"
proof -
  obtain x where x: "v = HEAP_START + x" "x < HEAP_SIZE"
    using assms by (metis le_iff_add nat_add_left_cancel_less)
  have "HEAP_START = 4096 * 0x444444440"
    by (simp add: HEAP_START_def)
  then have "v mod 4096 = x mod 4096"
    using x(1) by (metis add.commute mod_mult_self2)
  then have "align_down v = HEAP_START + 4096 * (x div 4096)"
    using x(1) mult_div_mod_eq [of 4096 x] unfolding align_down_def FRAME_SIZE_def by linarith
  moreover have "x div 4096 < 256"
    using x(2) by (simp add: HEAP_SIZE_def)
  ultimately show ?thesis
    by blast
qed

section \<open>Properties\<close>

text \<open>C12: Whatever driver and controller do in turns after the driver has been set up, the frames the driver
  receives are the frames the controller stored, in order and unchanged, with at most 63 waiting, and the
  frames the controller sends are the frames the driver accepted, in order and unchanged, with at most
  64 waiting; receiving and transmitting never panic. The controller finds rings and buffers by the addresses
  and lengths in its registers and in the descriptors; the four boxes of the driver are assumed to lie in the direct
  mapping of physical memory, the rings aligned to 16 bytes, as the driver's \<open>virt_to_phys\<close> takes for granted.\<close>

theorem rings_are_queues:
  assumes "nic N base regs pa hw" "E1000_new N pci_dev offset n = Some (Some d, n')"
    and "map_option (\<lambda>p. p + offset) (mmio_base pci_dev) = Some base" "direct_boxes pa d" "ring_run N hw (d, n') es s"
  shows "\<exists>q p. stored es = received es @ q \<and> length q \<le> 63 \<and> accepted es = sent es @ p \<and> length p \<le> 64
    \<and> map_option fst (receive_raw N s) = Some (case q of [] \<Rightarrow> None | f # _ \<Rightarrow> Some f)
    \<and> map_option fst (transmit_raw N data s) = Some (length data \<le> 2048 \<and> length p < 64)"
proof -
  note start = nic.new_linked [OF assms(1-4)] and registers = nic.axioms(1) [OF assms(1)]
  obtain q p where qp: "rx_ring (regs (snd s)) q (fst s)" "tx_ring (regs (snd s)) p (fst s)" "mmio (fst s) = base"
      "stored es = received es @ q" "accepted es = sent es @ p"
    using nic.ring_run_queues [OF assms(1,5) start] by auto
  have "map_option fst (receive_raw N s) = Some (case q of [] \<Rightarrow> None | f # _ \<Rightarrow> Some f)"
    using nic_registers.receive_step [OF registers qp(1,3)] by (auto split: list.splits)
  moreover have "map_option fst (transmit_raw N data s) = Some (length data \<le> 2048 \<and> length p < 64)"
    using nic_registers.transmit_step [OF registers qp(2,3), of data] by auto
  moreover have "length q \<le> 63" "length p \<le> 64"
    using qp(1,2) by (auto simp: rx_ring_def tx_ring_def)
  ultimately show ?thesis
    using qp(4,5) by blast
qed

theorem rings_are_queues_witness:
  "\<exists>d n s. E1000_new sim_nic_env sim_controller sim_offset sim_nic_start = Some (Some d, n)
     \<and> ring_run sim_nic_env sim_hw (d, n) [Hw (Stored [1, 2, 3])] s
     \<and> map_option fst (receive_raw sim_nic_env s) = Some (Some [1, 2, 3])"
proof -
  obtain d n where new: "E1000_new sim_nic_env sim_controller sim_offset sim_nic_start = Some (Some d, n)"
      and boxes: "direct_boxes sim_pa d"
    using sim_new by blast
  note start = sn.new_linked [OF new sim_base_eq boxes]
  have ring: "rdh (nic_regs n) < 64" "length (rx_descs d) = 64" "rdh (nic_regs n) \<noteq> rdt (nic_regs n)"
    using start(1) ring_index_eq [of 0 63 "rx_cur d"] by (auto simp: rx_ring_def)
  note at = dma_linked_rx [OF start(4) ring(1)]
  have "desc_ptr (rx_base (nic_regs n)) (rdh (nic_regs n)) = sim_pa (desc_ptr (rx_descs_ptr d) (rdh (nic_regs n)))"
      "rx_addr (rx_descs d ! rdh (nic_regs n)) = sim_pa (buffer_ptr (rx_buffers_ptr d) (rdh (nic_regs n)))"
      "rx_buffer_size (rctl (nic_regs n)) = 2048"
    using dma_at_sim [OF at(2)] dma_at_sim [OF at(3) [OF ring(2)]] start(4) by (simp_all add: dma_linked_def)
  then have "\<exists>s. sim_hw (d, n) (Stored [1, 2, 3]) s"
    using ring by (auto simp: Let_def RX_DESC_COUNT_def)
  then obtain s where step: "sim_hw (d, n) (Stored [1, 2, 3]) s"
    by blast
  have run: "ring_run sim_nic_env sim_hw (d, n) [Hw (Stored [1, 2, 3])] s"
    using ring_hw [of sim_nic_env sim_hw "(d, n)" "[]", OF ring_nil step] by simp
  from rings_are_queues [OF sn.nic_axioms new sim_base_eq boxes run, of "[]"]
  have "map_option fst (receive_raw sim_nic_env s) = Some (Some [1, 2, 3])"
    by auto
  with new run show ?thesis
    by blast
qed

text \<open>If the driver gets 64 frames ahead of the controller, the tail of the transmit ring is at its head,
  which tells the controller that there is nothing to send: no frame is sent and none accepted ever
  after.\<close>

theorem tx_ring_stalls:
  assumes "nic N base regs pa hw" "E1000_new N pci_dev offset n = Some (Some d, n')"
    and "map_option (\<lambda>p. p + offset) (mmio_base pci_dev) = Some base" "direct_boxes pa d" "ring_run N hw (d, n') es s"
    and "length (accepted es) = length (sent es) + 64" "ring_run N hw s es' s'"
  shows "sent es' = [] \<and> accepted es' = [] \<and> map_option fst (transmit_raw N data s') = Some False"
proof -
  note start = nic.new_linked [OF assms(1-4)] and registers = nic.axioms(1) [OF assms(1)]
  obtain q p where qp: "rx_ring (regs (snd s)) q (fst s)" "tx_ring (regs (snd s)) p (fst s)" "mmio (fst s) = base"
      "accepted es = sent es @ p" "dma_linked pa (regs (snd s)) (fst s)"
    using nic.ring_run_queues [OF assms(1,5) start] by auto
  have p: "length p = 64"
    using assms(6) qp(4) by simp
  have "ring_run N hw (fst s, snd s) es' s'"
    using assms(7) by simp
  from nic.stalled_run [OF assms(1) this qp(1-3,5) p]
  have st: "sent es' = [] \<and> accepted es' = []" "tx_ring (regs (snd s')) p (fst s')" "mmio (fst s') = base"
    by auto
  have "map_option fst (transmit_raw N data s') = Some False"
    using nic_registers.transmit_step [OF registers st(2,3), of data] p by auto
  with st(1) show ?thesis
    by blast
qed

theorem tx_ring_stalls_witness:
  "\<exists>d n es s. E1000_new sim_nic_env sim_controller sim_offset sim_nic_start = Some (Some d, n)
     \<and> ring_run sim_nic_env sim_hw (d, n) es s \<and> accepted es = replicate 64 [7] \<and> sent es = []
     \<and> map_option fst (transmit_raw sim_nic_env [7] s) = Some False"
proof -
  obtain d n where new: "E1000_new sim_nic_env sim_controller sim_offset sim_nic_start = Some (Some d, n)"
      and boxes: "direct_boxes sim_pa d"
    using sim_new by blast
  obtain es s where es: "ring_run sim_nic_env sim_hw (d, n) es s" "accepted es = replicate 64 [7]" "sent es = []"
    using sn.transmit_many [OF sn.new_linked [OF new sim_base_eq boxes], of "[7]" 64] by auto
  from tx_ring_stalls [OF sn.nic_axioms new sim_base_eq boxes es(1) _ ring_nil, of "[7]"] es(2,3)
  have "map_option fst (transmit_raw sim_nic_env [7] s) = Some False"
    by simp
  with new es show ?thesis
    by blast
qed

text \<open>C33: The addresses the driver gives the controller, of its two rings in the base address registers and of its
  buffers in the descriptors, are not those where they are. Rings and buffers are boxes in the heap, whose pages are
  mapped to usable frames; the driver subtracts the offset of the direct map of physical memory from their
  virtual addresses. If all usable memory lies below the difference of heap start and offset, none of
  these addresses is in a usable frame.\<close>

theorem dma_misses_buffers:
  assumes "nic_registers N base regs" "E1000_new N pci_dev offset n = Some (Some d, n')"
    and "map_option (\<lambda>p. p + offset) (mmio_base pci_dev) = Some base"
    and "\<forall>k n p n'. box_alloc N k n = (Some p, n') \<longrightarrow> HEAP_START \<le> unat p \<and> unat p + k \<le> HEAP_START + HEAP_SIZE"
    and "page_mapper map_to translate huge" "map_ok mm" "\<forall>f \<in> set (frames mm). f + 4096 + unat offset \<le> HEAP_START"
    and "init_heap map_to allocate_frame (m, BootInfoFrameAllocator_init mm) = Some (Inr r, m', a')"
    and "i < 64" "(v, phys) \<in> {(tx_descs_ptr d, ring_base (tdbal (regs n')) (tdbah (regs n'))),
                             (rx_descs_ptr d, ring_base (rdbal (regs n')) (rdbah (regs n'))),
                             (buffer_ptr (tx_buffers_ptr d) i, tx_addr (tx_descs d ! i)),
                             (buffer_ptr (rx_buffers_ptr d) i, rx_addr (rx_descs d ! i))}"
  shows "(\<exists>f \<in> set (frames mm). translate m' (align_down (unat v)) = Some f \<and> align_down (unat phys) \<noteq> f)
    \<and> (\<forall>f \<in> set (frames mm). \<not> (f \<le> unat phys \<and> unat phys < f + 4096))"
proof -
  note new = nic_registers.new_rings [OF assms(1-3)]
  have "HEAP_START \<le> unat v \<and> unat v < HEAP_START + HEAP_SIZE"
  proof (cases "v \<in> {tx_descs_ptr d, rx_descs_ptr d}")
    case True
    with boxes_in_heap(2) [OF assms(4) new(3)] show ?thesis
      by fastforce
  next
    case False
    then obtain bp where "v = buffer_ptr bp i" "bp \<in> {tx_buffers_ptr d, rx_buffers_ptr d}"
      using assms(10) by auto
    with boxes_in_heap(1) [OF assms(4) new(3), of bp] unat_buffer_ptr [of bp i] assms(9) show ?thesis
      by (simp add: HEAP_START_def HEAP_SIZE_def)
  qed
  then have v: "HEAP_START \<le> unat v" "unat v < HEAP_START + HEAP_SIZE"
    by simp_all
  have "Some phys = virt_to_phys d v"
    using assms(9,10) new(2) by (auto simp: dma_programmed_def)
  then have phys: "unat phys = unat v - unat offset" "unat offset \<le> unat v"
    using new(1) by (auto simp: virt_to_phys_def unat_sub word_le_nat_alt not_less split: if_splits)
  have outside: "f + 4096 \<le> unat phys" if "f \<in> set (frames mm)" for f
    using assms(7) that phys v(1) by fastforce
  obtain start sz where "r = (start, sz)"
    by (cases r)
  then obtain fs where fs: "length fs = 256" "set fs \<subseteq> set (frames mm)"
      "\<forall>i < 256. translate m' (HEAP_START + 4096 * i) = Some (fs ! i)"
    using page_mapper.init_heap_maps [OF assms(5) _ assms(6)] assms(8) by blast
  obtain k where k: "k < 256" "align_down (unat v) = HEAP_START + 4096 * k"
    using heap_page [OF v] by blast
  have "fs ! k \<in> set (frames mm)"
    using fs(1,2) k(1) by auto
  moreover have "align_down (unat phys) \<noteq> fs ! k"
    using outside [OF calculation] align_down_bounds [of "unat phys"] by linarith
  ultimately show ?thesis
    using fs(3) k outside by fastforce
qed

theorem dma_misses_buffers_witness:
  "\<exists>d n m' a'. E1000_new sim_nic_env sim_controller sim_offset sim_nic_start = Some (Some d, n)
     \<and> init_heap sim_map_to allocate_frame ((\<lambda>_. None, {}), BootInfoFrameAllocator_init eight_mib)
         = Some (Inr (HEAP_START, HEAP_SIZE), m', a')
     \<and> fst m' (align_down (unat (buffer_ptr (rx_buffers_ptr d) 0)))
         \<noteq> Some (align_down (unat (rx_addr (rx_descs d ! 0))))
     \<and> fst m' (align_down (unat (rx_descs_ptr d)))
         \<noteq> Some (align_down (unat (ring_base (rdbal (nic_regs n)) (rdbah (nic_regs n)))))"
proof -
  obtain d n where new: "E1000_new sim_nic_env sim_controller sim_offset sim_nic_start = Some (Some d, n)"
    using sim_new by blast
  have ok: "map_ok eight_mib" "length (frames eight_mib) = 2048"
    by (simp_all add: map_ok_def eight_mib_def frames_def FRAME_SIZE_def length_step_range [unfolded FRAME_SIZE_def])
  then obtain m' a' where heap: "init_heap sim_map_to allocate_frame ((\<lambda>_. None, {}), BootInfoFrameAllocator_init eight_mib)
      = Some (Inr (HEAP_START, HEAP_SIZE), m', a')"
    using sm.init_heap_succeeds [of eight_mib "(\<lambda>_. None, {})"] by auto
  have box: "\<forall>k n p n'. box_alloc sim_nic_env k n = (Some p, n') \<longrightarrow>
      HEAP_START \<le> unat p \<and> unat p + k \<le> HEAP_START + HEAP_SIZE"
    by (auto simp: sim_nic_env_def split: if_splits)
  have "unat sim_offset = 0x18000000000"
    by (simp add: sim_offset_def)
  then have low: "\<forall>f \<in> set (frames eight_mib). f + 4096 + unat sim_offset \<le> HEAP_START"
    unfolding set_frames [OF ok(1)] by (auto simp: eight_mib_def HEAP_START_def)
  note misses = dma_misses_buffers [OF sn.nic_registers_axioms new sim_base_eq box sm.page_mapper_axioms ok(1) low heap, of 0]
  have "fst m' (align_down (unat (buffer_ptr (rx_buffers_ptr d) 0))) \<noteq> Some (align_down (unat (rx_addr (rx_descs d ! 0))))"
    using misses [of "buffer_ptr (rx_buffers_ptr d) 0" "rx_addr (rx_descs d ! 0)"] by auto
  moreover have "fst m' (align_down (unat (rx_descs_ptr d)))
      \<noteq> Some (align_down (unat (ring_base (rdbal (nic_regs n)) (rdbah (nic_regs n)))))"
    using misses [of "rx_descs_ptr d" "ring_base (rdbal (nic_regs n)) (rdbah (nic_regs n))"] by auto
  ultimately show ?thesis
    using new heap by blast
qed

end
