(* ===== verification/Net_Device.thy ===== *)
theory Net_Device
  imports E1000
begin

text \<open>
  The network devices \<open>smoltcp\<close> sees (\<open>net/device.rs\<close>, \<open>net/mod.rs\<close>): the stand-in device with its two
  packet queues and the choice between it and the e1000 driver. A receive token is the packet itself, a
  transmit token the permission to call \<open>consume\<close>, which fills a buffer with the function it is given. The
  locks around the queues are taken and released within each operation.
\<close>

section \<open>The stand-in device\<close>

definition MTU :: nat where "MTU = 1500"
definition QUEUE_CAPACITY :: nat where "QUEUE_CAPACITY = 16"

record QemuE1000 =
  rx_queue :: "u8 list list"
  tx_queue :: "u8 list list"
  qemu_mac :: "u8 list"

definition QemuE1000_new :: QemuE1000 where
  "QemuE1000_new = \<lparr>rx_queue = [], tx_queue = [], qemu_mac = [0x52, 0x54, 0x00, 0x12, 0x34, 0x56]\<rparr>"

definition inject_rx :: "u8 list \<Rightarrow> QemuE1000 \<Rightarrow> QemuE1000" where
  "inject_rx data q = (if length (rx_queue q) < QUEUE_CAPACITY then q\<lparr>rx_queue := rx_queue q @ [data]\<rparr> else q)"

definition drain_tx :: "QemuE1000 \<Rightarrow> u8 list list \<times> QemuE1000" where
  "drain_tx q = (tx_queue q, q\<lparr>tx_queue := []\<rparr>)"

definition QemuE1000_receive :: "QemuE1000 \<Rightarrow> u8 list option \<times> QemuE1000" where
  "QemuE1000_receive q =
     (case rx_queue q of
        b # bs \<Rightarrow> (Some b, q\<lparr>rx_queue := bs\<rparr>)
      | [] \<Rightarrow> (None, q))"

definition QemuE1000_transmit :: "QemuE1000 \<Rightarrow> bool" where
  "QemuE1000_transmit q \<longleftrightarrow> length (tx_queue q) < QUEUE_CAPACITY"

definition QemuE1000_consume_tx :: "nat \<Rightarrow> (u8 list \<Rightarrow> 'r \<times> u8 list) \<Rightarrow> QemuE1000 \<Rightarrow> 'r \<times> QemuE1000" where
  "QemuE1000_consume_tx len f q =
     (let (r, b) = f (replicate len 0)
      in (r, if length (tx_queue q) < QUEUE_CAPACITY then q\<lparr>tx_queue := tx_queue q @ [b]\<rparr> else q))"

section \<open>The device of the stack\<close>

datatype NetworkDevice = Real E1000 | Loopback QemuE1000

datatype Medium = Ethernet

record DeviceCapabilities =
  medium :: Medium
  max_transmission_unit :: nat
  max_burst_size :: "nat option"

definition NetworkDevice_probe :: "'n nic_env \<Rightarrow> u64 \<Rightarrow> 'n \<Rightarrow> (NetworkDevice \<times> 'n) option" where
  "NetworkDevice_probe N offset n =
     (case E1000_probe N offset n of
        None \<Rightarrow> None
      | Some (Some d, n) \<Rightarrow> Some (Real d, n)
      | Some (None, n) \<Rightarrow> Some (Loopback QemuE1000_new, n))"

primrec device_mac :: "NetworkDevice \<Rightarrow> u8 list" where
  "device_mac (Real d) = mac_address d"
| "device_mac (Loopback q) = qemu_mac q"

primrec is_real :: "NetworkDevice \<Rightarrow> bool" where
  "is_real (Real d) \<longleftrightarrow> True"
| "is_real (Loopback q) \<longleftrightarrow> False"

text \<open>\<open>receive\<close>: the packet, with which a transmit token comes too.\<close>

fun device_receive :: "'n nic_env \<Rightarrow> NetworkDevice \<times> 'n \<Rightarrow> (u8 list option \<times> NetworkDevice \<times> 'n) option" where
  "device_receive N (Real d, n) = map_option (\<lambda>(r, d, n). (r, Real d, n)) (receive_raw N (d, n))"
| "device_receive N (Loopback q, n) = (let (r, q) = QemuE1000_receive q in Some (r, Loopback q, n))"

primrec device_transmit :: "NetworkDevice \<Rightarrow> bool option" where
  "device_transmit (Real d) = E1000_can_transmit d"
| "device_transmit (Loopback q) = Some (QemuE1000_transmit q)"

fun device_consume_tx ::
    "'n nic_env \<Rightarrow> nat \<Rightarrow> (u8 list \<Rightarrow> 'r \<times> u8 list) \<Rightarrow> NetworkDevice \<times> 'n \<Rightarrow> ('r \<times> NetworkDevice \<times> 'n) option" where
  "device_consume_tx N len f (Real d, n) = map_option (\<lambda>(r, d, n). (r, Real d, n)) (E1000_consume_tx N len f (d, n))"
| "device_consume_tx N len f (Loopback q, n) = (let (r, q) = QemuE1000_consume_tx len f q in Some (r, Loopback q, n))"

definition E1000_capabilities :: "E1000 \<Rightarrow> DeviceCapabilities" where
  "E1000_capabilities d = \<lparr>medium = Ethernet, max_transmission_unit = MTU, max_burst_size = Some 1\<rparr>"

definition QemuE1000_capabilities :: "QemuE1000 \<Rightarrow> DeviceCapabilities" where
  "QemuE1000_capabilities q = \<lparr>medium = Ethernet, max_transmission_unit = MTU, max_burst_size = Some 1\<rparr>"

primrec capabilities :: "NetworkDevice \<Rightarrow> DeviceCapabilities" where
  "capabilities (Real d) = E1000_capabilities d"
| "capabilities (Loopback q) = QemuE1000_capabilities q"

section \<open>What becomes of packets\<close>

text \<open>What \<open>smoltcp\<close> does to the device: it receives, asks for a token, or consumes one.\<close>

datatype phy_op = PhyReceive | PhyTransmit "u8 list"

text \<open>A packet that is transmitted: a token is asked for and, if there is one, consumed.\<close>

definition phy_step :: "'n nic_env \<Rightarrow> phy_op \<Rightarrow> NetworkDevice \<times> 'n \<Rightarrow> (u8 list option \<times> NetworkDevice \<times> 'n) option" where
  "phy_step N op s =
     (case op of
        PhyReceive \<Rightarrow> device_receive N s
      | PhyTransmit b \<Rightarrow>
          (case device_transmit (fst s) of
             None \<Rightarrow> None
           | Some True \<Rightarrow> map_option (\<lambda>(_, s). (None, s)) (device_consume_tx N (length b) (\<lambda>_. ((), b)) s)
           | Some False \<Rightarrow> Some (None, s)))"

fun phy_run :: "'n nic_env \<Rightarrow> phy_op list \<Rightarrow> NetworkDevice \<times> 'n \<Rightarrow> (u8 list list \<times> NetworkDevice \<times> 'n) option" where
  "phy_run N [] s = Some ([], s)"
| "phy_run N (op # ops) s =
     (case phy_step N op s of
        None \<Rightarrow> None
      | Some (r, s) \<Rightarrow>
          map_option (\<lambda>(rs, s). ((case r of Some f \<Rightarrow> f # rs | None \<Rightarrow> rs), s)) (phy_run N ops s))"

definition transmitted :: "phy_op list \<Rightarrow> u8 list list" where
  "transmitted ops = concat (map (\<lambda>op. case op of PhyTransmit b \<Rightarrow> [b] | PhyReceive \<Rightarrow> []) ops)"

lemma loopback_run:
  "rx_queue q = [] \<Longrightarrow> length (tx_queue q) \<le> 16 \<Longrightarrow>
     phy_run N ops (Loopback q, n)
       = Some ([], Loopback (q\<lparr>tx_queue := tx_queue q @ take (16 - length (tx_queue q)) (transmitted ops)\<rparr>), n)"
proof (induction ops arbitrary: q)
  case Nil
  then show ?case
    by (simp add: transmitted_def)
next
  case (Cons op ops)
  show ?case
  proof (cases op)
    case PhyReceive
    with Cons show ?thesis
      by (simp add: phy_step_def QemuE1000_receive_def transmitted_def)
  next
    case (PhyTransmit b)
    show ?thesis
    proof (cases "length (tx_queue q) < 16")
      case True
      with Cons PhyTransmit show ?thesis
        by (simp add: phy_step_def QemuE1000_transmit_def QemuE1000_consume_tx_def QUEUE_CAPACITY_def transmitted_def
            Suc_diff_le [symmetric] take_Cons' del: phy_run.simps(1))
    next
      case False
      with Cons PhyTransmit show ?thesis
        by (simp add: phy_step_def QemuE1000_transmit_def QUEUE_CAPACITY_def transmitted_def)
    qed
  qed
qed

text \<open>The device used when no network controller is found never delivers a packet: what is transmitted
  is not received, 16 packets are kept and all later ones dropped.\<close>

theorem loopback_delivers_nothing:
  "phy_run N ops (Loopback QemuE1000_new, n)
     = Some ([], Loopback (QemuE1000_new\<lparr>tx_queue := take 16 (transmitted ops)\<rparr>), n)"
  using loopback_run [of QemuE1000_new N ops n] by (simp add: QemuE1000_new_def)

end
