(* ===== verification/Net_Stack.thy ===== *)
theory Net_Stack
  imports Net_Device Console Dns_Resolver
begin

text \<open>
  The network stack (\<open>net/stack.rs\<close>): a wrapper around an interface and a socket set of the \<open>smoltcp\<close>
  crate, which is a parameter. \<open>None\<close> is a panic of the crate: an operation on a socket through a handle of
  another kind of socket, or an interface address that is not unicast. The interface keeps a short list of
  addresses that only \<open>update_ip_addrs\<close> changes, and routes; the locales at the end state this and no more.
  Time is in milliseconds.
\<close>

section \<open>The parameter\<close>

datatype IpCidr = Ipv4Cidr Ipv4Address u8

primrec cidr_address :: "IpCidr \<Rightarrow> Ipv4Address" where
  "cidr_address (Ipv4Cidr a _) = a"

type_synonym IpEndpoint = "Ipv4Address \<times> u16"
type_synonym Instant = int

text \<open>The sockets that are made, with the sizes of their buffers.\<close>

datatype SocketSpec =
    TcpSpec nat nat
  | UdpSpec nat nat nat nat
  | IcmpSpec nat nat nat nat
  | DhcpSpec
  | DnsSpec "Ipv4Address list"

record DhcpLease =
  lease_address :: Ipv4Address
  lease_prefix :: u8
  lease_router :: "Ipv4Address option"
  lease_dns :: "Ipv4Address list"

datatype DhcpSocketEvent = SocketConfigured DhcpLease | SocketDeconfigured

record ('h, 'qh, 'i, 's, 'n) smoltcp_ops =
  iface_new :: "u8 list \<Rightarrow> 'i"
  iface_poll :: "Instant \<Rightarrow> 'i \<times> NetworkDevice \<times> 'n \<times> 's \<Rightarrow> 'i \<times> NetworkDevice \<times> 'n \<times> 's"
  ip_addrs :: "'i \<Rightarrow> IpCidr list"
  set_ip_addrs :: "IpCidr list \<Rightarrow> 'i \<Rightarrow> 'i option"
  ipv4_is_unicast :: "Ipv4Address \<Rightarrow> bool"
  addr_capacity :: nat
  add_default_ipv4_route :: "Ipv4Address \<Rightarrow> 'i \<Rightarrow> 'i"
  sockets_new :: "nat \<Rightarrow> 's"
  sockets_add :: "SocketSpec \<Rightarrow> 's \<Rightarrow> 'h \<times> 's"
  tcp_socket_connect :: "'h \<Rightarrow> IpEndpoint \<Rightarrow> u16 \<Rightarrow> 'i \<Rightarrow> 's \<Rightarrow> (bool \<times> 's) option"
  tcp_socket_listen :: "'h \<Rightarrow> u16 \<Rightarrow> 's \<Rightarrow> (bool \<times> 's) option"
  tcp_socket_close :: "'h \<Rightarrow> 's \<Rightarrow> 's option"
  tcp_is_active :: "'h \<Rightarrow> 's \<Rightarrow> bool option"
  tcp_can_send :: "'h \<Rightarrow> 's \<Rightarrow> bool option"
  tcp_can_recv :: "'h \<Rightarrow> 's \<Rightarrow> bool option"
  tcp_send_slice :: "'h \<Rightarrow> u8 list \<Rightarrow> 's \<Rightarrow> (nat option \<times> 's) option"
  tcp_recv_slice :: "'h \<Rightarrow> u8 list \<Rightarrow> 's \<Rightarrow> (nat option \<times> u8 list \<times> 's) option"
  udp_socket_bind :: "'h \<Rightarrow> u16 \<Rightarrow> 's \<Rightarrow> (bool \<times> 's) option"
  udp_can_send :: "'h \<Rightarrow> 's \<Rightarrow> bool option"
  udp_can_recv :: "'h \<Rightarrow> 's \<Rightarrow> bool option"
  udp_send_slice :: "'h \<Rightarrow> u8 list \<Rightarrow> IpEndpoint \<Rightarrow> 's \<Rightarrow> (bool \<times> 's) option"
  udp_recv_slice :: "'h \<Rightarrow> u8 list \<Rightarrow> 's \<Rightarrow> ((nat \<times> IpEndpoint) option \<times> u8 list \<times> 's) option"
  icmp_handles :: "'s \<Rightarrow> 'h list"
  icmp_can_recv :: "'h \<Rightarrow> 's \<Rightarrow> bool"
  icmp_recv_slice :: "'h \<Rightarrow> u8 list \<Rightarrow> 's \<Rightarrow> (nat \<times> Ipv4Address) option \<times> u8 list \<times> 's"
  icmp_send_slice :: "'h \<Rightarrow> u8 list \<Rightarrow> Ipv4Address \<Rightarrow> 's \<Rightarrow> (str option \<times> 's) option"
  icmp_emit_echo :: "u16 \<Rightarrow> u16 \<Rightarrow> u8 list \<Rightarrow> u8 list"
  icmp_parse_echo_reply :: "u8 list \<Rightarrow> (u16 \<times> u16) option"
  dhcp_socket_poll :: "'h \<Rightarrow> 's \<Rightarrow> (DhcpSocketEvent option \<times> 's) option"
  dhcp_socket_reset :: "'h \<Rightarrow> 's \<Rightarrow> 's option"
  dns_start_query :: "'h \<Rightarrow> str \<Rightarrow> 'i \<Rightarrow> 's \<Rightarrow> (StartQueryError + 'qh) \<times> 's"
  dns_get_query_result :: "'h \<Rightarrow> 'qh \<Rightarrow> 's \<Rightarrow> (GetQueryResultError + Ipv4Address list) \<times> 's"

section \<open>The stack\<close>

definition MAX_SOCKETS :: nat where "MAX_SOCKETS = 16"
definition TCP_RX_BUFFER_SIZE :: nat where "TCP_RX_BUFFER_SIZE = 4096"
definition TCP_TX_BUFFER_SIZE :: nat where "TCP_TX_BUFFER_SIZE = 4096"
definition UDP_RX_META_SIZE :: nat where "UDP_RX_META_SIZE = 8"
definition UDP_TX_META_SIZE :: nat where "UDP_TX_META_SIZE = 8"
definition UDP_BUFFER_SIZE :: nat where "UDP_BUFFER_SIZE = 2048"

datatype NetConfig = DhcpConfiguration | StaticConfiguration IpCidr "Ipv4Address option" "Ipv4Address list"

definition NetConfig_dhcp :: NetConfig where
  "NetConfig_dhcp = DhcpConfiguration"

definition NetConfig_static_ip :: "IpCidr \<Rightarrow> Ipv4Address option \<Rightarrow> Ipv4Address list \<Rightarrow> NetConfig" where
  "NetConfig_static_ip ip gateway dns = StaticConfiguration ip gateway dns"

text \<open>The stack, with the hardware behind its device.\<close>

record ('i, 's, 'n) NetworkStack =
  stack_device :: NetworkDevice
  stack_hw :: 'n
  interface :: 'i
  sockets :: 's
  net_config :: NetConfig
  servers :: "Ipv4Address list"

text \<open>\<open>heapless::Vec::push\<close> refuses an element when the vector is full; the result is ignored.\<close>

definition push_addr :: "('h, 'qh, 'i, 's, 'n) smoltcp_ops \<Rightarrow> IpCidr \<Rightarrow> IpCidr list \<Rightarrow> IpCidr list" where
  "push_addr S ip addrs = (if length addrs < addr_capacity S then addrs @ [ip] else addrs)"

definition update_ip_addrs :: "('h, 'qh, 'i, 's, 'n) smoltcp_ops \<Rightarrow> (IpCidr list \<Rightarrow> IpCidr list) \<Rightarrow> 'i \<Rightarrow> 'i option" where
  "update_ip_addrs S f i = set_ip_addrs S (f (ip_addrs S i)) i"

definition add_gateway :: "('h, 'qh, 'i, 's, 'n) smoltcp_ops \<Rightarrow> Ipv4Address option \<Rightarrow> 'i \<Rightarrow> 'i" where
  "add_gateway S gateway i = (case gateway of Some gw \<Rightarrow> add_default_ipv4_route S gw i | None \<Rightarrow> i)"

definition NetworkStack_new ::
    "('h, 'qh, 'i, 's, 'n) smoltcp_ops \<Rightarrow> NetworkDevice \<Rightarrow> NetConfig \<Rightarrow> 'n \<Rightarrow> ('i, 's, 'n) NetworkStack option" where
  "NetworkStack_new S dev config n =
     (let stack = \<lparr>stack_device = dev, stack_hw = n, interface = iface_new S (device_mac dev),
            sockets = sockets_new S MAX_SOCKETS, net_config = config,
            servers = (case config of DhcpConfiguration \<Rightarrow> [] | StaticConfiguration _ _ dns \<Rightarrow> dns)\<rparr>
      in case config of
           DhcpConfiguration \<Rightarrow> Some stack
         | StaticConfiguration ip gateway _ \<Rightarrow>
             map_option (\<lambda>i. stack\<lparr>interface := add_gateway S gateway i\<rparr>)
               (update_ip_addrs S (push_addr S ip) (interface stack)))"

definition NetworkStack_poll ::
    "('h, 'qh, 'i, 's, 'n) smoltcp_ops \<Rightarrow> Instant \<Rightarrow> ('i, 's, 'n) NetworkStack \<Rightarrow> ('i, 's, 'n) NetworkStack" where
  "NetworkStack_poll S timestamp stack =
     (let (i, dev, n, s) = iface_poll S timestamp (interface stack, stack_device stack, stack_hw stack, sockets stack)
      in stack\<lparr>interface := i, stack_device := dev, stack_hw := n, sockets := s\<rparr>)"

definition ip_address :: "('h, 'qh, 'i, 's, 'n) smoltcp_ops \<Rightarrow> ('i, 's, 'n) NetworkStack \<Rightarrow> Ipv4Address option" where
  "ip_address S stack = (case ip_addrs S (interface stack) of [] \<Rightarrow> None | cidr # _ \<Rightarrow> Some (cidr_address cidr))"

definition ipv4_address :: "('h, 'qh, 'i, 's, 'n) smoltcp_ops \<Rightarrow> ('i, 's, 'n) NetworkStack \<Rightarrow> Ipv4Address option" where
  "ipv4_address S stack = ip_address S stack"

definition has_ip :: "('h, 'qh, 'i, 's, 'n) smoltcp_ops \<Rightarrow> ('i, 's, 'n) NetworkStack \<Rightarrow> bool" where
  "has_ip S stack \<longleftrightarrow> ip_addrs S (interface stack) \<noteq> []"

definition set_ip_config ::
    "('h, 'qh, 'i, 's, 'n) smoltcp_ops \<Rightarrow> IpCidr \<Rightarrow> Ipv4Address option \<Rightarrow> ('i, 's, 'n) NetworkStack
     \<Rightarrow> ('i, 's, 'n) NetworkStack option" where
  "set_ip_config S ip gateway stack =
     map_option (\<lambda>i. stack\<lparr>interface := add_gateway S gateway i\<rparr>)
       (update_ip_addrs S (\<lambda>addrs. push_addr S ip []) (interface stack))"

definition set_dns_servers :: "Ipv4Address list \<Rightarrow> ('i, 's, 'n) NetworkStack \<Rightarrow> ('i, 's, 'n) NetworkStack" where
  "set_dns_servers dns stack = stack\<lparr>servers := dns\<rparr>"

definition add_socket ::
    "('h, 'qh, 'i, 's, 'n) smoltcp_ops \<Rightarrow> SocketSpec \<Rightarrow> ('i, 's, 'n) NetworkStack \<Rightarrow> 'h \<times> ('i, 's, 'n) NetworkStack" where
  "add_socket S spec stack = (let (h, s) = sockets_add S spec (sockets stack) in (h, stack\<lparr>sockets := s\<rparr>))"

definition tcp_socket ::
    "('h, 'qh, 'i, 's, 'n) smoltcp_ops \<Rightarrow> ('i, 's, 'n) NetworkStack \<Rightarrow> 'h \<times> ('i, 's, 'n) NetworkStack" where
  "tcp_socket S = add_socket S (TcpSpec TCP_RX_BUFFER_SIZE TCP_TX_BUFFER_SIZE)"

definition udp_socket ::
    "('h, 'qh, 'i, 's, 'n) smoltcp_ops \<Rightarrow> ('i, 's, 'n) NetworkStack \<Rightarrow> 'h \<times> ('i, 's, 'n) NetworkStack" where
  "udp_socket S = add_socket S (UdpSpec UDP_RX_META_SIZE UDP_BUFFER_SIZE UDP_TX_META_SIZE UDP_BUFFER_SIZE)"

definition icmp_socket ::
    "('h, 'qh, 'i, 's, 'n) smoltcp_ops \<Rightarrow> ('i, 's, 'n) NetworkStack \<Rightarrow> 'h \<times> ('i, 's, 'n) NetworkStack" where
  "icmp_socket S = add_socket S (IcmpSpec 4 1024 4 1024)"

text \<open>An operation on the socket set, and one that fails with a network error.\<close>

definition with_sockets :: "('s \<Rightarrow> ('r \<times> 's) option) \<Rightarrow> ('i, 's, 'n) NetworkStack \<Rightarrow> ('r \<times> ('i, 's, 'n) NetworkStack) option" where
  "with_sockets f stack = map_option (\<lambda>(r, s). (r, stack\<lparr>sockets := s\<rparr>)) (f (sockets stack))"

definition map_err :: "NetError \<Rightarrow> bool \<Rightarrow> NetError + unit" where
  "map_err e ok = (if ok then Inr () else Inl e)"

definition tcp_connect ::
    "('h, 'qh, 'i, 's, 'n) smoltcp_ops \<Rightarrow> 'h \<Rightarrow> IpEndpoint \<Rightarrow> u16 \<Rightarrow> ('i, 's, 'n) NetworkStack
     \<Rightarrow> ((NetError + unit) \<times> ('i, 's, 'n) NetworkStack) option" where
  "tcp_connect S handle remote local_port stack =
     map_option (map_prod (map_err ConnectionRefused) id)
       (with_sockets (tcp_socket_connect S handle remote local_port (interface stack)) stack)"

definition tcp_listen ::
    "('h, 'qh, 'i, 's, 'n) smoltcp_ops \<Rightarrow> 'h \<Rightarrow> u16 \<Rightarrow> ('i, 's, 'n) NetworkStack
     \<Rightarrow> ((NetError + unit) \<times> ('i, 's, 'n) NetworkStack) option" where
  "tcp_listen S handle port stack =
     map_option (map_prod (map_err IoError) id) (with_sockets (tcp_socket_listen S handle port) stack)"

definition tcp_close ::
    "('h, 'qh, 'i, 's, 'n) smoltcp_ops \<Rightarrow> 'h \<Rightarrow> ('i, 's, 'n) NetworkStack \<Rightarrow> ('i, 's, 'n) NetworkStack option" where
  "tcp_close S handle stack = map_option (\<lambda>s. stack\<lparr>sockets := s\<rparr>) (tcp_socket_close S handle (sockets stack))"

definition udp_bind ::
    "('h, 'qh, 'i, 's, 'n) smoltcp_ops \<Rightarrow> 'h \<Rightarrow> u16 \<Rightarrow> ('i, 's, 'n) NetworkStack
     \<Rightarrow> ((NetError + unit) \<times> ('i, 's, 'n) NetworkStack) option" where
  "udp_bind S handle port stack =
     map_option (map_prod (map_err IoError) id) (with_sockets (udp_socket_bind S handle port) stack)"

text \<open>What the resolver uses of the stack.\<close>

definition stack_start_dns_query ::
    "('h, 'qh, 'i, 's, 'n) smoltcp_ops \<Rightarrow> 'h \<Rightarrow> str \<Rightarrow> ('i, 's, 'n) NetworkStack
     \<Rightarrow> (StartQueryError + 'qh) \<times> ('i, 's, 'n) NetworkStack" where
  "stack_start_dns_query S handle hostname stack =
     (let (r, s) = dns_start_query S handle hostname (interface stack) (sockets stack) in (r, stack\<lparr>sockets := s\<rparr>))"

definition stack_dns :: "('h, 'qh, 'i, 's, 'n) smoltcp_ops \<Rightarrow> ('h, 'qh, ('i, 's, 'n) NetworkStack) dns_ops" where
  "stack_dns S =
     \<lparr>dns_servers = servers,
      add_dns_socket = (\<lambda>dns. add_socket S (DnsSpec dns)),
      start_dns_query = stack_start_dns_query S,
      get_query_result = (\<lambda>h q stack.
        let (r, s) = dns_get_query_result S h q (sockets stack) in (r, stack\<lparr>sockets := s\<rparr>))\<rparr>"

text \<open>Echo replies: each ICMP socket is asked for one packet.\<close>

definition show_u16 :: "u16 \<Rightarrow> str" where
  "show_u16 x = show_nat (unat x)"

definition check_icmp_socket ::
    "('h, 'qh, 'i, 's, 'n) smoltcp_ops \<Rightarrow> 'h \<Rightarrow> console_op list \<times> u8 list \<times> 's \<Rightarrow> console_op list \<times> u8 list \<times> 's" where
  "check_icmp_socket S h = (\<lambda>(out, buffer, s).
     if icmp_can_recv S h s then
       (case icmp_recv_slice S h buffer s of
          (Some (len, source), buffer, s) \<Rightarrow>
            (case icmp_parse_echo_reply S (take len buffer) of
               Some (ident, seq_no) \<Rightarrow>
                 (out @ [Println ([CHR 0x0A] @ ''[Network] Ping reply from '' @ show_ipv4 source @ '': ident='' @ show_u16 ident
                    @ '', seq='' @ show_u16 seq_no)], buffer, s)
             | None \<Rightarrow> (out, buffer, s))
        | (None, buffer, s) \<Rightarrow> (out, buffer, s))
     else (out, buffer, s))"

definition check_icmp ::
    "('h, 'qh, 'i, 's, 'n) smoltcp_ops \<Rightarrow> ('i, 's, 'n) NetworkStack \<Rightarrow> console_op list \<times> ('i, 's, 'n) NetworkStack" where
  "check_icmp S stack =
     (case fold (check_icmp_socket S) (icmp_handles S (sockets stack)) ([], replicate 1024 0, sockets stack) of
        (out, _, s) \<Rightarrow> (out, stack\<lparr>sockets := s\<rparr>))"

section \<open>What the crate promises\<close>

text \<open>Addresses change by \<open>update_ip_addrs\<close> only, which accepts unicast ones; those of link-local range and of
  leases are. Polling uses the device by its tokens only.\<close>

locale smoltcp =
  fixes S :: "('h, 'qh, 'i, 's, 'n) smoltcp_ops"
  assumes capacity: "1 \<le> addr_capacity S"
    and new_addrs: "ip_addrs S (iface_new S mac) = []"
    and set_addrs: "length addrs \<le> addr_capacity S \<Longrightarrow> \<forall>c \<in> set addrs. ipv4_is_unicast S (cidr_address c) \<Longrightarrow>
      \<exists>i'. set_ip_addrs S addrs i = Some i' \<and> ip_addrs S i' = addrs"
    and link_local_unicast: "ipv4_is_unicast S (Ipv4 169 254 x y)"
    and lease_unicast: "dhcp_socket_poll S h s = Some (Some (SocketConfigured lease), s')
      \<Longrightarrow> ipv4_is_unicast S (lease_address lease)"
    and route_addrs: "ip_addrs S (add_default_ipv4_route S gw i) = ip_addrs S i"
    and poll_frame: "iface_poll S t (i, dev, n, s) = (i', dev', n', s')
      \<Longrightarrow> ip_addrs S i' = ip_addrs S i \<and> device_mac dev' = device_mac dev"
begin

lemma gateway_addrs: "ip_addrs S (add_gateway S gw i) = ip_addrs S i"
  by (simp add: add_gateway_def route_addrs split: option.split)

lemma set_ip_config_succeeds:
  assumes "ipv4_is_unicast S (cidr_address ip)"
  shows "\<exists>i. set_ip_config S ip gw stack = Some (stack\<lparr>interface := i\<rparr>) \<and> ip_addrs S i = [ip]"
  using set_addrs [of "[ip]" "interface stack"] assms capacity
  by (auto simp: set_ip_config_def update_ip_addrs_def push_addr_def gateway_addrs)

lemma poll_keeps_addrs:
  "ip_addrs S (interface (NetworkStack_poll S t stack)) = ip_addrs S (interface stack)"
  "device_mac (stack_device (NetworkStack_poll S t stack)) = device_mac (stack_device stack)"
  by (auto simp: NetworkStack_poll_def dest!: poll_frame split: prod.splits)

lemma new_stack_addrs:
  assumes "case config of DhcpConfiguration \<Rightarrow> True | StaticConfiguration ip _ _ \<Rightarrow> ipv4_is_unicast S (cidr_address ip)"
  shows "\<exists>stack. NetworkStack_new S dev config n = Some stack
     \<and> ip_addrs S (interface stack) = (case config of DhcpConfiguration \<Rightarrow> [] | StaticConfiguration ip _ _ \<Rightarrow> [ip])"
  using assms set_addrs [of "[ip]" "iface_new S (device_mac dev)" for ip] capacity
  by (fastforce simp: NetworkStack_new_def update_ip_addrs_def push_addr_def gateway_addrs new_addrs split: NetConfig.splits)

end

text \<open>The default route changes by \<open>add_default_ipv4_route\<close> only, which replaces it.\<close>

locale smoltcp_routes = smoltcp S for S :: "('h, 'qh, 'i, 's, 'n) smoltcp_ops" +
  fixes default_route :: "'i \<Rightarrow> Ipv4Address option"
  assumes new_route: "default_route (iface_new S mac) = None"
    and set_addrs_route: "set_ip_addrs S addrs i = Some i' \<Longrightarrow> default_route i' = default_route i"
    and add_route: "default_route (add_default_ipv4_route S gw i) = Some gw"
    and poll_route: "iface_poll S t (i, dev, n, s) = (i', dev', n', s') \<Longrightarrow> default_route i' = default_route i"
begin

lemma set_ip_config_route:
  "set_ip_config S ip gw stack = Some stack' \<Longrightarrow>
     default_route (interface stack') = (case gw of Some g \<Rightarrow> Some g | None \<Rightarrow> default_route (interface stack))"
  by (auto simp: set_ip_config_def update_ip_addrs_def add_gateway_def add_route dest: set_addrs_route split: option.split)

lemma poll_keeps_route: "default_route (interface (NetworkStack_poll S t stack)) = default_route (interface stack)"
  by (auto simp: NetworkStack_poll_def dest!: poll_route split: prod.splits)

end

text \<open>A handle keeps its kind of socket, and an operation of that kind does not panic.\<close>

datatype SocketKind = TcpKind | UdpKind | IcmpKind | DhcpKind | DnsKind

primrec spec_kind :: "SocketSpec \<Rightarrow> SocketKind" where
  "spec_kind (TcpSpec _ _) = TcpKind"
| "spec_kind (UdpSpec _ _ _ _) = UdpKind"
| "spec_kind (IcmpSpec _ _ _ _) = IcmpKind"
| "spec_kind DhcpSpec = DhcpKind"
| "spec_kind (DnsSpec _) = DnsKind"

locale smoltcp_sockets = smoltcp S for S :: "('h, 'qh, 'i, 's, 'n) smoltcp_ops" +
  fixes kinds :: "'s \<Rightarrow> 'h \<Rightarrow> SocketKind option"
  assumes add_kind: "sockets_add S spec s = (h, s') \<Longrightarrow> kinds s h = None \<and> kinds s' = (kinds s)(h \<mapsto> spec_kind spec)"
    and connect_kind: "kinds s h = Some TcpKind
      \<Longrightarrow> \<exists>ok s'. tcp_socket_connect S h remote port i s = Some (ok, s') \<and> kinds s' = kinds s"
    and send_kind: "kinds s h = Some IcmpKind
      \<Longrightarrow> \<exists>err s'. icmp_send_slice S h packet ip s = Some (err, s') \<and> kinds s' = kinds s"
    and dhcp_poll_kind: "kinds s h = Some DhcpKind
      \<Longrightarrow> \<exists>e s'. dhcp_socket_poll S h s = Some (e, s') \<and> kinds s' = kinds s"
    and dhcp_reset_kind: "kinds s h = Some DhcpKind \<Longrightarrow> \<exists>s'. dhcp_socket_reset S h s = Some s' \<and> kinds s' = kinds s"
    and query_kind: "dns_start_query S h name i s = (r, s') \<Longrightarrow> kinds s' = kinds s"
    and icmp_recv_kind: "icmp_recv_slice S h buf s = (received, buf', s') \<Longrightarrow> kinds s' = kinds s"
    and poll_kind: "iface_poll S t (i, dev, n, s) = (i', dev', n', s') \<Longrightarrow> kinds s' = kinds s"
begin

lemma poll_keeps_kinds: "kinds (sockets (NetworkStack_poll S t stack)) = kinds (sockets stack)"
  by (auto simp: NetworkStack_poll_def dest!: poll_kind split: prod.splits)

lemma check_icmp_socket_kinds:
  "check_icmp_socket S h (out, buf, s) = (out', buf', s') \<Longrightarrow> kinds s' = kinds s"
  by (auto simp: check_icmp_socket_def dest: icmp_recv_kind split: if_splits prod.splits option.splits)

lemma check_icmp_kinds: "kinds (sockets (snd (check_icmp S stack))) = kinds (sockets stack)"
proof -
  have "kinds (snd (snd (fold (check_icmp_socket S) hs x))) = kinds (snd (snd x))" for hs x
  proof (induction hs arbitrary: x)
    case (Cons h hs)
    then show ?case
      using check_icmp_socket_kinds by (cases x, cases "check_icmp_socket S h x") simp
  qed simp
  from this [of "icmp_handles S (sockets stack)" "([], replicate 1024 0, sockets stack)"] show ?thesis
    by (auto simp: check_icmp_def split: prod.split)
qed

end

text \<open>What sockets do leaves interface and device alone.\<close>

lemma stack_frame [frame_simps]:
  "interface (snd (add_socket S spec stack)) = interface stack"
  "stack_device (snd (add_socket S spec stack)) = stack_device stack"
  "servers (snd (add_socket S spec stack)) = servers stack"
  "interface (snd (check_icmp S stack)) = interface stack"
  "stack_device (snd (check_icmp S stack)) = stack_device stack"
  "servers (snd (check_icmp S stack)) = servers stack"
  "servers (NetworkStack_poll S t stack) = servers stack"
  by (simp_all add: add_socket_def check_icmp_def NetworkStack_poll_def Let_def split: prod.splits)

lemma set_ip_config_frame:
  "set_ip_config S ip gw stack = Some stack' \<Longrightarrow>
     stack_device stack' = stack_device stack \<and> sockets stack' = sockets stack \<and> servers stack' = servers stack"
  by (auto simp: set_ip_config_def)

section \<open>An instance\<close>

text \<open>
  Addresses and routes are lists, a socket handle is the position of the socket, the DHCP socket reports
  the events of a list one after another, but no lease with an address that is not unicast, and no packet ever
  arrives.
\<close>

type_synonym sim_sockets = "SocketSpec list \<times> DhcpSocketEvent list"

definition sim_kinds :: "sim_sockets \<Rightarrow> nat \<Rightarrow> SocketKind option" where
  "sim_kinds s h = (if h < length (fst s) then Some (spec_kind (fst s ! h)) else None)"

definition sim_op :: "SocketKind \<Rightarrow> nat \<Rightarrow> ('r \<times> sim_sockets) \<Rightarrow> ('r \<times> sim_sockets) option" where
  "sim_op kind h r = (if sim_kinds (snd r) h = Some kind then Some r else None)"

primrec sim_unicast :: "Ipv4Address \<Rightarrow> bool" where
  "sim_unicast (Ipv4 a b c d) \<longleftrightarrow> 0 < a \<and> a < 224"

fun sim_report :: "DhcpSocketEvent \<Rightarrow> DhcpSocketEvent option" where
  "sim_report (SocketConfigured l) = (if sim_unicast (lease_address l) then Some (SocketConfigured l) else None)"
| "sim_report SocketDeconfigured = Some SocketDeconfigured"

definition sim_smoltcp ::
    "DhcpSocketEvent list \<Rightarrow> (nat, unit, IpCidr list \<times> Ipv4Address list, sim_sockets, unit) smoltcp_ops" where
  "sim_smoltcp events =
     \<lparr>iface_new = (\<lambda>mac. ([], [])), iface_poll = (\<lambda>t x. x), ip_addrs = fst,
      set_ip_addrs = (\<lambda>addrs i. if list_all (\<lambda>c. sim_unicast (cidr_address c)) addrs then Some (addrs, snd i) else None),
      ipv4_is_unicast = sim_unicast, addr_capacity = 2,
      add_default_ipv4_route = (\<lambda>gw i. (fst i, [gw])),
      sockets_new = (\<lambda>n. ([], events)), sockets_add = (\<lambda>spec s. (length (fst s), fst s @ [spec], snd s)),
      tcp_socket_connect = (\<lambda>h remote port i s. sim_op TcpKind h (True, s)),
      tcp_socket_listen = (\<lambda>h port s. sim_op TcpKind h (True, s)),
      tcp_socket_close = (\<lambda>h s. map_option snd (sim_op TcpKind h ((), s))),
      tcp_is_active = (\<lambda>h s. map_option fst (sim_op TcpKind h (False, s))),
      tcp_can_send = (\<lambda>h s. map_option fst (sim_op TcpKind h (False, s))),
      tcp_can_recv = (\<lambda>h s. map_option fst (sim_op TcpKind h (False, s))),
      tcp_send_slice = (\<lambda>h d s. sim_op TcpKind h (None, s)),
      tcp_recv_slice = (\<lambda>h d s. map_option (\<lambda>(r, s). (r, d, s)) (sim_op TcpKind h (None, s))),
      udp_socket_bind = (\<lambda>h port s. sim_op UdpKind h (True, s)),
      udp_can_send = (\<lambda>h s. map_option fst (sim_op UdpKind h (False, s))),
      udp_can_recv = (\<lambda>h s. map_option fst (sim_op UdpKind h (False, s))),
      udp_send_slice = (\<lambda>h d remote s. sim_op UdpKind h (True, s)),
      udp_recv_slice = (\<lambda>h d s. map_option (\<lambda>(r, s). (r, d, s)) (sim_op UdpKind h (None, s))),
      icmp_handles = (\<lambda>s. filter (\<lambda>h. sim_kinds s h = Some IcmpKind) [0..<length (fst s)]),
      icmp_can_recv = (\<lambda>h s. False), icmp_recv_slice = (\<lambda>h buf s. (None, buf, s)),
      icmp_send_slice = (\<lambda>h packet ip s. sim_op IcmpKind h (None, s)),
      icmp_emit_echo = (\<lambda>ident seq_no payload. payload), icmp_parse_echo_reply = (\<lambda>packet. None),
      dhcp_socket_poll = (\<lambda>h s. map_option
        (\<lambda>(_, specs, evs). case evs of [] \<Rightarrow> (None, specs, []) | e # evs \<Rightarrow> (sim_report e, specs, evs)) (sim_op DhcpKind h ((), s))),
      dhcp_socket_reset = (\<lambda>h s. map_option snd (sim_op DhcpKind h ((), s))),
      dns_start_query = (\<lambda>h name i s. (Inr (), s)),
      dns_get_query_result = (\<lambda>h q s. (Inl QueryPending, s))\<rparr>"

lemma sim_kinds_fst: "fst s = fst s' \<Longrightarrow> sim_kinds s = sim_kinds s'"
  by (simp add: sim_kinds_def fun_eq_iff)

lemma sim_lease_unicast:
  assumes "dhcp_socket_poll (sim_smoltcp events) h s = Some (Some (SocketConfigured lease), s')"
  shows "sim_unicast (lease_address lease)"
proof -
  obtain e where "sim_report e = Some (SocketConfigured lease)"
    using assms by (cases s; cases "snd s") (auto simp: sim_smoltcp_def sim_op_def split: if_splits)
  then show ?thesis
    by (cases e) (auto split: if_splits)
qed

interpretation ss: smoltcp_sockets "sim_smoltcp events" sim_kinds
proof
  show "dhcp_socket_poll (sim_smoltcp events) h s = Some (Some (SocketConfigured lease), s') \<Longrightarrow>
      ipv4_is_unicast (sim_smoltcp events) (lease_address lease)" for h s lease s'
    by (drule sim_lease_unicast) (simp add: sim_smoltcp_def)
qed (auto simp: sim_smoltcp_def sim_op_def sim_kinds_def fun_eq_iff nth_append less_Suc_eq list_all_iff split: list.split)

definition sim_route :: "IpCidr list \<times> Ipv4Address list \<Rightarrow> Ipv4Address option" where
  "sim_route i = (case snd i of [] \<Rightarrow> None | gw # _ \<Rightarrow> Some gw)"

interpretation sr: smoltcp_routes "sim_smoltcp events" sim_route
  by unfold_locales (auto simp: sim_smoltcp_def sim_route_def split: if_splits)

end
