(* ===== verification/Sockets.thy ===== *)
theory Sockets
  imports Net_Stack
begin

text \<open>
  The socket layer (\<open>net/socket.rs\<close>): wrappers of a handle of the stack, and the counter that deals out
  local ports, which is explicit state. \<open>None\<close> is the panic of the socket set on a wrong handle.
\<close>

section \<open>Ephemeral ports\<close>

definition EPHEMERAL_PORT_COUNTER :: u16 where
  "EPHEMERAL_PORT_COUNTER = 49152"

definition ephemeral_port :: "u16 \<Rightarrow> u16 \<times> u16" where
  "ephemeral_port counter = (counter, if counter = 65535 then 49152 else counter + 1)"

section \<open>TCP\<close>

record 'h TcpSocket =
  tcp_handle :: 'h
  tcp_local_port :: u16

definition TcpSocket_new ::
    "('h, 'qh, 'i, 's, 'n) smoltcp_ops \<Rightarrow> ('i, 's, 'n) NetworkStack \<Rightarrow> 'h TcpSocket \<times> ('i, 's, 'n) NetworkStack" where
  "TcpSocket_new S stack = (let (h, stack) = tcp_socket S stack in (\<lparr>tcp_handle = h, tcp_local_port = 0\<rparr>, stack))"

definition TcpSocket_connect ::
    "('h, 'qh, 'i, 's, 'n) smoltcp_ops \<Rightarrow> Ipv4Address \<Rightarrow> u16 \<Rightarrow> 'h TcpSocket \<times> u16 \<times> ('i, 's, 'n) NetworkStack
     \<Rightarrow> ((NetError + unit) \<times> 'h TcpSocket \<times> u16 \<times> ('i, 's, 'n) NetworkStack) option" where
  "TcpSocket_connect S ip port = (\<lambda>(sock, counter, stack).
     let (local, counter) = ephemeral_port counter;
         sock = sock\<lparr>tcp_local_port := local\<rparr>
     in map_option (\<lambda>(r, stack). (r, sock, counter, stack))
          (tcp_connect S (tcp_handle sock) (ip, port) (tcp_local_port sock) stack))"

definition TcpSocket_listen ::
    "('h, 'qh, 'i, 's, 'n) smoltcp_ops \<Rightarrow> u16 \<Rightarrow> 'h TcpSocket \<times> ('i, 's, 'n) NetworkStack
     \<Rightarrow> ((NetError + unit) \<times> 'h TcpSocket \<times> ('i, 's, 'n) NetworkStack) option" where
  "TcpSocket_listen S port = (\<lambda>(sock, stack).
     map_option (\<lambda>(r, stack). (r, sock\<lparr>tcp_local_port := port\<rparr>, stack)) (tcp_listen S (tcp_handle sock) port stack))"

definition TcpSocket_is_connected :: "('h, 'qh, 'i, 's, 'n) smoltcp_ops \<Rightarrow> 'h TcpSocket \<Rightarrow> ('i, 's, 'n) NetworkStack \<Rightarrow> bool option" where
  "TcpSocket_is_connected S sock stack = tcp_is_active S (tcp_handle sock) (sockets stack)"

definition TcpSocket_can_send :: "('h, 'qh, 'i, 's, 'n) smoltcp_ops \<Rightarrow> 'h TcpSocket \<Rightarrow> ('i, 's, 'n) NetworkStack \<Rightarrow> bool option" where
  "TcpSocket_can_send S sock stack = tcp_can_send S (tcp_handle sock) (sockets stack)"

definition TcpSocket_can_recv :: "('h, 'qh, 'i, 's, 'n) smoltcp_ops \<Rightarrow> 'h TcpSocket \<Rightarrow> ('i, 's, 'n) NetworkStack \<Rightarrow> bool option" where
  "TcpSocket_can_recv S sock stack = tcp_can_recv S (tcp_handle sock) (sockets stack)"

definition ok_or :: "NetError \<Rightarrow> 'a option \<Rightarrow> NetError + 'a" where
  "ok_or e r = (case r of Some x \<Rightarrow> Inr x | None \<Rightarrow> Inl e)"

definition TcpSocket_send ::
    "('h, 'qh, 'i, 's, 'n) smoltcp_ops \<Rightarrow> u8 list \<Rightarrow> 'h TcpSocket \<Rightarrow> ('i, 's, 'n) NetworkStack
     \<Rightarrow> ((NetError + nat) \<times> ('i, 's, 'n) NetworkStack) option" where
  "TcpSocket_send S data sock stack =
     map_option (map_prod (ok_or BufferFull) id) (with_sockets (tcp_send_slice S (tcp_handle sock) data) stack)"

definition TcpSocket_recv ::
    "('h, 'qh, 'i, 's, 'n) smoltcp_ops \<Rightarrow> u8 list \<Rightarrow> 'h TcpSocket \<Rightarrow> ('i, 's, 'n) NetworkStack
     \<Rightarrow> ((NetError + nat) \<times> u8 list \<times> ('i, 's, 'n) NetworkStack) option" where
  "TcpSocket_recv S buf sock stack =
     map_option (\<lambda>(r, buf, s). (ok_or IoError r, buf, stack\<lparr>sockets := s\<rparr>)) (tcp_recv_slice S (tcp_handle sock) buf (sockets stack))"

definition TcpSocket_close ::
    "('h, 'qh, 'i, 's, 'n) smoltcp_ops \<Rightarrow> 'h TcpSocket \<Rightarrow> ('i, 's, 'n) NetworkStack \<Rightarrow> ('i, 's, 'n) NetworkStack option" where
  "TcpSocket_close S sock stack = tcp_close S (tcp_handle sock) stack"

section \<open>UDP\<close>

record 'h UdpSocket =
  udp_handle :: 'h
  udp_local_port :: u16

definition UdpSocket_new ::
    "('h, 'qh, 'i, 's, 'n) smoltcp_ops \<Rightarrow> ('i, 's, 'n) NetworkStack \<Rightarrow> 'h UdpSocket \<times> ('i, 's, 'n) NetworkStack" where
  "UdpSocket_new S stack = (let (h, stack) = udp_socket S stack in (\<lparr>udp_handle = h, udp_local_port = 0\<rparr>, stack))"

definition UdpSocket_bind ::
    "('h, 'qh, 'i, 's, 'n) smoltcp_ops \<Rightarrow> u16 \<Rightarrow> 'h UdpSocket \<times> ('i, 's, 'n) NetworkStack
     \<Rightarrow> ((NetError + unit) \<times> 'h UdpSocket \<times> ('i, 's, 'n) NetworkStack) option" where
  "UdpSocket_bind S port = (\<lambda>(sock, stack).
     map_option (\<lambda>(r, stack). (r, sock\<lparr>udp_local_port := port\<rparr>, stack)) (udp_bind S (udp_handle sock) port stack))"

definition UdpSocket_send_to ::
    "('h, 'qh, 'i, 's, 'n) smoltcp_ops \<Rightarrow> u8 list \<Rightarrow> IpEndpoint \<Rightarrow> 'h UdpSocket \<Rightarrow> ('i, 's, 'n) NetworkStack
     \<Rightarrow> ((NetError + unit) \<times> ('i, 's, 'n) NetworkStack) option" where
  "UdpSocket_send_to S data remote sock stack =
     map_option (map_prod (map_err BufferFull) id) (with_sockets (udp_send_slice S (udp_handle sock) data remote) stack)"

definition UdpSocket_recv_from ::
    "('h, 'qh, 'i, 's, 'n) smoltcp_ops \<Rightarrow> u8 list \<Rightarrow> 'h UdpSocket \<Rightarrow> ('i, 's, 'n) NetworkStack
     \<Rightarrow> ((NetError + nat \<times> IpEndpoint) \<times> u8 list \<times> ('i, 's, 'n) NetworkStack) option" where
  "UdpSocket_recv_from S buf sock stack =
     map_option (\<lambda>(r, buf, s). (ok_or IoError r, buf, stack\<lparr>sockets := s\<rparr>)) (udp_recv_slice S (udp_handle sock) buf (sockets stack))"

definition UdpSocket_can_send :: "('h, 'qh, 'i, 's, 'n) smoltcp_ops \<Rightarrow> 'h UdpSocket \<Rightarrow> ('i, 's, 'n) NetworkStack \<Rightarrow> bool option" where
  "UdpSocket_can_send S sock stack = udp_can_send S (udp_handle sock) (sockets stack)"

definition UdpSocket_can_recv :: "('h, 'qh, 'i, 's, 'n) smoltcp_ops \<Rightarrow> 'h UdpSocket \<Rightarrow> ('i, 's, 'n) NetworkStack \<Rightarrow> bool option" where
  "UdpSocket_can_recv S sock stack = udp_can_recv S (udp_handle sock) (sockets stack)"

section \<open>The ports that connections get\<close>

text \<open>The ports of a number of calls, from the counter's first value.\<close>

fun ephemeral_ports :: "nat \<Rightarrow> u16 \<Rightarrow> u16 list \<times> u16" where
  "ephemeral_ports 0 counter = ([], counter)"
| "ephemeral_ports (Suc n) counter =
     (let (port, counter) = ephemeral_port counter; (ports, counter) = ephemeral_ports n counter in (port # ports, counter))"

lemma ephemeral_port_nth:
  assumes "unat c = 49152 + k mod 16384"
  shows "unat (snd (ephemeral_port c)) = 49152 + Suc k mod 16384"
proof (cases "k mod 16384 = 16383")
  case True
  with assms have "c = 65535"
    by (simp add: word_unat_eq_iff)
  moreover from True have "Suc k mod 16384 = 0"
    by (simp add: mod_Suc)
  ultimately show ?thesis
    by (simp add: ephemeral_port_def)
next
  case False
  then have "k mod 16384 < 16383"
    using mod_less_divisor [of 16384 k] by linarith
  with assms have "c \<noteq> 65535" "unat (c + 1) = unat c + 1"
    by (auto simp: unat_word_ariths)
  with assms False show ?thesis
    by (simp add: ephemeral_port_def mod_Suc)
qed

lemma ephemeral_ports_nth:
  "unat c = 49152 + k mod 16384 \<Longrightarrow> map unat (fst (ephemeral_ports n c)) = map (\<lambda>j. 49152 + (k + j) mod 16384) [0..<n]"
proof (induction n arbitrary: c k)
  case (Suc n)
  have shift: "map (\<lambda>j. 49152 + Suc (k + j) mod 16384) [0..<n] = map (\<lambda>j. 49152 + (k + j) mod 16384) [Suc 0..<Suc n]"
    by (simp add: map_Suc_upt [symmetric] comp_def del: upt_Suc)
  from Suc.IH [OF ephemeral_port_nth [OF Suc.prems]] Suc.prems show ?case
    by (simp add: Let_def ephemeral_port_def split_beta upt_conv_Cons shift del: upt_Suc)
qed simp

text \<open>C40: The local ports that connections get count upward from 49152, stay in the range 49152 to 65535 and
  start again after 16384 of them, so that no port comes back before all the others have been used.\<close>

theorem ephemeral_ports_cycle:
  "map unat (fst (ephemeral_ports n EPHEMERAL_PORT_COUNTER)) = map (\<lambda>j. 49152 + j mod 16384) [0..<n]
   \<and> set (fst (ephemeral_ports n EPHEMERAL_PORT_COUNTER)) \<subseteq> {49152..65535}
   \<and> distinct (fst (ephemeral_ports (min n 16384) EPHEMERAL_PORT_COUNTER))"
proof (intro conjI)
  have start: "unat EPHEMERAL_PORT_COUNTER = 49152 + 0 mod 16384"
    by (simp add: EPHEMERAL_PORT_COUNTER_def)
  have ports: "map unat (fst (ephemeral_ports m EPHEMERAL_PORT_COUNTER)) = map (\<lambda>j. 49152 + j mod 16384) [0..<m]" for m
    using ephemeral_ports_nth [OF start, of m] by simp
  then show "map unat (fst (ephemeral_ports n EPHEMERAL_PORT_COUNTER)) = map (\<lambda>j. 49152 + j mod 16384) [0..<n]" .
  show "set (fst (ephemeral_ports n EPHEMERAL_PORT_COUNTER)) \<subseteq> {49152..65535}"
  proof
    fix p assume "p \<in> set (fst (ephemeral_ports n EPHEMERAL_PORT_COUNTER))"
    then have "unat p \<in> set (map unat (fst (ephemeral_ports n EPHEMERAL_PORT_COUNTER)))"
      by simp
    then obtain j where "unat p = 49152 + j mod 16384"
      unfolding ports by auto
    moreover have "j mod 16384 < 16384"
      by simp
    ultimately show "p \<in> {49152..65535}"
      by (simp add: word_le_nat_alt)
  qed
  have "distinct (map unat (fst (ephemeral_ports (min n 16384) EPHEMERAL_PORT_COUNTER)))"
    unfolding ports by (auto simp: distinct_map inj_on_def)
  then show "distinct (fst (ephemeral_ports (min n 16384) EPHEMERAL_PORT_COUNTER))"
    by (simp add: distinct_map)
qed

end
