(* ===== verification/Serial_Port.thy ===== *)
theory Serial_Port
  imports Console
begin

text \<open>
  The serial port (\<open>arch/x86_64/serial.rs\<close>): the global port that is made on first use, printing to it, the wrapper
  through which the hardware abstraction layer sees it, and the runner of the test binaries that report over it
  (\<open>testutil/mod.rs\<close>). The UART of the \<open>uart_16550\<close> crate is a parameter: \<open>send\<close> transmits a byte and \<open>receive\<close> waits
  for one and takes it.
\<close>

section \<open>The port\<close>

record 'p uart_ops =
  uart_new :: "u16 \<Rightarrow> 'p"
  uart_init :: "'p \<Rightarrow> 'p"
  uart_send :: "u8 \<Rightarrow> 'p \<Rightarrow> 'p"
  uart_receive :: "'p \<Rightarrow> u8 \<times> 'p"

definition COM1_PORT :: u16 where "COM1_PORT = 0x3F8"

text \<open>\<open>SERIAL\<close> is a \<open>Once\<close> cell; \<open>init\<close> fills it at most once, \<open>get_serial\<close> fills it if necessary.\<close>

definition serial_init :: "'p uart_ops \<Rightarrow> 'p option \<Rightarrow> 'p option" where
  "serial_init U serial =
     (case serial of None \<Rightarrow> Some (uart_init U (uart_new U COM1_PORT)) | Some p \<Rightarrow> Some p)"

definition get_serial :: "'p uart_ops \<Rightarrow> 'p option \<Rightarrow> 'p option" where
  "get_serial U serial = serial_init U serial"

text \<open>Printing sends the bytes of the text; \<open>None\<close> would be the panic of \<open>expect\<close>.\<close>

definition serial_print :: "'p uart_ops \<Rightarrow> str \<Rightarrow> 'p option \<Rightarrow> 'p option" where
  "serial_print U s serial = map_option (fold (uart_send U) (map byte_of_char s)) (get_serial U serial)"

definition serial_println :: "'p uart_ops \<Rightarrow> str \<Rightarrow> 'p option \<Rightarrow> 'p option" where
  "serial_println U s serial = serial_print U (s @ [CHR 0x0A]) serial"

section \<open>The wrapper\<close>

definition SerialWrapper_write_byte :: "'p uart_ops \<Rightarrow> u8 \<Rightarrow> 'p \<Rightarrow> 'p" where
  "SerialWrapper_write_byte U byte p = uart_send U byte p"

definition SerialWrapper_read_byte :: "'p uart_ops \<Rightarrow> 'p \<Rightarrow> u8 option \<times> 'p" where
  "SerialWrapper_read_byte U p =
     (let (b, p) = uart_receive U p in
      if b \<noteq> 0 then let (b, p) = uart_receive U p in (Some b, p) else (None, p))"

text \<open>A line on which bytes arrive one after another.\<close>

locale uart =
  fixes U :: "'p uart_ops"
    and incoming outgoing :: "'p \<Rightarrow> u8 list"
  assumes fresh: "outgoing (uart_init U (uart_new U p16)) = []"
    and send: "b \<noteq> 8 \<Longrightarrow> b \<noteq> 0x7F \<Longrightarrow> outgoing (uart_send U b p) = outgoing p @ [b]"
    and receive: "incoming p = b # bs \<Longrightarrow> \<exists>p'. uart_receive U p = (b, p') \<and> incoming p' = bs"
begin

lemma sends: "8 \<notin> set bs \<Longrightarrow> 0x7F \<notin> set bs \<Longrightarrow> outgoing (fold (uart_send U) bs p) = outgoing p @ bs"
  by (induction bs arbitrary: p) (auto simp: send)

text \<open>Whatever is printed reaches the line, the port being made by the first print. (The crate sends a backspace or
  delete as three bytes.)\<close>

lemma serial_println_outgoing:
  assumes "8 \<notin> byte_of_char ` set s" "0x7F \<notin> byte_of_char ` set s"
  shows "map_option outgoing (serial_println U s serial)
     = Some ((case serial of None \<Rightarrow> [] | Some p \<Rightarrow> outgoing p) @ map byte_of_char s @ [10])"
  using assms
  by (cases serial) (simp_all add: serial_println_def serial_print_def get_serial_def serial_init_def sends send fresh byte_of_char_def)

lemma read_byte_incoming:
  assumes "incoming p = b # c # bs" "b \<noteq> 0"
  shows "\<exists>p'. SerialWrapper_read_byte U p = (Some c, p') \<and> incoming p' = bs"
proof -
  obtain p1 where p1: "uart_receive U p = (b, p1)" "incoming p1 = c # bs"
    using receive [OF assms(1)] by blast
  with receive [OF p1(2)] assms(2) show ?thesis
    by (auto simp: SerialWrapper_read_byte_def)
qed

end

definition list_uart :: "(u8 list \<times> u8 list) uart_ops" where
  "list_uart = \<lparr>uart_new = (\<lambda>_. ([], [])), uart_init = (\<lambda>p. p), uart_send = (\<lambda>b p. (fst p, snd p @ [b])),
     uart_receive = (\<lambda>p. case fst p of [] \<Rightarrow> (0, p) | b # bs \<Rightarrow> (b, bs, snd p))\<rparr>"

interpretation lu: uart list_uart fst snd
  by unfold_locales (auto simp: list_uart_def)

section \<open>The test runner\<close>

datatype QemuExitCode = Success | Failed

primrec exit_code_value :: "QemuExitCode \<Rightarrow> u32" where
  "exit_code_value Success = 0x10"
| "exit_code_value Failed = 0x11"

text \<open>What a test binary does: it prints to the serial port and writes to I/O ports. A test is its name and its
  outcome, \<open>Some\<close> the message of the panic in which it ends.\<close>

datatype test_event = TestLine str | PortWrite u16 u32

definition exit_qemu :: "QemuExitCode \<Rightarrow> test_event list" where
  "exit_qemu exit_code = [PortWrite 0xF4 (exit_code_value exit_code)]"

definition test_panic_handler :: "str \<Rightarrow> test_event list" where
  "test_panic_handler info = [TestLine ''[failed]'', TestLine (''Error: '' @ info)] @ exit_qemu Failed"

fun run_tests :: "(str \<times> str option) list \<Rightarrow> test_event list" where
  "run_tests [] = exit_qemu Success"
| "run_tests ((name, outcome) # tests) =
     [TestLine (''test '' @ name @ '' ... '')]
     @ (case outcome of
          None \<Rightarrow> [TestLine ''[ok]''] @ run_tests tests
        | Some info \<Rightarrow> test_panic_handler info)"

definition test_runner :: "(str \<times> str option) list \<Rightarrow> test_event list" where
  "test_runner tests = [TestLine (''Running '' @ show_nat (length tests) @ '' tests'')] @ run_tests tests"

text \<open>The \<open>isa-debug-exit\<close> device of QEMU at port 0xF4 ends the machine with twice the value plus one.\<close>

fun qemu_status :: "test_event list \<Rightarrow> nat option" where
  "qemu_status [] = None"
| "qemu_status (TestLine s # es) = qemu_status es"
| "qemu_status (PortWrite p v # es) = (if p = 0xF4 then Some (2 * unat v + 1) else qemu_status es)"

lemma test_runner_status:
  "qemu_status (test_runner tests) = Some (if \<forall>t \<in> set tests. snd t = None then 33 else 35)"
proof -
  have "qemu_status (run_tests tests) = Some (if \<forall>t \<in> set tests. snd t = None then 33 else 35)"
    by (induction tests rule: run_tests.induct) (auto simp: exit_qemu_def test_panic_handler_def split: option.split)
  then show ?thesis
    by (simp add: test_runner_def)
qed

text \<open>The test binary \<open>tests/basic_boot.rs\<close>.\<close>

definition trivial_assertion :: "str option" where
  "trivial_assertion = (if (1 :: i32) = 1 then None else Some ''assertion failed'')"

definition basic_boot :: "test_event list" where
  "basic_boot = test_runner [(''basic_boot::trivial_assertion'', trivial_assertion)] @ exit_qemu Success"

lemma basic_boot_succeeds: "qemu_status basic_boot = Some 33"
  by (simp add: basic_boot_def trivial_assertion_def test_runner_def exit_qemu_def)

section \<open>Properties\<close>

text \<open>Reading a byte from the serial port loses one: the byte that is there is taken and dropped, and the next
  one is returned.\<close>

theorem read_byte_drops:
  assumes "uart U incoming outgoing" "incoming p = b # c # bs" "b \<noteq> 0"
  shows "\<exists>p'. SerialWrapper_read_byte U p = (Some c, p') \<and> incoming p' = bs"
  using uart.read_byte_incoming [OF assms] .

theorem read_byte_drops_witness:
  "\<exists>p'. SerialWrapper_read_byte list_uart ([104, 105, 33], []) = (Some 105, p') \<and> fst p' = [33]"
  using read_byte_drops [OF lu.uart_axioms, of "([104, 105, 33], [])" 104 105 "[33]"] by simp

end
