(* ===== verification/Dhcp.thy ===== *)
theory Dhcp
  imports Net_Stack
begin

text \<open>
  The DHCP client (\<open>net/dhcp.rs\<close>): a state machine over a DHCP socket of the stack that configures the
  interface from the leases it gets and falls back to a link-local address after ten seconds. \<open>None\<close> is a
  panic of \<open>smoltcp\<close>, on a wrong handle or an address that is not unicast. The difference of two instants of
  \<open>smoltcp\<close> is unsigned. The properties are about a client that has been started; the kernel starts one and
  then discards it (theory \<open>Kernel_Main\<close>).
\<close>

section \<open>The client\<close>

datatype DhcpState = DhcpIdle | DhcpDiscovering | DhcpRequesting | DhcpConfigured | DhcpLinkLocal

record DhcpConfig =
  ip :: Ipv4Address
  prefix_len :: u8
  gateway :: "Ipv4Address option"
  config_dns :: "Ipv4Address list"
  lease_duration :: "nat option"

definition cidr :: "DhcpConfig \<Rightarrow> IpCidr" where
  "cidr c = Ipv4Cidr (ip c) (prefix_len c)"

datatype DhcpEvent = EventConfigured DhcpConfig | EventDeconfigured | EventLinkLocalFallback Ipv4Address

record 'h DhcpClient =
  dhcp_socket :: "'h option"
  dhcp_state :: DhcpState
  dhcp_config :: "DhcpConfig option"
  start_time :: "Instant option"
  link_local_timeout :: nat

definition DhcpClient_new :: "'h DhcpClient" where
  "DhcpClient_new = \<lparr>dhcp_socket = None, dhcp_state = DhcpIdle, dhcp_config = None, start_time = None,
     link_local_timeout = 10 * 1000\<rparr>"

definition DhcpClient_start ::
    "('h, 'qh, 'i, 's, 'n) smoltcp_ops \<Rightarrow> Instant \<Rightarrow> 'h DhcpClient \<Rightarrow> ('i, 's, 'n) NetworkStack
     \<Rightarrow> 'h DhcpClient \<times> ('i, 's, 'n) NetworkStack" where
  "DhcpClient_start S timestamp c stack =
     (let (handle, stack) = add_socket S DhcpSpec stack
      in (c\<lparr>dhcp_socket := Some handle, dhcp_state := DhcpDiscovering, start_time := Some timestamp\<rparr>, stack))"

definition elapsed :: "Instant \<Rightarrow> Instant \<Rightarrow> nat" where
  "elapsed t s = nat \<bar>t - s\<bar>"

definition link_local_ip :: "u8 list \<Rightarrow> Ipv4Address" where
  "link_local_ip mac = Ipv4 169 254 (mac ! 4) (mac ! 5)"

definition fallback_to_link_local ::
    "('h, 'qh, 'i, 's, 'n) smoltcp_ops \<Rightarrow> 'h DhcpClient \<Rightarrow> ('i, 's, 'n) NetworkStack
     \<Rightarrow> (DhcpEvent \<times> console_op list \<times> 'h DhcpClient \<times> ('i, 's, 'n) NetworkStack) option" where
  "fallback_to_link_local S c stack =
     (let addr4 = link_local_ip (device_mac (stack_device stack))
      in map_option (\<lambda>stack. (EventLinkLocalFallback addr4, [SerialPrintln ''[DHCP] Timeout - falling back to link-local''],
             c\<lparr>dhcp_state := DhcpLinkLocal\<rparr>, stack))
           (set_ip_config S (Ipv4Cidr addr4 16) None stack))"

definition timed_out :: "Instant \<Rightarrow> 'h DhcpClient \<Rightarrow> bool" where
  "timed_out timestamp c \<longleftrightarrow>
     (dhcp_state c = DhcpDiscovering \<or> dhcp_state c = DhcpRequesting)
     \<and> (case start_time c of Some start \<Rightarrow> elapsed timestamp start > link_local_timeout c | None \<Rightarrow> False)"

definition lease_config :: "DhcpLease \<Rightarrow> DhcpConfig" where
  "lease_config l = \<lparr>ip = lease_address l, prefix_len = lease_prefix l, gateway = lease_router l,
     config_dns = lease_dns l, lease_duration = None\<rparr>"

definition apply_event ::
    "('h, 'qh, 'i, 's, 'n) smoltcp_ops \<Rightarrow> Instant \<Rightarrow> DhcpSocketEvent \<Rightarrow> 'h DhcpClient \<Rightarrow> ('i, 's, 'n) NetworkStack
     \<Rightarrow> (DhcpEvent \<times> 'h DhcpClient \<times> ('i, 's, 'n) NetworkStack) option" where
  "apply_event S timestamp e c stack =
     (case e of
        SocketConfigured lease \<Rightarrow>
          let cfg = lease_config lease
          in map_option (\<lambda>stack. (EventConfigured cfg, c\<lparr>dhcp_state := DhcpConfigured, dhcp_config := Some cfg\<rparr>,
                 set_dns_servers (config_dns cfg) stack))
               (set_ip_config S (cidr cfg) (gateway cfg) stack)
      | SocketDeconfigured \<Rightarrow>
          Some (EventDeconfigured,
            c\<lparr>dhcp_state := DhcpDiscovering, dhcp_config := None, start_time := Some timestamp\<rparr>, stack))"

definition DhcpClient_poll ::
    "('h, 'qh, 'i, 's, 'n) smoltcp_ops \<Rightarrow> Instant \<Rightarrow> 'h DhcpClient \<Rightarrow> ('i, 's, 'n) NetworkStack
     \<Rightarrow> (DhcpEvent option \<times> console_op list \<times> 'h DhcpClient \<times> ('i, 's, 'n) NetworkStack) option" where
  "DhcpClient_poll S timestamp c stack =
     (case dhcp_socket c of
        None \<Rightarrow> Some (None, [], c, stack)
      | Some handle \<Rightarrow>
          if timed_out timestamp c then
            map_option (\<lambda>(e, out, c, stack). (Some e, out, c, stack)) (fallback_to_link_local S c stack)
          else
            (case with_sockets (dhcp_socket_poll S handle) stack of
               None \<Rightarrow> None
             | Some (None, stack) \<Rightarrow> Some (None, [], c, stack)
             | Some (Some e, stack) \<Rightarrow>
                 map_option (\<lambda>(e, c, stack). (Some e, [], c, stack)) (apply_event S timestamp e c stack)))"

definition DhcpClient_renew ::
    "('h, 'qh, 'i, 's, 'n) smoltcp_ops \<Rightarrow> 'h DhcpClient \<Rightarrow> ('i, 's, 'n) NetworkStack
     \<Rightarrow> ('h DhcpClient \<times> ('i, 's, 'n) NetworkStack) option" where
  "DhcpClient_renew S c stack =
     (case dhcp_socket c of
        None \<Rightarrow> Some (c, stack)
      | Some handle \<Rightarrow>
          map_option (\<lambda>s. (c\<lparr>dhcp_state := DhcpDiscovering\<rparr>, stack\<lparr>sockets := s\<rparr>))
            (dhcp_socket_reset S handle (sockets stack)))"

section \<open>Runs of the client\<close>

text \<open>What happens to client and stack: the two tasks poll, the shell renews and makes sockets.\<close>

datatype dhcp_op = StackPoll Instant | ClientPoll Instant | ClientRenew | MakeSocket SocketSpec

primrec dhcp_step ::
    "('h, 'qh, 'i, 's, 'n) smoltcp_ops \<Rightarrow> dhcp_op \<Rightarrow> 'h DhcpClient \<times> ('i, 's, 'n) NetworkStack
     \<Rightarrow> ('h DhcpClient \<times> ('i, 's, 'n) NetworkStack) option" where
  "dhcp_step S (StackPoll t) x = Some (fst x, snd (check_icmp S (NetworkStack_poll S t (snd x))))"
| "dhcp_step S (ClientPoll t) x = map_option (\<lambda>(_, _, c, stack). (c, stack)) (DhcpClient_poll S t (fst x) (snd x))"
| "dhcp_step S ClientRenew x = DhcpClient_renew S (fst x) (snd x)"
| "dhcp_step S (MakeSocket spec) x = Some (fst x, snd (add_socket S spec (snd x)))"

definition dhcp_run where
  "dhcp_run S ops x = fold_option (dhcp_step S) ops x"

text \<open>A client that has been started on a new stack.\<close>

definition dhcp_started ::
    "('h, 'qh, 'i, 's, 'n) smoltcp_ops \<Rightarrow> Instant \<Rightarrow> NetworkDevice \<Rightarrow> 'n
     \<Rightarrow> ('h DhcpClient \<times> ('i, 's, 'n) NetworkStack) option" where
  "dhcp_started S t dev n = map_option (DhcpClient_start S t DhcpClient_new) (NetworkStack_new S dev NetConfig_dhcp n)"

section \<open>What the socket reported\<close>

text \<open>The events the DHCP socket reported in a run, with the time of the poll, and the renewals in between.\<close>

datatype dhcp_note = Reported Instant DhcpSocketEvent | Renewed

definition step_notes ::
    "('h, 'qh, 'i, 's, 'n) smoltcp_ops \<Rightarrow> dhcp_op \<Rightarrow> 'h DhcpClient \<times> ('i, 's, 'n) NetworkStack \<Rightarrow> dhcp_note list" where
  "step_notes S op x =
     (case op of
        ClientPoll t \<Rightarrow>
          (case dhcp_socket (fst x) of
             None \<Rightarrow> []
           | Some h \<Rightarrow>
               if timed_out t (fst x) then []
               else (case dhcp_socket_poll S h (sockets (snd x)) of Some (Some e, _) \<Rightarrow> [Reported t e] | _ \<Rightarrow> []))
      | ClientRenew \<Rightarrow> [Renewed]
      | _ \<Rightarrow> [])"

primrec run_notes ::
    "('h, 'qh, 'i, 's, 'n) smoltcp_ops \<Rightarrow> dhcp_op list \<Rightarrow> 'h DhcpClient \<times> ('i, 's, 'n) NetworkStack \<Rightarrow> dhcp_note list" where
  "run_notes S [] x = []"
| "run_notes S (op # ops) x =
     step_notes S op x @ (case dhcp_step S op x of None \<Rightarrow> [] | Some y \<Rightarrow> run_notes S ops y)"

text \<open>The lease in force, the router of the last lease that names one, and since when there has been no lease:
  since the start, or since the socket last reported the loss of one.\<close>

fun note_lease :: "dhcp_note \<Rightarrow> DhcpLease option" where
  "note_lease (Reported t (SocketConfigured l)) = Some l"
| "note_lease _ = None"

definition current_lease :: "dhcp_note list \<Rightarrow> DhcpLease option" where
  "current_lease ns = (if ns = [] then None else note_lease (last ns))"

fun note_router :: "dhcp_note \<Rightarrow> Ipv4Address option \<Rightarrow> Ipv4Address option" where
  "note_router (Reported t (SocketConfigured l)) r = (case lease_router l of Some gw \<Rightarrow> Some gw | None \<Rightarrow> r)"
| "note_router _ r = r"

definition last_router :: "dhcp_note list \<Rightarrow> Ipv4Address option" where
  "last_router ns = fold note_router ns None"

fun note_loss :: "dhcp_note \<Rightarrow> Instant \<Rightarrow> Instant" where
  "note_loss (Reported t SocketDeconfigured) s = t"
| "note_loss _ s = s"

definition search_start :: "Instant \<Rightarrow> dhcp_note list \<Rightarrow> Instant" where
  "search_start t ns = fold note_loss ns t"

lemma current_lease_snoc [simp]: "current_lease [] = None" "current_lease (ns @ [e]) = note_lease e"
  by (simp_all add: current_lease_def)

lemma last_router_snoc [simp]: "last_router [] = None" "last_router (ns @ [e]) = note_router e (last_router ns)"
  by (simp_all add: last_router_def)

lemma search_start_snoc [simp]:
  "search_start t [] = t" "search_start t (ns @ [e]) = note_loss e (search_start t ns)"
  by (simp_all add: search_start_def)

text \<open>Client and interface agree with what the socket reported.\<close>

definition dhcp_agrees ::
    "('h, 'qh, 'i, 's, 'n) smoltcp_ops \<Rightarrow> u8 list \<Rightarrow> Instant \<Rightarrow> dhcp_note list
     \<Rightarrow> 'h DhcpClient \<times> ('i, 's, 'n) NetworkStack \<Rightarrow> bool" where
  "dhcp_agrees S mac t ns x \<longleftrightarrow> (case x of (c, stack) \<Rightarrow>
     dhcp_socket c \<noteq> None \<and> link_local_timeout c = 10000 \<and> start_time c = Some (search_start t ns)
     \<and> device_mac (stack_device stack) = mac
     \<and> (case current_lease ns of
          Some l \<Rightarrow> dhcp_state c = DhcpConfigured \<and> dhcp_config c = Some (lease_config l)
            \<and> ip_addrs S (interface stack) = [cidr (lease_config l)] \<and> servers stack = lease_dns l
        | None \<Rightarrow> dhcp_state c \<in> {DhcpDiscovering, DhcpLinkLocal}
            \<and> (dhcp_state c = DhcpLinkLocal \<longrightarrow> ip_addrs S (interface stack) = [Ipv4Cidr (link_local_ip mac) 16])))"

lemma with_sockets_frame:
  "with_sockets f stack = Some (r, stack') \<Longrightarrow>
     interface stack' = interface stack \<and> stack_device stack' = stack_device stack \<and> servers stack' = servers stack"
  by (auto simp: with_sockets_def)

lemma DhcpClient_poll_cases:
  assumes "DhcpClient_poll S t c stack = Some (e, out, c', stack')"
  obtains (no_socket) "dhcp_socket c = None" "e = None" "c' = c" "stack' = stack" "out = []"
  | (timeout) h where "dhcp_socket c = Some h" "timed_out t c"
      "fallback_to_link_local S c stack = Some (the e, out, c', stack')" "e \<noteq> None"
      "step_notes S (ClientPoll t) (c, stack) = []"
  | (quiet) h where "dhcp_socket c = Some h" "\<not> timed_out t c" "e = None" "c' = c" "out = []"
      "with_sockets (dhcp_socket_poll S h) stack = Some (None, stack')" "step_notes S (ClientPoll t) (c, stack) = []"
  | (event) h ev stack1 where "dhcp_socket c = Some h" "\<not> timed_out t c" "out = []"
      "with_sockets (dhcp_socket_poll S h) stack = Some (Some ev, stack1)"
      "apply_event S t ev c stack1 = Some (the e, c', stack')" "e \<noteq> None"
      "step_notes S (ClientPoll t) (c, stack) = [Reported t ev]"
  using assms
  by (auto simp: DhcpClient_poll_def step_notes_def with_sockets_def split: option.splits if_splits prod.splits)

text \<open>A run carries a relation between notes and state along.\<close>

lemma run_notes_invariant:
  assumes step: "\<And>ns x op y. P ns x \<Longrightarrow> dhcp_step S op x = Some y \<Longrightarrow> P (ns @ step_notes S op x) y"
  shows "P ns x \<Longrightarrow> dhcp_run S ops x = Some y \<Longrightarrow> P (ns @ run_notes S ops x) y"
proof (induction ops arbitrary: ns x)
  case (Cons op ops)
  then obtain z where z: "dhcp_step S op x = Some z" "dhcp_run S ops z = Some y"
    by (auto simp: dhcp_run_def bind_eq_Some_conv)
  from Cons.IH [OF step [OF Cons.prems(1) z(1)] z(2)] z(1) show ?case
    by simp
qed (simp add: dhcp_run_def)

lemma no_notes [simp]:
  "step_notes S (StackPoll t) x = []" "step_notes S ClientRenew x = [Renewed]" "step_notes S (MakeSocket spec) x = []"
  by (simp_all add: step_notes_def)

context smoltcp
begin

lemma started_agrees:
  assumes "dhcp_started S t dev n = Some x"
  shows "dhcp_agrees S (device_mac dev) t [] x"
  using assms
  by (auto simp: dhcp_agrees_def dhcp_started_def DhcpClient_start_def DhcpClient_new_def add_socket_def
      NetworkStack_new_def NetConfig_dhcp_def Let_def split: prod.splits)

lemma client_poll_agrees:
  assumes "dhcp_agrees S mac t ns (c, stack)" "DhcpClient_poll S t' c stack = Some (e, out, c', stack')"
  shows "dhcp_agrees S mac t (ns @ step_notes S (ClientPoll t') (c, stack)) (c', stack')"
  using assms(2)
proof (cases rule: DhcpClient_poll_cases)
  case no_socket
  with assms(1) show ?thesis
    by (simp add: dhcp_agrees_def)
next
  case (timeout h)
  have "dhcp_state c \<noteq> DhcpConfigured"
    using timeout(2) by (auto simp: timed_out_def)
  then have "current_lease ns = None"
    using assms(1) by (auto simp: dhcp_agrees_def split: option.splits)
  moreover obtain i where "set_ip_config S (Ipv4Cidr (link_local_ip mac) 16) None stack = Some (stack\<lparr>interface := i\<rparr>)"
      "ip_addrs S i = [Ipv4Cidr (link_local_ip mac) 16]"
    using set_ip_config_succeeds [of "Ipv4Cidr (link_local_ip mac) 16" None stack] link_local_unicast
    by (auto simp: link_local_ip_def)
  ultimately show ?thesis
    using timeout assms(1) by (auto simp: fallback_to_link_local_def dhcp_agrees_def Let_def)
next
  case quiet
  with assms(1) with_sockets_frame [OF quiet(6)] show ?thesis
    by (auto simp: dhcp_agrees_def split: option.splits)
next
  case (event h ev stack1)
  note frame = with_sockets_frame [OF event(4)]
  show ?thesis
  proof (cases ev)
    case (SocketConfigured l)
    then have "ipv4_is_unicast S (cidr_address (cidr (lease_config l)))"
      using event(4) by (auto simp: with_sockets_def cidr_def lease_config_def dest: lease_unicast)
    from set_ip_config_succeeds [OF this] obtain i where
        "set_ip_config S (cidr (lease_config l)) (gateway (lease_config l)) stack1 = Some (stack1\<lparr>interface := i\<rparr>)"
        "ip_addrs S i = [cidr (lease_config l)]"
      by blast
    with event assms(1) SocketConfigured frame show ?thesis
      by (auto simp: dhcp_agrees_def apply_event_def Let_def set_dns_servers_def lease_config_def)
  next
    case SocketDeconfigured
    with event assms(1) frame show ?thesis
      by (auto simp: dhcp_agrees_def apply_event_def)
  qed
qed

lemma step_agrees:
  assumes "dhcp_agrees S mac t ns x" "dhcp_step S op x = Some y"
  shows "dhcp_agrees S mac t (ns @ step_notes S op x) y"
proof (cases op)
  case (StackPoll t')
  with assms show ?thesis
    by (auto simp: dhcp_agrees_def frame_simps poll_keeps_addrs split: prod.splits option.splits)
next
  case (ClientPoll t')
  with assms client_poll_agrees [of mac t ns "fst x" "snd x" t'] show ?thesis
    by auto
next
  case ClientRenew
  with assms show ?thesis
    by (auto simp: dhcp_agrees_def DhcpClient_renew_def split: prod.splits option.splits)
next
  case (MakeSocket spec)
  with assms show ?thesis
    by (auto simp: dhcp_agrees_def frame_simps split: prod.splits option.splits)
qed

lemma run_agrees:
  assumes "dhcp_started S t dev n = Some x" "dhcp_run S ops x = Some y"
  shows "dhcp_agrees S (device_mac dev) t (run_notes S ops x) y"
  using run_notes_invariant [where P = "dhcp_agrees S (device_mac dev) t", OF step_agrees started_agrees [OF assms(1)] assms(2)]
  by simp

end

context smoltcp_routes
begin

lemma step_route:
  assumes "default_route (interface (snd x)) = last_router ns" "dhcp_step S op x = Some y"
  shows "default_route (interface (snd y)) = last_router (ns @ step_notes S op x)"
proof (cases op)
  case (ClientPoll t)
  with assms(2) obtain e out where "DhcpClient_poll S t (fst x) (snd x) = Some (e, out, fst y, snd y)"
    by auto
  then show ?thesis
  proof (cases rule: DhcpClient_poll_cases)
    case (event h ev stack1)
    with with_sockets_frame [OF event(4)] assms(1) ClientPoll show ?thesis
      by (cases ev)
        (auto simp: apply_event_def Let_def set_dns_servers_def lease_config_def dest: set_ip_config_route split: option.splits)
  next
    case (timeout h)
    with assms(1) ClientPoll show ?thesis
      by (auto simp: fallback_to_link_local_def Let_def dest: set_ip_config_route)
  qed (use assms(1) ClientPoll in \<open>auto simp: step_notes_def dest: with_sockets_frame\<close>)
qed (use assms in \<open>auto simp: DhcpClient_renew_def frame_simps poll_keeps_route split: option.splits\<close>)

lemma run_route:
  assumes "dhcp_started S t dev n = Some x" "dhcp_run S ops x = Some y"
  shows "default_route (interface (snd y)) = last_router (run_notes S ops x)"
proof -
  have "default_route (interface (snd x)) = last_router []"
    using assms(1)
    by (auto simp: dhcp_started_def NetworkStack_new_def NetConfig_dhcp_def DhcpClient_start_def add_socket_def new_route
        split: prod.splits)
  from run_notes_invariant [where P = "\<lambda>ns x. default_route (interface (snd x)) = last_router ns", OF step_route this assms(2)]
  show ?thesis
    by simp
qed

end

text \<open>The client's handle is that of a DHCP socket.\<close>

definition dhcp_typed :: "('s \<Rightarrow> 'h \<Rightarrow> SocketKind option) \<Rightarrow> 'h DhcpClient \<times> ('i, 's, 'n) NetworkStack \<Rightarrow> bool" where
  "dhcp_typed kinds x \<longleftrightarrow> (\<forall>h. dhcp_socket (fst x) = Some h \<longrightarrow> kinds (sockets (snd x)) h = Some DhcpKind)"

context smoltcp_sockets
begin

lemma started_typed: "dhcp_started S t dev n = Some x \<Longrightarrow> dhcp_typed kinds x"
  by (auto simp: dhcp_typed_def dhcp_started_def DhcpClient_start_def add_socket_def dest!: add_kind split: prod.splits)

lemma add_socket_typed: "dhcp_typed kinds (c, stack) \<Longrightarrow> dhcp_typed kinds (c, snd (add_socket S spec stack))"
  by (auto simp: dhcp_typed_def add_socket_def dest!: add_kind split: prod.splits)

lemma client_poll_typed:
  assumes "dhcp_typed kinds (c, stack)"
  shows "\<exists>e out c' stack'. DhcpClient_poll S t c stack = Some (e, out, c', stack') \<and> dhcp_typed kinds (c', stack')
    \<and> kinds (sockets stack') = kinds (sockets stack)"
proof (cases "dhcp_socket c")
  case None
  with assms show ?thesis
    by (simp add: DhcpClient_poll_def)
next
  case (Some h)
  with assms have "kinds (sockets stack) h = Some DhcpKind"
    by (simp add: dhcp_typed_def)
  from dhcp_poll_kind [OF this] obtain e s' where
    poll: "dhcp_socket_poll S h (sockets stack) = Some (e, s')" "kinds s' = kinds (sockets stack)"
    by blast
  have config: "\<exists>i. set_ip_config S ip gw stack' = Some (stack'\<lparr>interface := i\<rparr>)"
    if "ipv4_is_unicast S (cidr_address ip)" for ip gw stack'
    using set_ip_config_succeeds [OF that] by blast
  show ?thesis
  proof (cases "timed_out t c")
    case True
    have "ipv4_is_unicast S (cidr_address (Ipv4Cidr (link_local_ip (device_mac (stack_device stack))) 16))"
      by (simp add: link_local_ip_def link_local_unicast)
    from config [OF this, of None stack] True Some assms show ?thesis
      by (auto simp: DhcpClient_poll_def fallback_to_link_local_def Let_def dhcp_typed_def)
  next
    case False
    show ?thesis
    proof (cases "\<exists>l. e = Some (SocketConfigured l)")
      case True
      then obtain l where l: "e = Some (SocketConfigured l)"
        by blast
      then have "ipv4_is_unicast S (cidr_address (cidr (lease_config l)))"
        using poll(1) by (auto simp: cidr_def lease_config_def dest: lease_unicast)
      from config [OF this, of "gateway (lease_config l)" "stack\<lparr>sockets := s'\<rparr>"] l False poll Some assms show ?thesis
        by (auto simp: DhcpClient_poll_def with_sockets_def apply_event_def Let_def dhcp_typed_def set_dns_servers_def)
    next
      case no_lease: False
      with False poll Some assms show ?thesis
        by (auto simp: DhcpClient_poll_def with_sockets_def apply_event_def dhcp_typed_def
            split: option.splits DhcpSocketEvent.split)
    qed
  qed
qed

lemma renew_typed:
  assumes "dhcp_typed kinds (c, stack)"
  shows "\<exists>c' stack'. DhcpClient_renew S c stack = Some (c', stack') \<and> dhcp_typed kinds (c', stack')
    \<and> kinds (sockets stack') = kinds (sockets stack)"
proof (cases "dhcp_socket c")
  case None
  with assms show ?thesis
    by (simp add: DhcpClient_renew_def)
next
  case (Some h)
  with assms have "kinds (sockets stack) h = Some DhcpKind"
    by (simp add: dhcp_typed_def)
  from dhcp_reset_kind [OF this] Some assms show ?thesis
    by (auto simp: DhcpClient_renew_def dhcp_typed_def)
qed

lemma step_typed:
  assumes "dhcp_typed kinds x"
  shows "\<exists>y. dhcp_step S op x = Some y \<and> dhcp_typed kinds y"
proof (cases op)
  case (StackPoll t)
  with assms show ?thesis
    by (simp add: dhcp_typed_def check_icmp_kinds poll_keeps_kinds)
next
  case (ClientPoll t)
  with client_poll_typed [of "fst x" "snd x" t] assms show ?thesis
    by auto
next
  case ClientRenew
  with renew_typed [of "fst x" "snd x"] assms show ?thesis
    by auto
next
  case (MakeSocket spec)
  with add_socket_typed [of "fst x" "snd x" spec] assms show ?thesis
    by simp
qed

lemma run_typed: "dhcp_typed kinds x \<Longrightarrow> \<exists>y. dhcp_run S ops x = Some y \<and> dhcp_typed kinds y"
  unfolding dhcp_run_def by (rule fold_option_total [where P = "dhcp_typed kinds", OF _ step_typed])

end

lemma dhcp_run_append: "dhcp_run S (ops @ ops') x = Option.bind (dhcp_run S ops x) (dhcp_run S ops')"
  by (simp add: dhcp_run_def [abs_def] fold_option_append)

section \<open>Properties\<close>

definition demo_lease :: DhcpLease where
  "demo_lease = \<lparr>lease_address = Ipv4 10 0 2 15, lease_prefix = 24, lease_router = Some (Ipv4 10 0 2 2),
     lease_dns = [Ipv4 10 0 2 3]\<rparr>"

definition demo_device :: NetworkDevice where
  "demo_device = Loopback QemuE1000_new"

lemmas demo_run_defs = dhcp_run_def dhcp_started_def DhcpClient_start_def DhcpClient_new_def NetworkStack_new_def
  NetConfig_dhcp_def add_socket_def DhcpClient_poll_def timed_out_def elapsed_def with_sockets_def apply_event_def
  lease_config_def set_dns_servers_def set_ip_config_def update_ip_addrs_def push_addr_def sim_smoltcp_def sim_op_def
  sim_kinds_def demo_lease_def cidr_def add_gateway_def NetworkStack_poll_def check_icmp_def ip_address_def Let_def

lemma demo_started:
  "\<exists>c stack. dhcp_started (sim_smoltcp events) 0 demo_device () = Some (c, stack)
     \<and> c = DhcpClient_new\<lparr>dhcp_socket := Some 0, dhcp_state := DhcpDiscovering, start_time := Some 0\<rparr>
     \<and> stack = \<lparr>stack_device = demo_device, stack_hw = (), interface = ([], []), sockets = ([DhcpSpec], events),
          net_config = DhcpConfiguration, servers = []\<rparr>"
  by (simp add: demo_run_defs)

text \<open>C29: Client and interface follow the leases that the socket reports, whatever the tasks and the shell do to a
  started client. While the last thing the socket reported is a lease and it has not been renewed since, the client
  is configured: its configuration has the address, prefix, router and name servers of that lease, the interface
  has that address and prefix as its only address, and the stack those name servers. Otherwise the client is
  discovering, or it is in link-local state and the interface has the address 169.254 and the last two
  bytes of the MAC address. The default route is that of the last lease that named a router.\<close>

theorem dhcp_tracks_lease:
  assumes "smoltcp_routes S default_route" "dhcp_started S t dev n = Some x" "dhcp_run S ops x = Some (c, stack)"
  shows "(case current_lease (run_notes S ops x) of
       Some l \<Rightarrow> dhcp_state c = DhcpConfigured
         \<and> dhcp_config c = Some \<lparr>ip = lease_address l, prefix_len = lease_prefix l, gateway = lease_router l,
             config_dns = lease_dns l, lease_duration = None\<rparr>
         \<and> ip_addrs S (interface stack) = [Ipv4Cidr (lease_address l) (lease_prefix l)] \<and> servers stack = lease_dns l
     | None \<Rightarrow> dhcp_state c = DhcpDiscovering
         \<or> dhcp_state c = DhcpLinkLocal
           \<and> ip_addrs S (interface stack) = [Ipv4Cidr (Ipv4 169 254 (device_mac dev ! 4) (device_mac dev ! 5)) 16])
    \<and> default_route (interface stack) = last_router (run_notes S ops x)"
proof -
  have "dhcp_agrees S (device_mac dev) t (run_notes S ops x) (c, stack)"
    using smoltcp.run_agrees [OF smoltcp_routes.axioms(1) [OF assms(1)] assms(2,3)] .
  moreover have "default_route (interface stack) = last_router (run_notes S ops x)"
    using smoltcp_routes.run_route [OF assms] by simp
  ultimately show ?thesis
    by (auto simp: dhcp_agrees_def lease_config_def cidr_def link_local_ip_def split: option.splits)
qed

theorem dhcp_tracks_lease_witness:
  "\<exists>x c stack. dhcp_started (sim_smoltcp [SocketConfigured demo_lease]) 0 demo_device () = Some x
    \<and> dhcp_run (sim_smoltcp [SocketConfigured demo_lease]) [ClientPoll 20, StackPoll 21] x = Some (c, stack)
    \<and> dhcp_state c = DhcpConfigured
    \<and> ip_addrs (sim_smoltcp [SocketConfigured demo_lease]) (interface stack) = [Ipv4Cidr (Ipv4 10 0 2 15) 24]
    \<and> servers stack = [Ipv4 10 0 2 3] \<and> sim_route (interface stack) = Some (Ipv4 10 0 2 2)"
proof -
  let ?S = "sim_smoltcp [SocketConfigured demo_lease]" and ?ops = "[ClientPoll 20, StackPoll 21]"
  obtain c0 stack0 where start: "dhcp_started ?S 0 demo_device () = Some (c0, stack0)"
      "c0 = DhcpClient_new\<lparr>dhcp_socket := Some 0, dhcp_state := DhcpDiscovering, start_time := Some 0\<rparr>"
      "sockets stack0 = ([DhcpSpec], [SocketConfigured demo_lease])"
    using demo_started [of "[SocketConfigured demo_lease]"] by auto
  obtain c stack where run: "dhcp_run ?S ?ops (c0, stack0) = Some (c, stack)"
    using ss.run_typed [OF ss.started_typed [OF start(1)], of "[SocketConfigured demo_lease]" ?ops] by auto
  have reported: "run_notes ?S ?ops (c0, stack0) = [Reported 20 (SocketConfigured demo_lease)]"
    by (simp add: start(2,3) step_notes_def demo_run_defs split: option.split)
  from dhcp_tracks_lease [OF sr.smoltcp_routes_axioms start(1) run, unfolded reported] run start(1) show ?thesis
    by (intro exI [of _ "(c0, stack0)"] exI [of _ c] exI [of _ stack])
      (simp add: current_lease_def last_router_def demo_lease_def)
qed

text \<open>C30: The deadline of the discovery, for a started client that is discovering. Let \<open>s\<close> be the time it was started,
  or that of the poll in which the socket last reported the loss of a lease. A poll at \<open>t'\<close> returns; if \<open>t'\<close> is more
  than ten seconds from \<open>s\<close>, the client is in link-local state afterwards and the interface has its link-local
  address; if it is not, the client has not fallen back.\<close>

theorem dhcp_deadline:
  assumes "smoltcp_sockets S kinds" "dhcp_started S t dev n = Some x" "dhcp_run S ops x = Some (c, stack)"
    and "dhcp_state c = DhcpDiscovering" "s = search_start t (run_notes S ops x)"
  shows "\<exists>c' stack'. dhcp_run S (ops @ [ClientPoll t']) x = Some (c', stack')
    \<and> (if \<bar>t' - s\<bar> > 10 * 1000
       then dhcp_state c' = DhcpLinkLocal
         \<and> ip_addrs S (interface stack') = [Ipv4Cidr (Ipv4 169 254 (device_mac dev ! 4) (device_mac dev ! 5)) 16]
       else dhcp_state c' \<noteq> DhcpLinkLocal)"
proof -
  have smoltcp: "smoltcp S"
    using assms(1) by (simp add: smoltcp_sockets_def)
  have agrees: "dhcp_agrees S (device_mac dev) t (run_notes S ops x) (c, stack)"
    using smoltcp.run_agrees [OF smoltcp assms(2,3)] .
  have "dhcp_typed kinds (c, stack)"
    using smoltcp_sockets.run_typed [OF assms(1) smoltcp_sockets.started_typed [OF assms(1,2)], of ops] assms(3) by simp
  then obtain e out c' stack' where poll: "DhcpClient_poll S t' c stack = Some (e, out, c', stack')"
    using smoltcp_sockets.client_poll_typed [OF assms(1)] by metis
  have late: "timed_out t' c \<longleftrightarrow> \<bar>t' - s\<bar> > 10 * 1000"
    using agrees assms(4,5) by (auto simp: dhcp_agrees_def timed_out_def elapsed_def)
  have "if timed_out t' c then dhcp_state c' = DhcpLinkLocal else dhcp_state c' \<noteq> DhcpLinkLocal"
    using poll
  proof (cases rule: DhcpClient_poll_cases)
    case (event h ev stack1)
    then show ?thesis
      by (cases ev) (auto simp: apply_event_def Let_def)
  qed (use agrees assms(4) in \<open>auto simp: dhcp_agrees_def fallback_to_link_local_def Let_def\<close>)
  moreover have "dhcp_state c' = DhcpLinkLocal \<longrightarrow>
      ip_addrs S (interface stack') = [Ipv4Cidr (Ipv4 169 254 (device_mac dev ! 4) (device_mac dev ! 5)) 16]"
    using smoltcp.client_poll_agrees [OF smoltcp agrees poll]
    by (auto simp: dhcp_agrees_def link_local_ip_def split: option.splits)
  moreover have "dhcp_run S (ops @ [ClientPoll t']) x = Some (c', stack')"
    by (simp add: dhcp_run_append assms(3)) (simp add: dhcp_run_def poll)
  ultimately show ?thesis
    unfolding late by auto
qed

theorem dhcp_deadline_witness:
  "\<exists>x c stack. dhcp_started (sim_smoltcp []) 0 demo_device () = Some x
    \<and> dhcp_run (sim_smoltcp []) ([StackPoll 1, ClientPoll 9000] @ [ClientPoll 10001]) x = Some (c, stack)
    \<and> dhcp_state c = DhcpLinkLocal
    \<and> ip_addrs (sim_smoltcp []) (interface stack) = [Ipv4Cidr (Ipv4 169 254 0x34 0x56) 16]"
proof -
  let ?ops = "[StackPoll 1, ClientPoll 9000]"
  obtain c0 stack0 where start: "dhcp_started (sim_smoltcp []) 0 demo_device () = Some (c0, stack0)"
      "c0 = DhcpClient_new\<lparr>dhcp_socket := Some 0, dhcp_state := DhcpDiscovering, start_time := Some 0\<rparr>"
      "sockets stack0 = ([DhcpSpec], [])"
    using demo_started [of "[]"] by auto
  obtain c stack where run: "dhcp_run (sim_smoltcp []) ?ops (c0, stack0) = Some (c, stack)" "dhcp_state c = DhcpDiscovering"
    by (simp add: start(2,3) demo_run_defs)
  have reported: "run_notes (sim_smoltcp []) ?ops (c0, stack0) = []"
    by (simp add: start(2,3) step_notes_def demo_run_defs)
  from dhcp_deadline [OF ss.smoltcp_sockets_axioms start(1) run refl, of 10001, unfolded reported] start(1) show ?thesis
    by (auto simp: demo_device_def QemuE1000_new_def)
qed

text \<open>A renewal more than ten seconds after the client was started never reaches the server. It leaves the
  start time alone, so the next poll takes the fallback at once: the leased address is replaced by the link-local
  one, although client and resolver still hold the lease's configuration.\<close>

theorem dhcp_renewal_falls_back:
  assumes "smoltcp_sockets S kinds" "dhcp_started S t dev n = Some x" "dhcp_run S ops x = Some (c, stack)"
    and "10000 < \<bar>t' - search_start t (run_notes S ops x)\<bar>"
  shows "\<exists>c' stack'. dhcp_run S (ops @ [ClientRenew, ClientPoll t']) x = Some (c', stack')
    \<and> dhcp_state c' = DhcpLinkLocal \<and> ip_addrs S (interface stack') = [Ipv4Cidr (link_local_ip (device_mac dev)) 16]
    \<and> dhcp_config c' = dhcp_config c \<and> servers stack' = servers stack"
proof -
  have smoltcp: "smoltcp S"
    using assms(1) by (simp add: smoltcp_sockets_def)
  have agrees: "dhcp_agrees S (device_mac dev) t (run_notes S ops x) (c, stack)"
    using smoltcp.run_agrees [OF smoltcp assms(2,3)] .
  then obtain h where h: "dhcp_socket c = Some h"
    by (auto simp: dhcp_agrees_def)
  have "dhcp_typed kinds (c, stack)"
    using smoltcp_sockets.run_typed [OF assms(1) smoltcp_sockets.started_typed [OF assms(1,2)], of ops] assms(3) by simp
  with h obtain s' where s': "dhcp_socket_reset S h (sockets stack) = Some s'"
    using smoltcp_sockets.dhcp_reset_kind [OF assms(1)] by (fastforce simp: dhcp_typed_def)
  obtain i where "set_ip_config S (Ipv4Cidr (link_local_ip (device_mac dev)) 16) None (stack\<lparr>sockets := s'\<rparr>)
        = Some (stack\<lparr>sockets := s', interface := i\<rparr>)"
      "ip_addrs S i = [Ipv4Cidr (link_local_ip (device_mac dev)) 16]"
    using smoltcp.set_ip_config_succeeds [OF smoltcp, of "Ipv4Cidr (link_local_ip (device_mac dev)) 16" None "stack\<lparr>sockets := s'\<rparr>"]
      smoltcp.link_local_unicast [OF smoltcp]
    by (auto simp: link_local_ip_def)
  moreover have late: "10000 < nat \<bar>t' - search_start t (run_notes S ops x)\<bar>"
    using assms(4) by linarith
  ultimately have "dhcp_run S [ClientRenew, ClientPoll t'] (c, stack)
      = Some (c\<lparr>dhcp_state := DhcpLinkLocal\<rparr>, stack\<lparr>sockets := s', interface := i\<rparr>)"
    using agrees s'
    by (simp add: dhcp_run_def DhcpClient_renew_def DhcpClient_poll_def h timed_out_def elapsed_def dhcp_agrees_def
        fallback_to_link_local_def Let_def)
  then show ?thesis
    using assms(3) \<open>ip_addrs S i = _\<close> by (simp add: dhcp_run_append)
qed

theorem dhcp_renewal_falls_back_witness:
  "\<exists>x c stack. dhcp_started (sim_smoltcp [SocketConfigured demo_lease]) 0 demo_device () = Some x
    \<and> dhcp_run (sim_smoltcp [SocketConfigured demo_lease]) ([ClientPoll 20] @ [ClientRenew, ClientPoll 60000]) x = Some (c, stack)
    \<and> dhcp_state c = DhcpLinkLocal \<and> servers stack = [Ipv4 10 0 2 3]
    \<and> ip_addrs (sim_smoltcp [SocketConfigured demo_lease]) (interface stack) = [Ipv4Cidr (Ipv4 169 254 0x34 0x56) 16]"
proof -
  let ?S = "sim_smoltcp [SocketConfigured demo_lease]"
  obtain c0 stack0 where start: "dhcp_started ?S 0 demo_device () = Some (c0, stack0)"
      "c0 = DhcpClient_new\<lparr>dhcp_socket := Some 0, dhcp_state := DhcpDiscovering, start_time := Some 0\<rparr>"
      "sockets stack0 = ([DhcpSpec], [SocketConfigured demo_lease])" "interface stack0 = ([], [])"
    using demo_started [of "[SocketConfigured demo_lease]"] by auto
  obtain c stack where run: "dhcp_run ?S [ClientPoll 20] (c0, stack0) = Some (c, stack)" "servers stack = [Ipv4 10 0 2 3]"
    by (simp add: start(2-4) demo_run_defs)
  have "run_notes ?S [ClientPoll 20] (c0, stack0) = [Reported 20 (SocketConfigured demo_lease)]"
    by (simp add: start(2,3) step_notes_def demo_run_defs split: option.split)
  then have "10000 < \<bar>60000 - search_start 0 (run_notes ?S [ClientPoll 20] (c0, stack0))\<bar>"
    by (simp add: search_start_def)
  from dhcp_renewal_falls_back [OF ss.smoltcp_sockets_axioms start(1) run(1) this] run(2) start(1) show ?thesis
    by (auto simp: link_local_ip_def demo_device_def QemuE1000_new_def)
qed

text \<open>Losing a lease does not take its address away: when the socket reports the loss, the client drops its
  configuration and discovers again, but interface and name servers stay as they are.\<close>

theorem dhcp_lost_lease_kept:
  assumes "DhcpClient_poll S t c stack = Some (Some EventDeconfigured, out, c', stack')"
  shows "dhcp_config c' = None \<and> dhcp_state c' = DhcpDiscovering \<and> interface stack' = interface stack
    \<and> ip_address S stack' = ip_address S stack \<and> servers stack' = servers stack"
  using assms
proof (cases rule: DhcpClient_poll_cases)
  case (event h ev stack1)
  with with_sockets_frame [OF event(4)] show ?thesis
    by (cases ev) (auto simp: apply_event_def Let_def ip_address_def)
qed (auto simp: fallback_to_link_local_def Let_def)

theorem dhcp_lost_lease_kept_witness:
  "\<exists>c stack c' stack'. DhcpClient_poll (sim_smoltcp [SocketDeconfigured]) 86400000 c stack
        = Some (Some EventDeconfigured, [], c', stack')
    \<and> dhcp_config c = Some (lease_config demo_lease) \<and> dhcp_config c' = None
    \<and> ip_address (sim_smoltcp [SocketDeconfigured]) stack' = Some (Ipv4 10 0 2 15)"
proof -
  let ?S = "sim_smoltcp [SocketDeconfigured]"
  let ?c = "DhcpClient_new\<lparr>dhcp_socket := Some 0, dhcp_state := DhcpConfigured, dhcp_config := Some (lease_config demo_lease)\<rparr>"
  let ?stack = "\<lparr>stack_device = demo_device, stack_hw = (), interface = ([Ipv4Cidr (Ipv4 10 0 2 15) 24], []),
      sockets = ([DhcpSpec], [SocketDeconfigured]), net_config = DhcpConfiguration, servers = [Ipv4 10 0 2 3]\<rparr>"
  obtain c' stack' where poll: "DhcpClient_poll ?S 86400000 ?c ?stack = Some (Some EventDeconfigured, [], c', stack')"
    by (simp add: demo_run_defs)
  from dhcp_lost_lease_kept [OF poll] poll show ?thesis
    by (intro exI [of _ ?c] exI [of _ ?stack] exI [of _ c'] exI [of _ stack'])
      (auto simp: ip_address_def sim_smoltcp_def)
qed

end
