(* ===== verification/Command_Exec.thy ===== *)
theory Command_Exec
  imports Dhcp Shell Wasm_Command
begin

text \<open>
  The commands of the shell (\<open>Command::execute\<close> in \<open>terminal/commands.rs\<close>): what they print, as a list of
  calls of the console, and what they change of the network stack, the DHCP client and the resolver. \<open>None\<close> is a
  panic. The command that runs a WebAssembly module is that of \<open>Wasm_Command\<close>, on the engine and the memory of the
  host that a record holds.
\<close>

section \<open>Formatting\<close>

definition hex_digit :: "nat \<Rightarrow> char" where
  "hex_digit d = (''0123456789abcdef'') ! d"

text \<open>\<open>{:02x}\<close> of a byte, and of the six bytes of a MAC address.\<close>

definition show_hex2 :: "u8 \<Rightarrow> str" where
  "show_hex2 b = [hex_digit (unat b div 16), hex_digit (unat b mod 16)]"

definition show_mac :: "u8 list \<Rightarrow> str" where
  "show_mac mac = show_hex2 (mac ! 0) @ '':'' @ show_hex2 (mac ! 1) @ '':'' @ show_hex2 (mac ! 2) @ '':''
     @ show_hex2 (mac ! 3) @ '':'' @ show_hex2 (mac ! 4) @ '':'' @ show_hex2 (mac ! 5)"

primrec debug_DhcpState :: "DhcpState \<Rightarrow> str" where
  "debug_DhcpState DhcpIdle = ''Idle''"
| "debug_DhcpState DhcpDiscovering = ''Discovering''"
| "debug_DhcpState DhcpRequesting = ''Requesting''"
| "debug_DhcpState DhcpConfigured = ''Configured''"
| "debug_DhcpState DhcpLinkLocal = ''LinkLocal''"

text \<open>The loop that prints addresses with commas between them.\<close>

definition print_addresses :: "Ipv4Address list \<Rightarrow> console_op list" where
  "print_addresses addrs =
     concat (map (\<lambda>(i, a). (if i > 0 then [Print '', ''] else []) @ [Print (show_ipv4 a)]) (enumerate 0 addrs))"

section \<open>The commands\<close>

definition cmd_help :: "console_op list" where
  "cmd_help =
     [Println [], SetColor Cyan Black,
      Println ''SovelmaOS Shell Commands'',
      Println ''========================'',
      SetColor White Black, Println [],
      Println ''  help          Show this help message'',
      Println ''  clear         Clear the screen'',
      Println ''  ifconfig      Show network configuration'',
      Println ''  dhcp [renew]  Show DHCP status or request new lease'',
      Println ''  dns <host>    Resolve hostname to IP address'',
      Println ''  connect <host> <port>  Open TCP connection'',
      Println ''  ping <host>   Send ICMP Echo Request'',
      Println ''  echo <text>   Echo text to console'',
      Println ''  sysinfo       Show system information'',
      Println ''  wasm-test     Run a simple WASM module test'',
      Println []]"

definition cmd_ifconfig ::
    "('h, 'qh, 'i, 's, 'n) smoltcp_ops \<Rightarrow> ('i, 's, 'n) NetworkStack \<Rightarrow> 'h DhcpClient \<Rightarrow> console_op list" where
  "cmd_ifconfig S stack dhcp =
     [Println [], SetColor Cyan Black, Println ''Network Configuration'', Println ''---------------------'',
      SetColor White Black]
     @ [Print ''  MAC:     '', SetColor Yellow Black, Println (show_mac (device_mac (stack_device stack))), SetColor White Black]
     @ [Print ''  IP:      '']
     @ (case ip_address S stack of
          Some a \<Rightarrow> [SetColor LightGreen Black, Println (show_ipv4 a)]
        | None \<Rightarrow> [SetColor LightRed Black, Println ''Not configured''])
     @ [SetColor White Black]
     @ [Print ''  Gateway: '']
     @ (case dhcp_config dhcp of
          Some config \<Rightarrow>
            (case gateway config of
               Some gw \<Rightarrow> [SetColor Yellow Black, Println (show_ipv4 gw)]
             | None \<Rightarrow> [Println ''None''])
        | None \<Rightarrow> [Println ''None''])
     @ [SetColor White Black]
     @ [Print ''  DNS:     '']
     @ (if servers stack \<noteq> [] then [SetColor Yellow Black] @ print_addresses (servers stack) @ [Println []]
        else [Println ''None''])
     @ [SetColor White Black]
     @ [Print ''  DHCP:    '', SetColor Yellow Black, Println (debug_DhcpState (dhcp_state dhcp)), SetColor White Black, Println []]"

definition dhcp_status :: "'h DhcpClient \<Rightarrow> console_op list" where
  "dhcp_status dhcp =
     [Println (''DHCP State: '' @ debug_DhcpState (dhcp_state dhcp))]
     @ (case dhcp_config dhcp of
          None \<Rightarrow> []
        | Some config \<Rightarrow>
            [Println (''  IP: '' @ show_ipv4 (ip config) @ ''/'' @ show_nat (unat (prefix_len config)))]
            @ (case gateway config of Some gw \<Rightarrow> [Println (''  Gateway: '' @ show_ipv4 gw)] | None \<Rightarrow> [])
            @ (if config_dns config \<noteq> [] then [Print ''  DNS: ''] @ print_addresses (config_dns config) @ [Println []]
               else []))"

definition cmd_dhcp ::
    "('h, 'qh, 'i, 's, 'n) smoltcp_ops \<Rightarrow> DhcpAction \<Rightarrow> ('i, 's, 'n) NetworkStack \<Rightarrow> 'h DhcpClient
     \<Rightarrow> (console_op list \<times> ('i, 's, 'n) NetworkStack \<times> 'h DhcpClient) option" where
  "cmd_dhcp S action stack dhcp =
     (case action of
        Commands.Status \<Rightarrow> Some (dhcp_status dhcp, stack, dhcp)
      | Renew \<Rightarrow> map_option (\<lambda>(dhcp, stack). ([Println ''Requesting DHCP renewal...''], stack, dhcp)) (DhcpClient_renew S dhcp stack)
      | Release \<Rightarrow> Some ([Println ''DHCP release not yet implemented''], stack, dhcp))"

definition error_line :: "str \<Rightarrow> console_op list" where
  "error_line s = [SetColor LightRed Black, Println s, SetColor White Black]"

definition cmd_dns ::
    "('h, 'qh, 'i, 's, 'n) smoltcp_ops \<Rightarrow> str \<Rightarrow> ('i, 's, 'n) NetworkStack \<Rightarrow> ('h, 'qh) DnsResolver
     \<Rightarrow> console_op list \<times> ('i, 's, 'n) NetworkStack \<times> ('h, 'qh) DnsResolver" where
  "cmd_dns S hostname stack dns =
     (case parse_ipv4 hostname of
        Some a \<Rightarrow> ([Println (hostname @ '' -> '' @ show_ipv4 a)], stack, dns)
      | None \<Rightarrow>
          let (dns, stack) = (if \<not> is_ready dns then DnsResolver_init (stack_dns S) dns stack else (dns, stack)) in
          if \<not> is_ready dns then (error_line ''DNS resolver not ready (no DNS servers configured)'', stack, dns)
          else
            (case DnsResolver_resolve (stack_dns S) hostname dns stack of
               (r, dns, stack) \<Rightarrow>
                 ([Print (''Resolving '' @ hostname @ ''... '')]
                  @ (case r of
                       Inr _ \<Rightarrow> [Println ''(query started)'', Println ''Use the main loop to poll for DNS results.'']
                     | Inl e \<Rightarrow> error_line (''Failed: '' @ show_NetError e)),
                  stack, dns)))"

definition local_port_for :: "Ipv4Address \<Rightarrow> u16" where
  "local_port_for a = (case a of Ipv4 _ _ _ d \<Rightarrow> 49152 + ucast d mod 1000)"

definition cmd_connect ::
    "('h, 'qh, 'i, 's, 'n) smoltcp_ops \<Rightarrow> str \<Rightarrow> u16 \<Rightarrow> ('i, 's, 'n) NetworkStack
     \<Rightarrow> (console_op list \<times> ('i, 's, 'n) NetworkStack) option" where
  "cmd_connect S host_arg port stack =
     (case parse_ipv4 host_arg of
        None \<Rightarrow> Some ([SetColor LightRed Black, Println ''DNS resolution for connect not yet implemented.'',
                       Println ''Please use an IP address directly.'', SetColor White Black], stack)
      | Some a \<Rightarrow>
          let target = show_ipv4 a @ '':'' @ show_u16 port;
              (handle, stack) = tcp_socket S stack
          in map_option
               (\<lambda>(r, stack).
                  ([Println (''Connecting to '' @ target @ ''...'')]
                   @ (case r of
                        Inr _ \<Rightarrow> [SetColor LightGreen Black, Println (''Connection initiated to '' @ target),
                                  SetColor White Black, Println ''Use the main loop to check connection state.'']
                      | Inl e \<Rightarrow> error_line (''Connection failed: '' @ show_NetError e)), stack))
               (tcp_connect S handle (a, port) (local_port_for a) stack))"

definition cmd_sysinfo :: "console_op list" where
  "cmd_sysinfo =
     [Println [], SetColor Cyan Black,
      Println ''SovelmaOS System Information'',
      Println ''============================'',
      SetColor White Black,
      Println ''  Version:    0.1.0'', Println ''  Arch:       x86_64'', Println ''  Platform:   QEMU'',
      Println []]"

definition cmd_ping ::
    "('h, 'qh, 'i, 's, 'n) smoltcp_ops \<Rightarrow> str \<Rightarrow> ('i, 's, 'n) NetworkStack
     \<Rightarrow> (console_op list \<times> ('i, 's, 'n) NetworkStack) option" where
  "cmd_ping S host_arg stack =
     (case parse_ipv4 host_arg of
        None \<Rightarrow> Some ([Println ''Invalid IP address. Hostname resolution in ping not yet implemented.''], stack)
      | Some a \<Rightarrow>
          let (handle, stack) = icmp_socket S stack;
              buffer = icmp_emit_echo S 0x1234 1 (replicate 8 0xFF)
          in map_option
               (\<lambda>(r, stack).
                  ([Println (''Pinging '' @ show_ipv4 a @ ''...'')]
                   @ (case r of
                        None \<Rightarrow> [Println ''  Echo request sent. Waiting for reply...'']
                      | Some e \<Rightarrow> error_line (''  Failed to send: '' @ e)), stack))
               (with_sockets (icmp_send_slice S handle buffer a) stack))"

section \<open>Execution\<close>

text \<open>What the commands may change, with the host's state behind the WebAssembly command.\<close>

record ('h, 'qh, 'i, 's, 'n, 'k) shell_state =
  sh_stack :: "('i, 's, 'n) NetworkStack"
  sh_dhcp :: "'h DhcpClient"
  sh_dns :: "('h, 'qh) DnsResolver"
  sh_kernel :: 'k

text \<open>What the WebAssembly command runs on.\<close>

record ('ws, 'wi, 'wf, 'wv, 'wm, 'we, 'kq, 'kw, 'm) wasm_env =
  engine_of :: "('ws, 'wi, 'wf, 'wv, 'wm, 'we, ('kq, 'kw) Kernel) wasmi_ops"
  host_of :: "('kq, 'kw, 'm) host_env"

definition Command_execute ::
    "('h, 'qh, 'i, 's, 'n) smoltcp_ops \<Rightarrow> ('ws, 'wi, 'wf, 'wv, 'wm, 'we, 'kq, 'kw, 'm) wasm_env \<Rightarrow> Command
     \<Rightarrow> ('h, 'qh, 'i, 's, 'n, ('kq, 'kw) Kernel) shell_state
     \<Rightarrow> (console_op list \<times> ('h, 'qh, 'i, 's, 'n, ('kq, 'kw) Kernel) shell_state) option" where
  "Command_execute S W cmd st =
     (case cmd of
        Help \<Rightarrow> Some (cmd_help, st)
      | Clear \<Rightarrow> Some ([ClearScreen], st)
      | Ifconfig \<Rightarrow> Some (cmd_ifconfig S (sh_stack st) (sh_dhcp st), st)
      | Dhcp action \<Rightarrow>
          map_option (\<lambda>(out, stack, dhcp). (out, st\<lparr>sh_stack := stack, sh_dhcp := dhcp\<rparr>))
            (cmd_dhcp S action (sh_stack st) (sh_dhcp st))
      | Dns hostname \<Rightarrow>
          (case cmd_dns S hostname (sh_stack st) (sh_dns st) of
             (out, stack, dns) \<Rightarrow> Some (out, st\<lparr>sh_stack := stack, sh_dns := dns\<rparr>))
      | Connect h port \<Rightarrow> map_option (\<lambda>(out, stack). (out, st\<lparr>sh_stack := stack\<rparr>)) (cmd_connect S h port (sh_stack st))
      | Echo text \<Rightarrow> Some ([Println text], st)
      | Ping h \<Rightarrow> map_option (\<lambda>(out, stack). (out, st\<lparr>sh_stack := stack\<rparr>)) (cmd_ping S h (sh_stack st))
      | Sysinfo \<Rightarrow> Some (cmd_sysinfo, st)
      | WasmTest file \<Rightarrow> map_option (\<lambda>(out, k). (out, st\<lparr>sh_kernel := k\<rparr>)) (cmd_wasm_test (engine_of W) (host_of W) file (sh_kernel st))
      | Unknown name \<Rightarrow>
          Some ([SetColor LightRed Black, Println (''Unknown command: '' @ name), SetColor White Black,
                 Println (''Type '' @ [CHR 0x27] @ ''help'' @ [CHR 0x27] @ '' for available commands.'')], st))"

end
