(* ===== verification/Self_Tests.thy ===== *)
theory Self_Tests
  imports Host Console
begin

text \<open>
  The tests that run at boot (\<open>tests.rs\<close>), on the model of the components they test. A failed assertion is a
  panic, \<open>None\<close>. The two counters that number capabilities are explicit state.
\<close>

section \<open>The tests\<close>

type_synonym 'r test = "(console_op list \<times> 'r) option"

definition check :: "bool \<Rightarrow> 'r option \<Rightarrow> 'r option" where
  "check b k = (if b then k else None)"

definition test_line :: "str \<Rightarrow> str \<Rightarrow> console_op" where
  "test_line name result = SerialPrintln (''[test] '' @ name @ ''... '' @ result)"

definition test_allocation :: "unit test" where
  "test_allocation =
     (let x = (42 :: int); v = fold (\<lambda>i v. v @ [i]) [0..99] [] in
      check (x = 42) (check (length v = 100) (check (v ! 50 = 50)
        (Some ([test_line ''test_allocation'' [], test_line ''test_allocation'' ''ok''], ())))))"

definition test_capabilities :: "u32 \<Rightarrow> u32 test" where
  "test_capabilities next_index =
     (let table = CapabilityTable_new;
          (i, table, next_index) = grant next_index table (Serial 0x3F8) (Some 101)
      in check (has_access table 101 i) (check (\<not> has_access table 102 i)
           (case revoke table i of
              (Inl _, _) \<Rightarrow> None
            | (Inr _, table) \<Rightarrow>
                check (\<not> has_access table 101 i)
                  (Some ([test_line ''test_capabilities'' [], test_line ''test_capabilities'' ''ok''], next_index)))))"

definition test_task_id :: "unit test" where
  "test_task_id = Some ([test_line ''test_task_id'' [], test_line ''test_task_id'' ''ok''], ())"

definition CapId_bump_generation :: "CapId \<Rightarrow> CapId option" where
  "CapId_bump_generation i = (if cap_generation i = - 1 then None else Some (CapId (cap_index i) (cap_generation i + 1)))"

definition test_generation_validation :: "HostState \<Rightarrow> u32 \<Rightarrow> u32 option" where
  "test_generation_validation hs n =
     (let (new_cap, n) = Capability_new n (File 100) READ;
          new_cap_id = cap_id new_cap;
          (_, hs) = add_capability hs new_cap
      in case CapId_bump_generation new_cap_id of
           None \<Rightarrow> None
         | Some wrong_gen_id \<Rightarrow>
             check (get_capability hs wrong_gen_id = None) (check (get_capability hs new_cap_id \<noteq> None) (Some n)))"

definition test_capability_generation_revocation :: "u32 \<Rightarrow> u32 test" where
  "test_capability_generation_revocation n =
     (let hs = HostState_new;
          (file_cap, n) = Capability_new n (File 42) (READ OR WRITE);
          cap = cap_id file_cap;
          (_, hs) = add_capability hs file_cap
      in check (get_capability hs cap \<noteq> None)
           (case get_capability hs cap of
              None \<Rightarrow> None
            | Some c \<Rightarrow>
                check (rights_contains (cap_rights c) READ) (check (rights_contains (cap_rights c) WRITE)
                  (let hs = HostState_revoke hs cap in
                   check (get_capability hs cap = None)
                     (case test_generation_validation hs n of
                        None \<Rightarrow> None
                      | Some n \<Rightarrow> Some ([test_line ''test_capability_generation_revocation'' [],
                          test_line ''test_capability_generation_revocation'' ''ok''], n))))))"

definition run_all :: "u32 \<times> u32 \<Rightarrow> (u32 \<times> u32) test" where
  "run_all = (\<lambda>(i, n).
     Option.bind test_allocation (\<lambda>(out1, _).
     Option.bind (test_capabilities i) (\<lambda>(out2, i).
     Option.bind test_task_id (\<lambda>(out3, _).
     Option.bind (test_capability_generation_revocation n) (\<lambda>(out4, n).
       Some ([SerialPrintln ''[test] Running kernel tests...''] @ out1 @ out2 @ out3 @ out4
               @ [SerialPrintln ''[test] All kernel tests passed!''], i, n))))))"

section \<open>They pass\<close>

lemma test_allocation_passes:
  "test_allocation = Some ([test_line ''test_allocation'' [], test_line ''test_allocation'' ''ok''], ())"
proof -
  have "fold (\<lambda>i v. v @ [i]) xs ys = ys @ xs" for xs ys :: "int list"
    by (induction xs arbitrary: ys) auto
  moreover have "length [0..99 :: int] = 100" "[0..99 :: int] ! 50 = 50"
    by (simp_all add: nth_upto)
  ultimately show ?thesis
    by (simp add: test_allocation_def check_def del: upto_rec_numeral)
qed

lemma test_capabilities_passes: "\<exists>out. test_capabilities i = Some (out, i + 1)"
  by (simp add: test_capabilities_def grant_def CapId_next_def fetch_add_one_def CapabilityTable_new_def has_access_def
      revoke_def check_def Let_def)

lemma test_revocation_passes: "\<exists>out. test_capability_generation_revocation n = Some (out, n + 2)"
  by (simp add: test_capability_generation_revocation_def test_generation_validation_def HostState_new_def
      Capability_new_def fetch_add_one_def add_capability_def get_capability_def HostState_revoke_def
      rights_contains_def READ_def WRITE_def CapId_bump_generation_def check_def Let_def)

lemma run_all_passes:
  "\<exists>out. run_all (i, n) = Some (out, i + 1, n + 2)
     \<and> last out = SerialPrintln ''[test] All kernel tests passed!''"
proof -
  obtain out2 out4 where "test_capabilities i = Some (out2, i + 1)"
    "test_capability_generation_revocation n = Some (out4, n + 2)"
    using test_capabilities_passes test_revocation_passes by metis
  then show ?thesis
    by (simp add: run_all_def test_task_id_def test_allocation_passes)
qed

text \<open>The tests that run at boot pass, wherever the two counters of capability identifiers stand, and move
  them by one and by two.\<close>

theorem self_tests_pass:
  "\<exists>out. run_all (i, n) = Some (out, i + 1, n + 2)
     \<and> last out = SerialPrintln ''[test] All kernel tests passed!''"
  by (rule run_all_passes)

end
