(* ===== verification/Kernel_Main.thy ===== *)
theory Kernel_Main
  imports Command_Exec Self_Tests Shell_Spec Keyboard
begin

text \<open>
  The kernel's entry point (\<open>main.rs\<close>): booting, which composes memory, console, filesystem, self-tests and
  network, and the three tasks that then run. Each loop body of a task between two \<open>yield_now\<close> is one step;
  interrupts are steps of their own. \<open>None\<close> is a panic. The state of the hardware behind the network device is in
  the stack; the \<open>spin\<close> locks around the shared parts leave no trace, since no task holds one across a step.
\<close>

section \<open>Keys\<close>

text \<open>The decoder of the \<open>pc_keyboard\<close> crate is a parameter (\<open>add_byte\<close> with an error or no event is \<open>None\<close>).\<close>

record ('d, 'e) decoder_ops =
  add_byte :: "u8 \<Rightarrow> 'd \<Rightarrow> 'e option \<times> 'd"
  process_keyevent :: "'e \<Rightarrow> 'd \<Rightarrow> DecodedKey option \<times> 'd"

definition decode_scancode :: "('d, 'e) decoder_ops \<Rightarrow> u8 \<Rightarrow> 'd \<Rightarrow> DecodedKey option \<times> 'd" where
  "decode_scancode D scancode d =
     (case add_byte D scancode d of
        (Some e, d) \<Rightarrow> process_keyevent D e d
      | (None, d) \<Rightarrow> (None, d))"

section \<open>The state and what it runs on\<close>

record ('h, 'qh, 'i, 's, 'n, 'q, 'a, 'w, 'd, 'e, 'x) main_env =
  smoltcp_of :: "('h, 'qh, 'i, 's, 'n) smoltcp_ops"
  wasm_of :: 'x
  scancodes_of :: "('q, u8) queue_ops"
  waker_of :: "('a, 'w) waker_ops"
  decoder_of :: "('d, 'e) decoder_ops"

record ('h, 'qh, 'i, 's, 'n, 'q, 'a, 'd, 'k) main_state =
  shell :: "('h, 'qh, 'i, 's, 'n, 'k) shell_state"
  terminal :: Terminal
  screen :: Writer
  TICK_COUNT :: u64
  keyboard :: "('q, 'a) Keyboard"
  decoder :: 'd

definition tick where
  "tick m = m\<lparr>TICK_COUNT := TICK_COUNT m + 1\<rparr>"

definition now :: "('h, 'qh, 'i, 's, 'n, 'q, 'a, 'd, 'k) main_state \<Rightarrow> Instant" where
  "now m = sint (TICK_COUNT m)"

text \<open>Printing, with the console's panic.\<close>

definition show_ops ::
    "console_op list \<Rightarrow> ('h, 'qh, 'i, 's, 'n, 'q, 'a, 'd, 'k) main_state
     \<Rightarrow> ('h, 'qh, 'i, 's, 'n, 'q, 'a, 'd, 'k) main_state option" where
  "show_ops out m = map_option (\<lambda>w. m\<lparr>screen := w\<rparr>) (run_console out (screen m))"

definition set_stack where
  "set_stack stack m = m\<lparr>shell := shell m\<lparr>sh_stack := stack\<rparr>\<rparr>"

section \<open>The tasks\<close>

definition net_task ::
    "('h, 'qh, 'i, 's, 'n, 'q, 'a, 'w, 'd, 'e, 'x) main_env \<Rightarrow> ('h, 'qh, 'i, 's, 'n, 'q, 'a, 'd, 'k) main_state
     \<Rightarrow> ('h, 'qh, 'i, 's, 'n, 'q, 'a, 'd, 'k) main_state option" where
  "net_task E m =
     (let m = tick m;
          stack = NetworkStack_poll (smoltcp_of E) (now m) (sh_stack (shell m));
          (out, stack) = check_icmp (smoltcp_of E) stack
      in show_ops out (set_stack stack m))"

definition handle_dhcp_event ::
    "('h, 'qh, 'i, 's, 'n) smoltcp_ops \<Rightarrow> DhcpEvent \<Rightarrow> ('h, 'qh) DnsResolver \<Rightarrow> ('i, 's, 'n) NetworkStack
     \<Rightarrow> console_op list \<times> ('h, 'qh) DnsResolver \<times> ('i, 's, 'n) NetworkStack" where
  "handle_dhcp_event S e dns stack =
     (case e of
        EventConfigured config \<Rightarrow>
          ([Println []]
           @ boot_log StatusOk (''DHCP: Acquired '' @ show_ipv4 (ip config) @ ''/'' @ show_nat (unat (prefix_len config)))
           @ (case gateway config of Some gw \<Rightarrow> log_detail (''Gateway: '' @ show_ipv4 gw) | None \<Rightarrow> [])
           @ (if config_dns config \<noteq> [] then log_detail (''DNS: '' @ join '', '' (map show_ipv4 (config_dns config))) else [])
           @ [SerialPrintln (''[DHCP] Configured: '' @ show_ipv4 (ip config))],
           DnsResolver_init (stack_dns S) dns stack)
      | EventDeconfigured \<Rightarrow> ([SerialPrintln ''[DHCP] Deconfigured''], dns, stack)
      | EventLinkLocalFallback a \<Rightarrow>
          ([Println []]
           @ boot_log StatusWarn (''DHCP: No server, using link-local '' @ show_ipv4 a)
           @ [SerialPrintln (''[DHCP] Link-local fallback: '' @ show_ipv4 a)], dns, stack))"

definition dhcp_task ::
    "('h, 'qh, 'i, 's, 'n, 'q, 'a, 'w, 'd, 'e, 'x) main_env \<Rightarrow> ('h, 'qh, 'i, 's, 'n, 'q, 'a, 'd, 'k) main_state
     \<Rightarrow> ('h, 'qh, 'i, 's, 'n, 'q, 'a, 'd, 'k) main_state option" where
  "dhcp_task E m =
     (case DhcpClient_poll (smoltcp_of E) (now m) (sh_dhcp (shell m)) (sh_stack (shell m)) of
        None \<Rightarrow> None
      | Some (event, out, dhcp, stack) \<Rightarrow>
          (case event of
             None \<Rightarrow> show_ops out (m\<lparr>shell := shell m\<lparr>sh_dhcp := dhcp, sh_stack := stack\<rparr>\<rparr>)
           | Some e \<Rightarrow>
               (case handle_dhcp_event (smoltcp_of E) e (sh_dns (shell m)) stack of
                  (out', dns, stack) \<Rightarrow>
                    show_ops (out @ out') (m\<lparr>shell := shell m\<lparr>sh_dhcp := dhcp, sh_dns := dns, sh_stack := stack\<rparr>\<rparr>))))"

text \<open>A key, and the command it may complete.\<close>

definition handle_terminal_key ::
    "('h, 'qh, 'i, 's, 'n, 'q, 'a, 'w, 'd, 'e, ('ws, 'wi, 'wf, 'wv, 'wm, 'we, 'kq, 'kw, 'm) wasm_env) main_env
     \<Rightarrow> DecodedKey \<Rightarrow> ('h, 'qh, 'i, 's, 'n, 'q, 'a, 'd, ('kq, 'kw) Kernel) main_state
     \<Rightarrow> ('h, 'qh, 'i, 's, 'n, 'q, 'a, 'd, ('kq, 'kw) Kernel) main_state option" where
  "handle_terminal_key E key m =
     (case handle_key key (terminal m) (screen m) of
        None \<Rightarrow> None
      | Some (command, t, w) \<Rightarrow>
          let m = m\<lparr>terminal := t, screen := w\<rparr> in
          (case command of
             None \<Rightarrow> Some m
           | Some c \<Rightarrow>
               (case Command_execute (smoltcp_of E) (wasm_of E) c (shell m) of
                  None \<Rightarrow> None
                | Some (out, sh) \<Rightarrow>
                    (case show_ops out (m\<lparr>shell := sh\<rparr>) of
                       None \<Rightarrow> None
                     | Some m \<Rightarrow> map_option (\<lambda>w. m\<lparr>screen := w\<rparr>) (prompt (screen m))))))"

text \<open>The terminal task prints the prompt before its loop.\<close>

definition terminal_start ::
    "('h, 'qh, 'i, 's, 'n, 'q, 'a, 'd, 'k) main_state \<Rightarrow> ('h, 'qh, 'i, 's, 'n, 'q, 'a, 'd, 'k) main_state option" where
  "terminal_start m = map_option (\<lambda>w. m\<lparr>screen := w\<rparr>) (prompt (screen m))"

definition terminal_task ::
    "('h, 'qh, 'i, 's, 'n, 'q, 'a, 'w, 'd, 'e, ('ws, 'wi, 'wf, 'wv, 'wm, 'we, 'kq, 'kw, 'm) wasm_env) main_env
     \<Rightarrow> ('h, 'qh, 'i, 's, 'n, 'q, 'a, 'd, ('kq, 'kw) Kernel) main_state
     \<Rightarrow> ('h, 'qh, 'i, 's, 'n, 'q, 'a, 'd, ('kq, 'kw) Kernel) main_state option" where
  "terminal_task E m =
     (case get_scancode (scancodes_of E) (keyboard m) of
        (None, kb) \<Rightarrow> Some (m\<lparr>keyboard := kb\<rparr>)
      | (Some scancode, kb) \<Rightarrow>
          (case decode_scancode (decoder_of E) scancode (decoder m) of
             (None, d) \<Rightarrow> Some (m\<lparr>keyboard := kb, decoder := d\<rparr>)
           | (Some key, d) \<Rightarrow> handle_terminal_key E key (m\<lparr>keyboard := kb, decoder := d\<rparr>)))"

text \<open>The handler of the keyboard interrupt, for the scancode that the port yields.\<close>

definition keyboard_interrupt_handler ::
    "('h, 'qh, 'i, 's, 'n, 'q, 'a, 'w, 'd, 'e, 'x) main_env \<Rightarrow> u8 \<Rightarrow> ('h, 'qh, 'i, 's, 'n, 'q, 'a, 'd, 'k) main_state
     \<Rightarrow> ('h, 'qh, 'i, 's, 'n, 'q, 'a, 'd, 'k) main_state" where
  "keyboard_interrupt_handler E scancode m =
     m\<lparr>keyboard := snd (add_scancode (scancodes_of E) (waker_of E) scancode (keyboard m))\<rparr>"

datatype main_op = NetTask | DhcpTask | TerminalStart | TerminalTask | KeyboardInterrupt u8

primrec main_step ::
    "('h, 'qh, 'i, 's, 'n, 'q, 'a, 'w, 'd, 'e, ('ws, 'wi, 'wf, 'wv, 'wm, 'we, 'kq, 'kw, 'm) wasm_env) main_env
     \<Rightarrow> main_op \<Rightarrow> ('h, 'qh, 'i, 's, 'n, 'q, 'a, 'd, ('kq, 'kw) Kernel) main_state
     \<Rightarrow> ('h, 'qh, 'i, 's, 'n, 'q, 'a, 'd, ('kq, 'kw) Kernel) main_state option" where
  "main_step E NetTask m = net_task E m"
| "main_step E DhcpTask m = dhcp_task E m"
| "main_step E TerminalStart m = terminal_start m"
| "main_step E TerminalTask m = terminal_task E m"
| "main_step E (KeyboardInterrupt c) m = Some (keyboard_interrupt_handler E c m)"

definition main_run where
  "main_run E ops m = fold_option (main_step E) ops m"

section \<open>Booting\<close>

text \<open>The network: the client that was started is dropped and replaced by a new one.\<close>

definition boot_network ::
    "('h, 'qh, 'i, 's, 'n) smoltcp_ops \<Rightarrow> Instant \<Rightarrow> NetworkDevice \<Rightarrow> 'n \<Rightarrow> Writer
     \<Rightarrow> (('i, 's, 'n) NetworkStack \<times> 'h DhcpClient \<times> ('h, 'qh) DnsResolver \<times> Writer) option" where
  "boot_network S t dev n w = do {
     net_stack \<leftarrow> NetworkStack_new S dev NetConfig_dhcp n;
     w \<leftarrow> run_console (boot_log StatusOk ''Network stack initialized'') w;
     let dhcp = DhcpClient_new;
     let (dhcp, net_stack) = DhcpClient_start S t dhcp net_stack;
     w \<leftarrow> run_console (boot_log StatusInfo ''DHCP discovery started...'') w;
     let dhcp = DhcpClient_new;
     let dns = DnsResolver_new;
     Some (net_stack, dhcp, dns, w)
   }"

text \<open>What is printed in between: before the filesystem, after it, about the device, and at the end.\<close>

definition boot_lines_core :: "console_op list" where
  "boot_lines_core =
     [ClearScreen] @ print_banner
     @ boot_log StatusOk ''Serial port initialized''
     @ boot_log StatusOk ''GDT loaded''
     @ boot_log StatusOk ''IDT configured''
     @ boot_log StatusOk ''Memory manager initialized''
     @ boot_log StatusOk ''Kernel heap ready (1 MiB)''"

definition boot_lines_fs :: "console_op list" where
  "boot_lines_fs =
     boot_log StatusOk ''RAM filesystem mounted''
     @ boot_log StatusOk (''Heap verified (boxed='' @ show_nat 42 @ '', vec_len='' @ show_nat (length [0..<10]) @ '')'')"

definition boot_lines_device :: "NetworkDevice \<Rightarrow> console_op list" where
  "boot_lines_device dev =
     (if is_real dev then boot_log StatusOk ''Intel e1000 PCI NIC detected''
      else boot_log StatusWarn ''No NIC found, using loopback'')
     @ log_detail (''MAC: '' @ show_mac (device_mac dev))"

definition boot_lines_services :: "console_op list" where
  "boot_lines_services =
     log_section ''Services''
     @ boot_log StatusOk ''Terminal initialized''
     @ boot_log StatusOk ''WASM engine ready''
     @ [Println []] @ boot_log StatusOk ''Boot complete!'' @ [Println [], SetColor Cyan Black,
        Println (''Type '' @ [CHR 0x27] @ ''help'' @ [CHR 0x27] @ '' for available commands.''),
        SetColor White Black, Println []]"

text \<open>\<open>Result::expect\<close> panics on an error.\<close>

definition expect :: "'e + 'a \<Rightarrow> 'a option" where
  "expect r = (case r of Inl _ \<Rightarrow> None | Inr x \<Rightarrow> Some x)"

text \<open>From the heap to the executor.\<close>

record ('m, 'n) boot_env =
  map_to_of :: "('m, BootInfoFrameAllocator) map_to_fn"
  nic_of :: "'n nic_env"

definition kernel_boot ::
    "('m, 'n) boot_env \<Rightarrow> ('h, 'qh, 'i, 's, 'n, 'q, 'a, 'w, 'd, 'e, 'x) main_env
     \<Rightarrow> MemoryMap \<Rightarrow> u64 \<Rightarrow> 'm \<Rightarrow> 'n \<Rightarrow> u32 \<Rightarrow> Writer \<Rightarrow> 'd \<Rightarrow> ('kq, 'kw) Kernel
     \<Rightarrow> ('h, 'qh, 'i, 's, 'n, 'q, 'a, 'd, ('kq, 'kw) Kernel) main_state option" where
  "kernel_boot B E mm physical_memory_offset mapper n table_index w d k = do {
     (heap, _) \<leftarrow> init_heap (map_to_of B) allocate_frame (mapper, BootInfoFrameAllocator_init mm);
     _ \<leftarrow> expect heap;
     w \<leftarrow> run_console boot_lines_core w;
     let k = k\<lparr>root_fs := RamFs_add_file (root_fs k) ''hello.wasm'' WASM_MAGIC\<rparr>;
     w \<leftarrow> run_console boot_lines_fs w;
     (tests, _, cap_index) \<leftarrow> run_all (table_index, next_cap_index k);
     let k = k\<lparr>next_cap_index := cap_index\<rparr>;
     w \<leftarrow> run_console (tests @ boot_log StatusOk ''Kernel self-tests passed'' @ log_section ''Network'') w;
     (dev, n) \<leftarrow> NetworkDevice_probe (nic_of B) physical_memory_offset n;
     w \<leftarrow> run_console (boot_lines_device dev) w;
     (stack, dhcp, dns, w) \<leftarrow> boot_network (smoltcp_of E) 0 dev n w;
     w \<leftarrow> run_console boot_lines_services w;
     Some \<lparr>shell = \<lparr>sh_stack = stack, sh_dhcp = dhcp, sh_dns = dns, sh_kernel = k\<rparr>,
           terminal = Terminal_new, screen = w, TICK_COUNT = 0,
           keyboard = Keyboard_init (waker_of E), decoder = d\<rparr>
   }"

section \<open>Printing and sockets\<close>

lemma show_ops_ok:
  assumes "shows_log (screen m) ls"
  shows "\<exists>w' ls'. show_ops out m = Some (m\<lparr>screen := w'\<rparr>) \<and> shows_log w' ls'"
  using run_console_shows [OF assms, of out] by (auto simp: show_ops_def)

lemma prompt_ok:
  assumes "shows_log w ls"
  shows "\<exists>w' ls'. prompt w = Some w' \<and> shows_log w' ls'"
  using emits_prompt assms by (auto elim: emitsE)

lemma typed_mono:
  assumes "dhcp_typed kinds (c, stack)" "kinds (sockets stack) \<subseteq>\<^sub>m kinds (sockets stack')"
  shows "dhcp_typed kinds (c, stack')"
  using assms by (auto simp: dhcp_typed_def map_le_def dom_def)

text \<open>What the WebAssembly command relies on: an engine that runs nothing in the empty module, and memory for
  its eight bytes.\<close>

definition wasm_ok :: "('ws, 'wi, 'wf, 'wv, 'wm, 'we, 'kq, 'kw, 'm) wasm_env \<Rightarrow> bool" where
  "wasm_ok W \<longleftrightarrow> empty_module (engine_of W) \<and> heap_fits (host_of W) 0 \<and> heap_fits (host_of W) 8"

context smoltcp_sockets
begin

lemma add_socket_kinds:
  assumes "add_socket S spec stack = (h, stack')"
  shows "kinds (sockets stack') h = Some (spec_kind spec)" "kinds (sockets stack) \<subseteq>\<^sub>m kinds (sockets stack')"
  using assms by (auto simp: add_socket_def map_le_def dest!: add_kind split: prod.splits)

lemma dns_init_kinds:
  assumes "DnsResolver_init (stack_dns S) dns stack = (dns', stack')"
  shows "kinds (sockets stack) \<subseteq>\<^sub>m kinds (sockets stack')"
  using assms
  by (auto simp: DnsResolver_init_def stack_dns_def dest: add_socket_kinds(2) split: if_splits prod.splits)

lemma dns_resolve_kinds:
  assumes "DnsResolver_resolve (stack_dns S) name dns stack = (r, dns', stack')"
  shows "kinds (sockets stack) \<subseteq>\<^sub>m kinds (sockets stack')"
  using assms
  by (auto simp: DnsResolver_resolve_def stack_dns_def stack_start_dns_query_def Let_def dest!: query_kind
      split: option.splits prod.splits sum.splits StartQueryError.splits)

lemma cmd_dns_kinds:
  assumes "cmd_dns S name stack dns = (out, stack', dns')"
  shows "kinds (sockets stack) \<subseteq>\<^sub>m kinds (sockets stack')"
  using assms
  by (auto simp: cmd_dns_def dest!: dns_init_kinds dns_resolve_kinds intro: map_le_trans
      split: option.splits prod.splits if_splits)

lemma cmd_connect_ok:
  "\<exists>out stack'. cmd_connect S h port stack = Some (out, stack') \<and> kinds (sockets stack) \<subseteq>\<^sub>m kinds (sockets stack')"
proof (cases "parse_ipv4 h")
  case (Some a)
  obtain handle stack1 where stack1: "tcp_socket S stack = (handle, stack1)"
    by (cases "tcp_socket S stack")
  then have kinds1: "kinds (sockets stack1) handle = Some TcpKind" "kinds (sockets stack) \<subseteq>\<^sub>m kinds (sockets stack1)"
    using add_socket_kinds [of "TcpSpec TCP_RX_BUFFER_SIZE TCP_TX_BUFFER_SIZE" stack handle stack1] by (simp_all add: tcp_socket_def)
  obtain ok s' where "tcp_socket_connect S handle (a, port) (local_port_for a) (interface stack1) (sockets stack1) = Some (ok, s')"
      "kinds s' = kinds (sockets stack1)"
    using connect_kind [OF kinds1(1)] by blast
  with Some stack1 kinds1 show ?thesis
    by (simp add: cmd_connect_def tcp_connect_def with_sockets_def Let_def)
qed (simp add: cmd_connect_def)

lemma cmd_ping_ok:
  "\<exists>out stack'. cmd_ping S h stack = Some (out, stack') \<and> kinds (sockets stack) \<subseteq>\<^sub>m kinds (sockets stack')"
proof (cases "parse_ipv4 h")
  case (Some a)
  obtain handle stack1 where stack1: "icmp_socket S stack = (handle, stack1)"
    by (cases "icmp_socket S stack")
  then have kinds1: "kinds (sockets stack1) handle = Some IcmpKind" "kinds (sockets stack) \<subseteq>\<^sub>m kinds (sockets stack1)"
    using add_socket_kinds [of "IcmpSpec 4 1024 4 1024" stack handle stack1] by (simp_all add: icmp_socket_def)
  obtain e s' where "icmp_send_slice S handle (icmp_emit_echo S 0x1234 1 (replicate 8 0xFF)) a (sockets stack1) = Some (e, s')"
      "kinds s' = kinds (sockets stack1)"
    using send_kind [OF kinds1(1)] by blast
  with Some stack1 kinds1 show ?thesis
    by (simp add: cmd_ping_def with_sockets_def Let_def)
qed (simp add: cmd_ping_def)

lemma Command_execute_ok:
  assumes "dhcp_typed kinds (sh_dhcp st, sh_stack st)" "boot_files (root_fs (sh_kernel st))" "wasm_ok W"
  shows "\<exists>out st'. Command_execute S W c st = Some (out, st') \<and> dhcp_typed kinds (sh_dhcp st', sh_stack st')
    \<and> boot_files (root_fs (sh_kernel st'))"
proof (cases c)
  case (Dhcp action)
  then show ?thesis
    using renew_typed [OF assms(1)] assms(1,2)
    by (cases action) (auto simp: Command_execute_def cmd_dhcp_def)
next
  case (Dns name)
  then show ?thesis
    using typed_mono [OF assms(1) cmd_dns_kinds] assms(2)
    by (cases "cmd_dns S name (sh_stack st) (sh_dns st)") (simp add: Command_execute_def)
next
  case (Connect h port)
  then show ?thesis
    using cmd_connect_ok [of h port "sh_stack st"] typed_mono [OF assms(1)] assms(2)
    by (auto simp: Command_execute_def)
next
  case (Ping h)
  then show ?thesis
    using cmd_ping_ok [of h "sh_stack st"] typed_mono [OF assms(1)] assms(2)
    by (auto simp: Command_execute_def)
next
  case (WasmTest f)
  then show ?thesis
    using cmd_wasm_test_ok [of "engine_of W" "sh_kernel st" "host_of W" f] assms
    by (auto simp: Command_execute_def wasm_ok_def)
qed (use assms(1,2) in \<open>simp_all add: Command_execute_def\<close>)

end

section \<open>The tasks do not panic\<close>

definition main_wf ::
    "('s \<Rightarrow> 'h \<Rightarrow> SocketKind option) \<Rightarrow> ('h, 'qh, 'i, 's, 'n, 'q, 'a, 'd, 'k) main_state \<Rightarrow> bool" where
  "main_wf kinds m \<longleftrightarrow> terminal_wf (terminal m) \<and> (\<exists>ls. shows_log (screen m) ls)
     \<and> dhcp_typed kinds (sh_dhcp (shell m), sh_stack (shell m))"

text \<open>With the files of the kernel.\<close>

definition main_ok ::
    "('s \<Rightarrow> 'h \<Rightarrow> SocketKind option) \<Rightarrow> ('h, 'qh, 'i, 's, 'n, 'q, 'a, 'd, ('kq, 'kw) Kernel) main_state \<Rightarrow> bool" where
  "main_ok kinds m \<longleftrightarrow> main_wf kinds m \<and> boot_files (root_fs (sh_kernel (shell m)))"

lemma show_ops_wf:
  assumes "terminal_wf (terminal m)" "shows_log (screen m) ls" "dhcp_typed kinds (sh_dhcp (shell m), sh_stack (shell m))"
  shows "\<exists>m'. show_ops out m = Some m' \<and> main_wf kinds m' \<and> keyboard m' = keyboard m \<and> sh_kernel (shell m') = sh_kernel (shell m)"
  using show_ops_ok [OF assms(2), of out] assms(1,3) by (auto simp: main_wf_def)

lemma handle_terminal_key_ok:
  assumes "smoltcp_sockets (smoltcp_of E) kinds" "wasm_ok (wasm_of E)" "main_ok kinds m"
  shows "\<exists>m'. handle_terminal_key E key m = Some m' \<and> main_ok kinds m'"
proof -
  obtain ls where m: "terminal_wf (terminal m)" "shows_log (screen m) ls"
      "dhcp_typed kinds (sh_dhcp (shell m), sh_stack (shell m))" "boot_files (root_fs (sh_kernel (shell m)))"
    using assms(3) by (auto simp: main_ok_def main_wf_def)
  obtain r t w ls1 where key: "handle_key key (terminal m) (screen m) = Some (r, t, w)" "terminal_wf t" "shows_log w ls1"
    by (rule handle_key_ok [OF m(1,2)])
  show ?thesis
  proof (cases r)
    case None
    with key m(3,4) show ?thesis
      by (auto simp: handle_terminal_key_def main_ok_def main_wf_def)
  next
    case (Some c)
    obtain out st where exec: "Command_execute (smoltcp_of E) (wasm_of E) c (shell m) = Some (out, st)"
        "dhcp_typed kinds (sh_dhcp st, sh_stack st)" "boot_files (root_fs (sh_kernel st))"
      using smoltcp_sockets.Command_execute_ok [OF assms(1) m(3,4) assms(2)] by blast
    let ?m = "m\<lparr>terminal := t, screen := w, shell := st\<rparr>"
    obtain w2 ls2 where "show_ops out ?m = Some (?m\<lparr>screen := w2\<rparr>)" "shows_log w2 ls2"
      using show_ops_ok [of ?m ls1 out] key(3) by auto
    moreover obtain w3 ls3 where "prompt w2 = Some w3" "shows_log w3 ls3"
      using prompt_ok [OF \<open>shows_log w2 ls2\<close>] by blast
    ultimately show ?thesis
      using Some key exec by (auto simp: handle_terminal_key_def main_ok_def main_wf_def)
  qed
qed

text \<open>The steps that handle no key leave keyboard and kernel alone.\<close>

lemma net_task_wf:
  assumes "smoltcp_sockets (smoltcp_of E) kinds" "main_wf kinds m"
  shows "\<exists>m'. net_task E m = Some m' \<and> main_wf kinds m' \<and> keyboard m' = keyboard m \<and> sh_kernel (shell m') = sh_kernel (shell m)"
proof -
  let ?stack = "NetworkStack_poll (smoltcp_of E) (now (tick m)) (sh_stack (shell m))"
  obtain out stack where icmp: "check_icmp (smoltcp_of E) ?stack = (out, stack)"
    by (cases "check_icmp (smoltcp_of E) ?stack")
  then have "kinds (sockets stack) = kinds (sockets (sh_stack (shell m)))"
    using smoltcp_sockets.check_icmp_kinds [OF assms(1), of ?stack] smoltcp_sockets.poll_keeps_kinds [OF assms(1)] by simp
  then show ?thesis
    using show_ops_wf [of "set_stack stack (tick m)" _ kinds out] icmp assms(2)
    by (auto simp: net_task_def main_wf_def set_stack_def tick_def dhcp_typed_def Let_def)
qed

lemma dhcp_task_wf:
  assumes "smoltcp_sockets (smoltcp_of E) kinds" "main_wf kinds m"
  shows "\<exists>m'. dhcp_task E m = Some m' \<and> main_wf kinds m' \<and> keyboard m' = keyboard m \<and> sh_kernel (shell m') = sh_kernel (shell m)"
proof -
  obtain ls where m: "terminal_wf (terminal m)" "shows_log (screen m) ls"
      "dhcp_typed kinds (sh_dhcp (shell m), sh_stack (shell m))"
    using assms(2) by (auto simp: main_wf_def)
  obtain e out c stack where poll: "DhcpClient_poll (smoltcp_of E) (now m) (sh_dhcp (shell m)) (sh_stack (shell m)) = Some (e, out, c, stack)"
      "dhcp_typed kinds (c, stack)"
    using smoltcp_sockets.client_poll_typed [OF assms(1) m(3)] by blast
  show ?thesis
  proof (cases e)
    case None
    with poll show ?thesis
      using show_ops_wf [of "m\<lparr>shell := shell m\<lparr>sh_dhcp := c, sh_stack := stack\<rparr>\<rparr>" ls kinds out] m
      by (simp add: dhcp_task_def)
  next
    case (Some ev)
    obtain out' dns stack' where event: "handle_dhcp_event (smoltcp_of E) ev (sh_dns (shell m)) stack = (out', dns, stack')"
      by (cases "handle_dhcp_event (smoltcp_of E) ev (sh_dns (shell m)) stack")
    then have "kinds (sockets stack) \<subseteq>\<^sub>m kinds (sockets stack')"
      using smoltcp_sockets.dns_init_kinds [OF assms(1)]
      by (auto simp: handle_dhcp_event_def split: DhcpEvent.splits)
    then have "dhcp_typed kinds (c, stack')"
      by (rule typed_mono [OF poll(2)])
    with poll Some event show ?thesis
      using show_ops_wf [of "m\<lparr>shell := shell m\<lparr>sh_dhcp := c, sh_dns := dns, sh_stack := stack'\<rparr>\<rparr>" ls kinds "out @ out'"] m
      by (simp add: dhcp_task_def)
  qed
qed

lemma terminal_start_wf:
  assumes "main_wf kinds m"
  shows "\<exists>m'. terminal_start m = Some m' \<and> main_wf kinds m' \<and> keyboard m' = keyboard m \<and> sh_kernel (shell m') = sh_kernel (shell m)"
proof -
  obtain ls where "shows_log (screen m) ls"
    using assms by (auto simp: main_wf_def)
  from prompt_ok [OF this] assms show ?thesis
    by (auto simp: terminal_start_def main_wf_def)
qed

lemma terminal_task_ok:
  assumes "smoltcp_sockets (smoltcp_of E) kinds" "wasm_ok (wasm_of E)" "main_ok kinds m"
  shows "\<exists>m'. terminal_task E m = Some m' \<and> main_ok kinds m'"
proof -
  have "main_ok kinds (m\<lparr>keyboard := kb\<rparr>)" "main_ok kinds (m\<lparr>keyboard := kb, decoder := d\<rparr>)" for kb d
    using assms(3) by (simp_all add: main_ok_def main_wf_def)
  then show ?thesis
    using handle_terminal_key_ok [OF assms(1,2)]
    by (auto simp: terminal_task_def split: prod.split option.split)
qed

lemma main_step_ok:
  assumes "smoltcp_sockets (smoltcp_of E) kinds" "wasm_ok (wasm_of E)" "main_ok kinds m"
  shows "\<exists>m'. main_step E op m = Some m' \<and> main_ok kinds m'"
proof -
  have m: "main_wf kinds m" "boot_files (root_fs (sh_kernel (shell m)))"
    using assms(3) by (simp_all add: main_ok_def)
  show ?thesis
    using net_task_wf [OF assms(1) m(1)] dhcp_task_wf [OF assms(1) m(1)] terminal_task_ok [OF assms]
      terminal_start_wf [OF m(1)] m
    by (cases op) (auto simp: keyboard_interrupt_handler_def main_ok_def main_wf_def)
qed

lemma main_run_ok:
  assumes "smoltcp_sockets (smoltcp_of E) kinds" "wasm_ok (wasm_of E)" "main_ok kinds m"
  shows "\<exists>m'. main_run E ops m = Some m' \<and> main_ok kinds m'"
  unfolding main_run_def
  by (rule fold_option_total [where P = "main_ok kinds", OF assms(3) main_step_ok [OF assms(1,2)]])

text \<open>As long as nobody has made a stream of scancodes, no key reaches the terminal and no command is executed.\<close>

lemma main_step_quiet:
  assumes "smoltcp_sockets (smoltcp_of E) kinds" "main_wf kinds m \<and> SCANCODE_QUEUE (keyboard m) = None"
  shows "\<exists>m'. main_step E op m = Some m' \<and> main_wf kinds m' \<and> SCANCODE_QUEUE (keyboard m') = None"
proof -
  have m: "main_wf kinds m"
    using assms(2) by simp
  show ?thesis
    using net_task_wf [OF assms(1) m] dhcp_task_wf [OF assms(1) m] terminal_start_wf [OF m] assms(2)
    by (cases op) (auto simp: terminal_task_def get_scancode_def keyboard_interrupt_handler_def add_scancode_def main_wf_def)
qed

lemma main_run_quiet:
  assumes "smoltcp_sockets (smoltcp_of E) kinds" "main_wf kinds m" "SCANCODE_QUEUE (keyboard m) = None"
  shows "\<exists>m'. main_run E ops m = Some m' \<and> main_wf kinds m' \<and> SCANCODE_QUEUE (keyboard m') = None"
  unfolding main_run_def
  by (rule fold_option_total [where P = "\<lambda>m. main_wf kinds m \<and> SCANCODE_QUEUE (keyboard m) = None",
        OF _ main_step_quiet [OF assms(1)]]) (simp add: assms(2,3))

section \<open>Booting does not panic\<close>

lemma clear_then_shows:
  assumes "buffer_wf (buffer w)"
  shows "\<exists>w' ls'. run_console (ClearScreen # out) w = Some w' \<and> shows_log w' ls'"
proof -
  obtain w1 where w1: "clear_screen w = Some w1" "shows_log w1 [[]]"
    using clear_screen_shows [OF assms] by blast
  with run_console_shows [OF w1(2), of out] show ?thesis
    by (auto simp: run_console_def)
qed

lemma dhcp_stack_new:
  "NetworkStack_new S dev NetConfig_dhcp n =
     Some \<lparr>stack_device = dev, stack_hw = n, interface = iface_new S (device_mac dev), sockets = sockets_new S MAX_SOCKETS,
       net_config = NetConfig_dhcp, servers = []\<rparr>"
  by (simp add: NetworkStack_new_def NetConfig_dhcp_def)

definition boot_stack ::
    "('h, 'qh, 'i, 's, 'n) smoltcp_ops \<Rightarrow> NetworkDevice \<Rightarrow> 'n \<Rightarrow> ('i, 's, 'n) NetworkStack" where
  "boot_stack S dev n = snd (add_socket S DhcpSpec (the (NetworkStack_new S dev NetConfig_dhcp n)))"

lemma boot_network_eq:
  assumes "shows_log w ls"
  shows "\<exists>w' ls'. boot_network S t dev n w = Some (boot_stack S dev n, DhcpClient_new, DnsResolver_new, w') \<and> shows_log w' ls'"
proof -
  obtain w1 ls1 where w1: "run_console (boot_log StatusOk ''Network stack initialized'') w = Some w1" "shows_log w1 ls1"
    using run_console_shows [OF assms] by blast
  obtain w2 ls2 where w2: "run_console (boot_log StatusInfo ''DHCP discovery started...'') w1 = Some w2" "shows_log w2 ls2"
    using run_console_shows [OF w1(2)] by blast
  show ?thesis
    using w1(1) w2
    by (auto simp: boot_network_def boot_stack_def dhcp_stack_new DhcpClient_start_def split_def Let_def)
qed

lemma boot_network_cases:
  assumes "boot_network S t dev n w = Some (stack, dhcp, dns, w')"
  shows "stack = boot_stack S dev n \<and> dhcp = DhcpClient_new \<and> dns = DnsResolver_new"
  using assms
  by (auto simp: boot_network_def boot_stack_def dhcp_stack_new DhcpClient_start_def split_def Let_def bind_eq_Some_conv)

lemma new_client_typed: "dhcp_typed kinds (DhcpClient_new, stack)"
  by (simp add: dhcp_typed_def DhcpClient_new_def)

text \<open>The state that booting leads to, up to what is on the screen.\<close>

lemma kernel_boot_cases:
  assumes "kernel_boot B E mm off mapper n i w d k = Some m"
  obtains dev n' w' c where "NetworkDevice_probe (nic_of B) off n = Some (dev, n')"
    "m = \<lparr>shell = \<lparr>sh_stack = boot_stack (smoltcp_of E) dev n', sh_dhcp = DhcpClient_new, sh_dns = DnsResolver_new,
            sh_kernel = k\<lparr>root_fs := RamFs_add_file (root_fs k) ''hello.wasm'' WASM_MAGIC, next_cap_index := c\<rparr>\<rparr>,
          terminal = Terminal_new, screen = w', TICK_COUNT = 0, keyboard = Keyboard_init (waker_of E), decoder = d\<rparr>"
  using assms
  by (auto simp: kernel_boot_def Let_def bind_eq_Some_conv dest!: boot_network_cases)

lemma kernel_boot_ok:
  assumes "page_mapper (map_to_of B) translate huge" "map_ok mm" "length (frames mm) < 2 ^ 64" "1024 \<le> length (frames mm)"
    and "\<forall>i < 256. translate mapper (HEAP_START + 4096 * i) = None \<and> \<not> huge mapper (HEAP_START + 4096 * i)"
    and "NetworkDevice_probe (nic_of B) off n = Some (dev, n')" "buffer_wf (buffer w)"
  shows "\<exists>m ls. kernel_boot B E mm off mapper n i w d k = Some m \<and> shows_log (screen m) ls"
proof -
  obtain mapper' a' where heap: "init_heap (map_to_of B) allocate_frame (mapper, BootInfoFrameAllocator_init mm)
      = Some (Inr (HEAP_START, HEAP_SIZE), mapper', a')"
    using page_mapper.init_heap_succeeds [OF assms(1-5)] by blast
  obtain out where tests: "run_all (i, next_cap_index k) = Some (out, i + 1, next_cap_index k + 2)"
    using run_all_passes by blast
  obtain w1 ls1 where w1: "run_console boot_lines_core w = Some w1" "shows_log w1 ls1"
    using clear_then_shows [OF assms(7), of "tl boot_lines_core"] by (auto simp: boot_lines_core_def)
  obtain w2 ls2 where w2: "run_console boot_lines_fs w1 = Some w2" "shows_log w2 ls2"
    using run_console_shows [OF w1(2)] by blast
  obtain w3 ls3 where w3: "run_console (out @ boot_log StatusOk ''Kernel self-tests passed'' @ log_section ''Network'') w2 = Some w3"
      "shows_log w3 ls3"
    using run_console_shows [OF w2(2)] by blast
  obtain w4 ls4 where w4: "run_console (boot_lines_device dev) w3 = Some w4" "shows_log w4 ls4"
    using run_console_shows [OF w3(2)] by blast
  obtain w5 ls5 where w5: "boot_network (smoltcp_of E) 0 dev n' w4
      = Some (boot_stack (smoltcp_of E) dev n', DhcpClient_new, DnsResolver_new, w5)" "shows_log w5 ls5"
    using boot_network_eq [OF w4(2), of "smoltcp_of E" 0 dev n'] by blast
  obtain w6 ls6 where w6: "run_console boot_lines_services w5 = Some w6" "shows_log w6 ls6"
    using run_console_shows [OF w5(2)] by blast
  show ?thesis
    using w6(2) by (auto simp: kernel_boot_def expect_def heap tests assms(6) w1(1) w2(1) w3(1) w4(1) w5(1) w6(1))
qed

lemma kernel_boot_wf:
  assumes "kernel_boot B E mm off mapper n i w d k = Some m" "shows_log (screen m) ls"
  shows "main_wf kinds m" "SCANCODE_QUEUE (keyboard m) = None" "root_fs k = RamFs_new \<Longrightarrow> main_ok kinds m"
proof -
  show wf: "main_wf kinds m" "SCANCODE_QUEUE (keyboard m) = None"
    by (rule kernel_boot_cases [OF assms(1)];
      use assms(2) new_client_typed Terminal_new_wf in \<open>auto simp: main_wf_def Keyboard_init_def\<close>)+
  show "main_ok kinds m" if "root_fs k = RamFs_new"
    by (rule kernel_boot_cases [OF assms(1)]) (use wf boot_files_add that in \<open>auto simp: main_ok_def\<close>)
qed

text \<open>What boot leaves on the screen is a log, whatever was there before.\<close>

lemma kernel_boot_shows:
  assumes "kernel_boot B E mm off mapper n i w d k = Some m" "buffer_wf (buffer w)"
  shows "\<exists>ls. shows_log (screen m) ls"
proof -
  have printed: "shows_log w1 ls1 \<Longrightarrow> run_console out w1 = Some w2 \<Longrightarrow> \<exists>ls2. shows_log w2 ls2" for w1 w2 ls1 out
    using run_console_shows [of w1 ls1 out] by auto
  have network: "shows_log w1 ls1 \<Longrightarrow> boot_network S t dev n w1 = Some (stack, dhcp, dns, w2) \<Longrightarrow> \<exists>ls2. shows_log w2 ls2"
    for w1 w2 ls1 S t dev n stack dhcp dns
    using boot_network_eq [of w1 ls1 S t dev n] by auto
  have core: "run_console boot_lines_core w = Some w1 \<Longrightarrow> \<exists>ls1. shows_log w1 ls1" for w1
    using clear_then_shows [OF assms(2), of "tl boot_lines_core"] by (auto simp: boot_lines_core_def)
  show ?thesis
    using assms(1)
    by (auto simp: kernel_boot_def Let_def bind_eq_Some_conv dest!: core) (blast dest: printed network)
qed

section \<open>The network stays idle\<close>

definition net_idle :: "('h, 'qh, 'i, 's, 'n) smoltcp_ops \<Rightarrow> ('h, 'qh, 'i, 's, 'n, 'k) shell_state \<Rightarrow> bool" where
  "net_idle S st \<longleftrightarrow> sh_dhcp st = DhcpClient_new \<and> sh_dns st = DnsResolver_new
     \<and> ip_addrs S (interface (sh_stack st)) = [] \<and> servers (sh_stack st) = []"

lemma idle_resolver:
  "servers stack = [] \<Longrightarrow> DnsResolver_init (stack_dns S) DnsResolver_new stack = (DnsResolver_new, stack)"
  by (simp add: DnsResolver_init_def stack_dns_def)

lemma cmd_dns_idle:
  "servers stack = [] \<Longrightarrow> \<exists>out. cmd_dns S name stack DnsResolver_new = (out, stack, DnsResolver_new)"
  by (simp add: cmd_dns_def idle_resolver is_ready_def split: option.split) (simp add: DnsResolver_new_def)

lemma Command_execute_idle:
  assumes "net_idle S st" "Command_execute S W c st = Some (out, st')"
  shows "net_idle S st'"
proof (cases c)
  case (Dhcp action)
  with assms show ?thesis
    by (cases action)
      (auto simp: Command_execute_def cmd_dhcp_def net_idle_def DhcpClient_renew_def DhcpClient_new_def)
next
  case (Dns name)
  with assms show ?thesis
    using cmd_dns_idle [of "sh_stack st" S name] by (auto simp: Command_execute_def net_idle_def)
next
  case (Connect h port)
  with assms show ?thesis
    using stack_frame(1,3) [of S "TcpSpec TCP_RX_BUFFER_SIZE TCP_TX_BUFFER_SIZE" "sh_stack st"]
    by (auto simp: Command_execute_def cmd_connect_def tcp_socket_def tcp_connect_def with_sockets_def Let_def net_idle_def
        split: option.splits prod.splits)
next
  case (Ping h)
  with assms show ?thesis
    using stack_frame(1,3) [of S "IcmpSpec 4 1024 4 1024" "sh_stack st"]
    by (auto simp: Command_execute_def cmd_ping_def icmp_socket_def with_sockets_def Let_def net_idle_def
        split: option.splits prod.splits)
qed (use assms in \<open>auto simp: Command_execute_def net_idle_def\<close>)

lemma show_ops_shell: "show_ops out m = Some m' \<Longrightarrow> shell m' = shell m"
  by (auto simp: show_ops_def)

lemma main_step_idle:
  assumes "smoltcp (smoltcp_of E)" "net_idle (smoltcp_of E) (shell m)" "main_step E op m = Some m'"
  shows "net_idle (smoltcp_of E) (shell m')"
proof (cases op)
  case NetTask
  let ?stack = "NetworkStack_poll (smoltcp_of E) (now (tick m)) (sh_stack (shell m))"
  obtain out stack where icmp: "check_icmp (smoltcp_of E) ?stack = (out, stack)"
    by (cases "check_icmp (smoltcp_of E) ?stack")
  then have "interface stack = interface ?stack" "servers stack = servers ?stack"
    using stack_frame(4,6) [of "smoltcp_of E" ?stack] by simp_all
  with NetTask icmp assms(2,3) show ?thesis
    by (auto simp: net_task_def set_stack_def net_idle_def tick_def Let_def smoltcp.poll_keeps_addrs [OF assms(1)]
        frame_simps dest!: show_ops_shell)
next
  case DhcpTask
  with assms(2,3) show ?thesis
    by (auto simp: dhcp_task_def DhcpClient_poll_def net_idle_def DhcpClient_new_def dest!: show_ops_shell)
next
  case TerminalStart
  with assms(2,3) show ?thesis
    by (auto simp: terminal_start_def)
next
  case TerminalTask
  with assms(2,3) show ?thesis
    by (auto simp: terminal_task_def handle_terminal_key_def Let_def dest!: show_ops_shell
        intro: Command_execute_idle split: prod.splits option.splits)
next
  case (KeyboardInterrupt c)
  with assms(2,3) show ?thesis
    by (auto simp: keyboard_interrupt_handler_def)
qed

lemma main_run_idle:
  assumes "smoltcp (smoltcp_of E)" "net_idle (smoltcp_of E) (shell m)" "main_run E ops m = Some m'"
  shows "net_idle (smoltcp_of E) (shell m')"
  using assms(2,3) unfolding main_run_def
  by (rule fold_option_invariant [where P = "\<lambda>m. net_idle (smoltcp_of E) (shell m)"]) (rule main_step_idle [OF assms(1)])

section \<open>A machine without a network card\<close>

definition no_nic :: "unit nic_env" where
  "no_nic = \<lparr>mmio_read = (\<lambda>a n. (0, n)), mmio_write = (\<lambda>a v n. n),
     pci_ports = \<lparr>port_out32 = (\<lambda>p v h. h), port_in32 = (\<lambda>p h. (0xFFFFFFFF, h))\<rparr>, box_alloc = (\<lambda>size n. (None, n))\<rparr>"

definition demo_boot_env :: "((nat \<Rightarrow> nat option) \<times> nat set, unit) boot_env" where
  "demo_boot_env = \<lparr>map_to_of = sim_map_to, nic_of = no_nic\<rparr>"

definition demo_wasm_env ::
    "(u8 list Caller, u8 list, host_call list, nat \<times> host_call list, u8 list, str, nat \<times> nat list, nat, u8 list) wasm_env" where
  "demo_wasm_env = \<lparr>engine_of = file_ops demo_env demo_memory (\<lambda>_ _. None), host_of = demo_env\<rparr>"

definition demo_main_env ::
    "(nat, unit, IpCidr list \<times> Ipv4Address list, sim_sockets, unit, nat \<times> u8 list, nat option, nat, unit, u8,
      (u8 list Caller, u8 list, host_call list, nat \<times> host_call list, u8 list, str, nat \<times> nat list, nat, u8 list) wasm_env) main_env" where
  "demo_main_env =
     \<lparr>smoltcp_of = sim_smoltcp [SocketConfigured demo_lease], wasm_of = demo_wasm_env,
      scancodes_of = list_queue_ops, waker_of = option_waker_ops,
      decoder_of = \<lparr>add_byte = (\<lambda>c d. (Some c, d)), process_keyevent = (\<lambda>c d. (Some (Unicode (unat c)), d))\<rparr>\<rparr>"

lemma demo_wasm_ok:
  "empty_module (engine_of demo_wasm_env)" "heap_fits (host_of demo_wasm_env) 0" "heap_fits (host_of demo_wasm_env) 8"
  by (simp_all add: demo_wasm_env_def demo_env_def fo.empty_module_axioms)

definition boot_kernel :: "(nat \<times> nat list, nat) Kernel" where
  "boot_kernel = demo_kernel\<lparr>root_fs := RamFs_new\<rparr>"

lemma no_nic_scan: "scan (pci_ports no_nic) callback y = y"
proof -
  have "scan_slot (pci_ports no_nic) callback bus device = (\<lambda>x. x)" for bus device
    by (auto simp: scan_slot_def PciDevice_read_def read_config_u16_def read_config_u32_def no_nic_def pci_constants Let_def)
  moreover have same: "fold (\<lambda>_ x. x) xs = (\<lambda>x. x)" for xs :: "nat list"
    by (induction xs) auto
  ultimately show ?thesis
    by (simp add: scan_def same del: upt_rec_numeral)
qed

lemma no_nic_probe: "NetworkDevice_probe no_nic off () = Some (Loopback QemuE1000_new, ())"
  by (simp add: NetworkDevice_probe_def E1000_probe_def find_e1000_def no_nic_scan)

lemma eight_mib_ok: "map_ok eight_mib" "length (frames eight_mib) = 2048"
  by (simp_all add: map_ok_def eight_mib_def frames_def FRAME_SIZE_def length_step_range [unfolded FRAME_SIZE_def])

lemma demo_boots:
  "\<exists>m. kernel_boot demo_boot_env demo_main_env eight_mib 0 (\<lambda>_. None, {}) () 100 cleared_writer () boot_kernel = Some m
     \<and> main_ok sim_kinds m"
proof -
  have "\<exists>m ls. kernel_boot demo_boot_env demo_main_env eight_mib 0 (\<lambda>_. None, {}) () 100 cleared_writer () boot_kernel = Some m
     \<and> shows_log (screen m) ls"
  proof (rule kernel_boot_ok [OF _ eight_mib_ok(1)])
    show "page_mapper (map_to_of demo_boot_env) fst (\<lambda>_ _. False)"
      by (simp add: demo_boot_env_def sm.page_mapper_axioms)
    show "NetworkDevice_probe (nic_of demo_boot_env) 0 () = Some (Loopback QemuE1000_new, ())"
      by (simp add: demo_boot_env_def no_nic_probe)
    show "buffer_wf (buffer cleared_writer)"
      using cleared_writer_shows by (simp add: shows_log_def)
  qed (simp_all add: eight_mib_ok)
  then show ?thesis
    using kernel_boot_wf(3) by (fastforce simp: boot_kernel_def)
qed

lemma demo_sockets: "smoltcp_sockets (smoltcp_of demo_main_env) sim_kinds" "wasm_of demo_main_env = demo_wasm_env"
  by (simp_all add: demo_main_env_def ss.smoltcp_sockets_axioms)

section \<open>Properties\<close>




text \<open>C32: The network is never configured. The DHCP client that is started at boot is replaced by a new one that
  nothing starts, so that after any steps of the tasks, with any keys and commands, and whatever a server offers,
  the client is idle, the interface has no address, there are no name servers and the resolver is not ready.\<close>

theorem network_never_configured:
  assumes "smoltcp (smoltcp_of E)" "kernel_boot B E mm off mapper n i w d k = Some m"
    and "main_run E ops (m\<lparr>keyboard := kb\<rparr>) = Some m'"
  shows "dhcp_state (sh_dhcp (shell m')) = DhcpIdle \<and> ip_address (smoltcp_of E) (sh_stack (shell m')) = None
    \<and> servers (sh_stack (shell m')) = [] \<and> \<not> is_ready (sh_dns (shell m'))
    \<and> Println ''Not configured'' \<in> set (cmd_ifconfig (smoltcp_of E) (sh_stack (shell m')) (sh_dhcp (shell m')))"
proof -
  obtain dev n' where m: "sh_stack (shell m) = boot_stack (smoltcp_of E) dev n'" "sh_dhcp (shell m) = DhcpClient_new"
      "sh_dns (shell m) = DnsResolver_new"
    using kernel_boot_cases [OF assms(2)] by (metis main_state.select_convs(1) shell_state.select_convs)
  have "ip_addrs (smoltcp_of E) (interface (boot_stack (smoltcp_of E) dev n')) = []"
      "servers (boot_stack (smoltcp_of E) dev n') = []"
    by (simp_all add: boot_stack_def dhcp_stack_new frame_simps smoltcp.new_addrs [OF assms(1)])
  then have "net_idle (smoltcp_of E) (shell (m\<lparr>keyboard := kb\<rparr>))"
    by (simp add: net_idle_def m)
  from main_run_idle [OF assms(1) this assms(3)] show ?thesis
    by (simp add: net_idle_def ip_address_def cmd_ifconfig_def is_ready_def) (simp add: DhcpClient_new_def DnsResolver_new_def)
qed

theorem network_never_configured_witness:
  "\<exists>m m'. kernel_boot demo_boot_env demo_main_env eight_mib 0 (\<lambda>_. None, {}) () 100 cleared_writer () boot_kernel = Some m
    \<and> main_run demo_main_env [NetTask, DhcpTask, NetTask, DhcpTask] m = Some m'
    \<and> ip_address (smoltcp_of demo_main_env) (sh_stack (shell m')) = None"
proof -
  obtain m where m: "kernel_boot demo_boot_env demo_main_env eight_mib 0 (\<lambda>_. None, {}) () 100 cleared_writer () boot_kernel = Some m"
      "main_ok sim_kinds m"
    using demo_boots by blast
  have "wasm_ok (wasm_of demo_main_env)"
    using demo_wasm_ok by (simp add: demo_sockets(2) wasm_ok_def)
  then obtain m' where m': "main_run demo_main_env [NetTask, DhcpTask, NetTask, DhcpTask] m = Some m'"
    using main_run_ok [OF demo_sockets(1) _ m(2)] by blast
  have smoltcp: "smoltcp (smoltcp_of demo_main_env)"
    using demo_sockets(1) by (simp add: smoltcp_sockets_def)
  from network_never_configured [OF smoltcp m(1), of _ "keyboard m"] m(1) m' show ?thesis
    by fastforce
qed

end
