(* ===== verification/Kernel_Run.thy ===== *)
theory Kernel_Run
  imports Kernel_Main Executor_Spec
begin

text \<open>
  The running kernel: the end of \<open>kernel_main\<close>, which spawns the network, DHCP and terminal tasks and runs the
  executor, on the executor of \<open>task/executor.rs\<close> and the loop bodies of \<open>main.rs\<close>. The future of a task is the
  async block it was made from and the \<open>YieldNow\<close> it awaits, if it has started; the rest of the kernel is the state
  of \<open>main.rs\<close> (\<open>None\<close> after a panic) and the number of polls so far. The scancodes that the keyboard sends before
  the poll number \<open>n\<close> are \<open>arr n\<close>; their interrupts may wake the waker that the scancode queue holds.
\<close>

section \<open>The tasks\<close>

datatype main_task = NetFuture | DhcpFuture | TerminalFuture

type_synonym main_future = "main_task \<times> YieldNow option"

text \<open>What precedes the loop of a task, and the body of the loop.\<close>

primrec task_start where
  "task_start NetFuture m = Some m"
| "task_start DhcpFuture m = Some m"
| "task_start TerminalFuture m = terminal_start m"

primrec task_body where
  "task_body E NetFuture m = net_task E m"
| "task_body E DhcpFuture m = dhcp_task E m"
| "task_body E TerminalFuture m = terminal_task E m"

text \<open>The keyboard interrupts that arrive while no task runs, with the wakers they wake.\<close>

fun keyboard_interrupts ::
    "('h, 'qh, 'i, 's, 'n, 'q, 'a, TaskWaker, 'd, 'e, 'x) main_env \<Rightarrow> u8 list
     \<Rightarrow> ('h, 'qh, 'i, 's, 'n, 'q, 'a, 'd, 'k) main_state
     \<Rightarrow> ('h, 'qh, 'i, 's, 'n, 'q, 'a, 'd, 'k) main_state \<times> TaskWaker list" where
  "keyboard_interrupts E [] m = (m, [])"
| "keyboard_interrupts E (c # cs) m =
     (case keyboard_interrupts E cs (keyboard_interrupt_handler E c m) of
        (m', ws) \<Rightarrow>
          (m', (case fst (add_scancode (scancodes_of E) (waker_of E) c (keyboard m)) of None \<Rightarrow> [] | Some wk \<Rightarrow> [wk]) @ ws))"

text \<open>A poll of one of the three futures. After a panic the processor halts and nothing runs.\<close>

definition kernel_poll ::
    "('h, 'qh, 'i, 's, 'n, 'q, 'a, TaskWaker, 'd, 'e, ('ws, 'wi, 'wf, 'wv, 'wm, 'we, 'kq, 'kw, 'm) wasm_env) main_env
     \<Rightarrow> (nat \<Rightarrow> u8 list)
     \<Rightarrow> (main_future, ('h, 'qh, 'i, 's, 'n, 'q, 'a, 'd, ('kq, 'kw) Kernel) main_state option \<times> nat) poll_fn" where
  "kernel_poll E arr wk f s =
     (case (f, s) of
        ((t, y), (None, n)) \<Rightarrow> (Pending, (t, y), (None, n), [])
      | ((t, y), (Some m, n)) \<Rightarrow>
          (case keyboard_interrupts E (arr n) m of
             (m, ws) \<Rightarrow>
               (case loop_poll (\<lambda>m. Option.bind m (task_body E t)) wk y (if y = None then task_start t m else Some m) of
                  (r, y', m', ws') \<Rightarrow> (r, (t, y'), (m', Suc n), ws @ ws'))))"

text \<open>The executor when \<open>run\<close> is called.\<close>

definition kernel_tasks :: "u64 \<Rightarrow> main_future Task list" where
  "kernel_tasks i0 =
     (let (t0, i1) = Task_new i0 (NetFuture, None);
          (t1, i2) = Task_new i1 (DhcpFuture, None);
          (t2, i3) = Task_new i2 (TerminalFuture, None)
      in [t0, t1, t2])"

definition kernel_executor :: "('rq, TaskId) queue_ops \<Rightarrow> u64 \<Rightarrow> (main_future, 'rq) Executor" where
  "kernel_executor RQ i0 = fold (\<lambda>t ex. fst (spawn RQ t ex)) (kernel_tasks i0) (Executor_new RQ)"

section \<open>The schedule\<close>

text \<open>The specification: poll number \<open>j\<close> is one of task \<open>j mod 3\<close>, after the interrupts that arrived.\<close>

definition turn :: "u64 \<Rightarrow> nat \<Rightarrow> TaskId" where
  "turn i0 j = i0 + of_nat (j mod 3)"

definition main_task_at :: "nat \<Rightarrow> main_task" where
  "main_task_at j = [NetFuture, DhcpFuture, TerminalFuture] ! (j mod 3)"

primrec task_op :: "main_task \<Rightarrow> main_op" where
  "task_op NetFuture = NetTask"
| "task_op DhcpFuture = DhcpTask"
| "task_op TerminalFuture = TerminalTask"

definition poll_ops :: "(nat \<Rightarrow> u8 list) \<Rightarrow> nat \<Rightarrow> main_op list" where
  "poll_ops arr j = map KeyboardInterrupt (arr j) @ (if j = 2 then [TerminalStart] else []) @ [task_op (main_task_at j)]"

definition kernel_ops :: "(nat \<Rightarrow> u8 list) \<Rightarrow> nat \<Rightarrow> main_op list" where
  "kernel_ops arr n = concat (map (poll_ops arr) [0..<n])"

lemma kernel_ops_Suc: "kernel_ops arr (Suc n) = kernel_ops arr n @ poll_ops arr n"
  by (simp add: kernel_ops_def)

lemma main_run_append: "main_run E (xs @ ys) m = Option.bind (main_run E xs m) (main_run E ys)"
  by (simp add: main_run_def [abs_def] fold_option_append)

lemma main_run_simps: "main_run E [] = Some" "main_run E [op] = main_step E op"
proof -
  show "main_run E [op] = main_step E op"
    by (rule ext) (simp add: main_run_def split: Option.bind_split)
qed (rule ext, simp add: main_run_def)

lemma task_body_op: "task_body E t m = main_step E (task_op t) m"
  by (cases t) simp_all

lemma task_start_op: "task_start t m = main_run E (if t = TerminalFuture then [TerminalStart] else []) m"
  by (cases t) (simp_all add: main_run_simps)

section \<open>The keyboard is dead\<close>

lemma dead_interrupts:
  "SCANCODE_QUEUE (keyboard m) = None \<Longrightarrow> keyboard_interrupts E cs m = (m, []) \<and> main_run E (map KeyboardInterrupt cs) m = Some m"
proof (induction cs)
  case (Cons c cs)
  then have "keyboard_interrupt_handler E c m = m"
    by (simp add: keyboard_interrupt_handler_def add_scancode_def)
  with Cons show ?case
    by (simp add: add_scancode_def main_run_def)
qed (simp add: main_run_def)

lemma show_ops_keyboard: "show_ops out m = Some m' \<Longrightarrow> keyboard m' = keyboard m"
  by (auto simp: show_ops_def)

lemma main_step_keyboard:
  assumes "SCANCODE_QUEUE (keyboard m) = None" "main_step E op m = Some m'"
  shows "SCANCODE_QUEUE (keyboard m') = None"
  using assms
  by (cases op)
    (auto simp: net_task_def dhcp_task_def terminal_start_def terminal_task_def keyboard_interrupt_handler_def
      get_scancode_def add_scancode_def set_stack_def tick_def Let_def dest!: show_ops_keyboard
      split: prod.splits option.splits)

lemma main_run_keyboard:
  assumes "SCANCODE_QUEUE (keyboard m) = None" "main_run E ops m = Some m'"
  shows "SCANCODE_QUEUE (keyboard m') = None"
  using assms unfolding main_run_def
  by (rule fold_option_invariant [where P = "\<lambda>m. SCANCODE_QUEUE (keyboard m) = None"]) (rule main_step_keyboard)

section \<open>One poll\<close>

text \<open>A task that has been polled awaits a \<open>YieldNow\<close> that is ready at the next poll.\<close>

definition awaits :: "nat \<Rightarrow> nat \<Rightarrow> YieldNow option" where
  "awaits n k = (if k < n then Some \<lparr>yielded = True\<rparr> else None)"

lemma kernel_poll_dead:
  assumes "SCANCODE_QUEUE (keyboard m) = None"
  shows "kernel_poll E arr wk (t, None) (Some m, n)
      = (Pending, (t, Some \<lparr>yielded = True\<rparr>), (Option.bind (task_start t m) (task_body E t), Suc n), [wk])"
    "kernel_poll E arr wk (t, Some \<lparr>yielded = True\<rparr>) (Some m, n)
      = (Pending, (t, Some \<lparr>yielded = True\<rparr>), (task_body E t m, Suc n), [wk])"
  using dead_interrupts [OF assms, of E "arr n"]
  by (simp_all add: kernel_poll_def loop_poll_def loop_body_def YieldNow_poll_def yield_now_def)

lemma main_task_at_start:
  assumes "n < 3"
  shows "(main_task_at n = TerminalFuture) = (n = 2)"
proof -
  consider "n = 0" | "n = 1" | "n = 2"
    using assms by linarith
  then show ?thesis
    by cases (simp_all add: main_task_at_def)
qed

lemma kernel_poll_eq:
  assumes "SCANCODE_QUEUE (keyboard m) = None"
  shows "kernel_poll E arr wk (main_task_at n, awaits n (n mod 3)) (Some m, n)
    = (Pending, (main_task_at n, Some \<lparr>yielded = True\<rparr>), (main_run E (poll_ops arr n) m, Suc n), [wk])"
proof -
  have ops: "main_run E (poll_ops arr n) m
      = Option.bind (main_run E (if n = 2 then [TerminalStart] else []) m) (task_body E (main_task_at n))"
    using dead_interrupts [OF assms, of E "arr n"]
    by (simp add: poll_ops_def main_run_append main_run_simps task_body_op [abs_def])
  show ?thesis
  proof (cases "n < 3")
    case True
    with ops show ?thesis
      by (simp add: kernel_poll_dead [OF assms] awaits_def task_start_op [where E = E] main_task_at_start)
  next
    case False
    then have "n mod 3 < n"
      using mod_less_divisor [of 3 n] by linarith
    with False ops show ?thesis
      by (simp add: kernel_poll_dead [OF assms] awaits_def main_run_simps)
  qed
qed

section \<open>The executor under the schedule\<close>

definition kernel_scheduled ::
    "('rq \<Rightarrow> TaskId list) \<Rightarrow> ('rq \<Rightarrow> nat) \<Rightarrow> u64 \<Rightarrow> nat \<Rightarrow> (main_future, 'rq) Executor \<Rightarrow> bool" where
  "kernel_scheduled items capacity i0 n ex \<longleftrightarrow>
     length (task_queues ex) = 4 \<and> capacity (task_queues ex ! 1) = Executor.QUEUE_CAPACITY
     \<and> queue_at items ex 1 = map (turn i0) [n..<n + 3] \<and> (\<forall>p \<in> {0, 2, 3}. queue_at items ex p = [])
     \<and> (\<forall>k < 3. \<exists>t. bt_get (tasks ex) (turn i0 k) = Some t \<and> task_future t = (main_task_at k, awaits n k))
     \<and> (\<forall>i wk. bt_get (waker_cache ex) i = Some wk \<longrightarrow> wk = TaskWaker_new i 1)"

text \<open>Along a run: after \<open>n\<close> polls the pass is at the queue of the three tasks or above it.\<close>

definition kernel_at ::
    "('rq \<Rightarrow> TaskId list) \<Rightarrow> ('rq \<Rightarrow> nat)
     \<Rightarrow> ('h, 'qh, 'i, 's, 'n, 'q, 'a, TaskWaker, 'd, 'e, ('ws, 'wi, 'wf, 'wv, 'wm, 'we, 'kq, 'kw, 'm) wasm_env) main_env
     \<Rightarrow> (nat \<Rightarrow> u8 list) \<Rightarrow> ('h, 'qh, 'i, 's, 'n, 'q, 'a, 'd, ('kq, 'kw) Kernel) main_state \<Rightarrow> u64 \<Rightarrow> nat
     \<Rightarrow> (main_future, 'rq) Executor \<times> (('h, 'qh, 'i, 's, 'n, 'q, 'a, 'd, ('kq, 'kw) Kernel) main_state option \<times> nat) \<times> nat \<Rightarrow> bool" where
  "kernel_at items capacity E arr m i0 n = (\<lambda>(ex, s, c). kernel_scheduled items capacity i0 n ex \<and> 2 \<le> c \<and> c \<le> 4
     \<and> s = (main_run E (kernel_ops arr n) m, n))"

lemma turn_mod: "turn i0 (n mod 3) = turn i0 n" "turn i0 (n + 3) = turn i0 n" "main_task_at (n mod 3) = main_task_at n"
  by (simp_all add: turn_def main_task_at_def)

lemma turn_inject:
  assumes "j < 3" "k < 3"
  shows "turn i0 j = turn i0 k \<longleftrightarrow> j = k"
proof -
  have "j = 0 \<or> j = 1 \<or> j = 2" "k = 0 \<or> k = 1 \<or> k = 2"
    using assms by linarith+
  then show ?thesis
    by (elim disjE) (simp_all add: turn_def)
qed

lemma awaits_other:
  assumes "k < 3" "k \<noteq> n mod 3"
  shows "awaits (Suc n) k = awaits n k"
  using assms by (cases "n < 3") (auto simp: awaits_def)

context run_queues
begin

lemma scheduled_pop:
  fixes ex :: "(main_future, 'q) Executor"
  assumes "kernel_scheduled items capacity i0 n ex" "pop_task Q 1 ex = (ex1, r)"
  shows "r = Some (turn i0 n)" "bt_contains_key (tasks ex1) (turn i0 n)"
    "queue_at items ex1 1 = map (turn i0) [Suc n..<n + 3]" "capacity (task_queues ex1 ! 1) = Executor.QUEUE_CAPACITY"
    "p \<noteq> 1 \<Longrightarrow> queue_at items ex1 p = queue_at items ex p"
proof -
  have q: "queue_at items ex 1 = turn i0 n # map (turn i0) [Suc n..<n + 3]"
    using assms(1) by (simp add: kernel_scheduled_def upt_conv_Cons)
  have "(1::nat) < length (task_queues ex)"
    using assms(1) by (simp add: kernel_scheduled_def)
  with assms(2) show "r = Some (turn i0 n)" "queue_at items ex1 1 = map (turn i0) [Suc n..<n + 3]"
      "capacity (task_queues ex1 ! 1) = Executor.QUEUE_CAPACITY" "p \<noteq> 1 \<Longrightarrow> queue_at items ex1 p = queue_at items ex p"
    by (cases rule: pop_task_cases; use q assms(1) in \<open>auto simp: kernel_scheduled_def queue_at_def\<close>)+
  have "n mod 3 < 3"
    by simp
  then obtain t where "bt_get (tasks ex) (turn i0 (n mod 3)) = Some t"
    using assms(1) unfolding kernel_scheduled_def by blast
  then show "bt_contains_key (tasks ex1) (turn i0 n)"
    by (simp add: pop_task_frame [OF assms(2)] bt_contains_key_def turn_mod)
qed

lemma scheduled_poll:
  fixes ex :: "(main_future, 'q) Executor"
  assumes sched: "kernel_scheduled items capacity i0 n ex" and pop: "pop_task Q 1 ex = (ex1, r)"
    and m: "SCANCODE_QUEUE (keyboard m) = None"
    and poll: "poll_task Q (kernel_poll E arr) 1 (turn i0 n) ex1 (Some m, n) = (ex2, s2)"
  shows "s2 = (main_run E (poll_ops arr n) m, Suc n) \<and> kernel_scheduled items capacity i0 (Suc n) ex2"
proof -
  note ex1 = scheduled_pop [OF sched pop] pop_task_frame [OF pop]
  have lt: "n mod 3 < 3"
    by simp
  then obtain t where t: "bt_get (tasks ex1) (turn i0 n) = Some t" "task_future t = (main_task_at n, awaits n (n mod 3))"
    using sched by (fastforce simp: kernel_scheduled_def ex1 turn_mod dest!: spec [where x = "n mod 3"])
  have wk: "cached_waker 1 (turn i0 n) ex1 = TaskWaker_new (turn i0 n) 1"
    using sched by (auto simp: cached_waker_def kernel_scheduled_def ex1 split: option.split)
  have polled: "kernel_poll E arr (cached_waker 1 (turn i0 n) ex1) (task_future t) (Some m, n)
      = (Pending, (main_task_at n, Some \<lparr>yielded = True\<rparr>), (main_run E (poll_ops arr n) m, Suc n), [TaskWaker_new (turn i0 n) 1])"
    using kernel_poll_eq [OF m, of E arr _ n] by (simp add: t(2) wk del: One_nat_def)
  have ex2: "s2 = (main_run E (poll_ops arr n) m, Suc n)"
      "task_queues ex2 = task_queues (wake_by_ref Q (TaskWaker_new (turn i0 n) 1) ex1)"
      "bt_get (tasks ex2) = (bt_get (tasks ex))(turn i0 n \<mapsto> t\<lparr>task_future := (main_task_at n, Some \<lparr>yielded = True\<rparr>)\<rparr>)"
      "bt_get (waker_cache ex2) = (bt_get (waker_cache ex))(turn i0 n \<mapsto> TaskWaker_new (turn i0 n) 1)"
    using poll_task_Some [OF t(1) polled poll] by (simp_all add: wk ex1 fun_upd_def del: One_nat_def)
  have len: "length (task_queues ex1) = 4"
    using sched by (simp add: kernel_scheduled_def ex1)
  have "queue_at items ex2 1 = map (turn i0) [Suc n..<n + 3] @ [turn i0 n] \<and> capacity (task_queues ex2 ! 1) = Executor.QUEUE_CAPACITY"
    by (rule wake_by_ref_cases [of 1 ex1 "TaskWaker_new (turn i0 n) 1"])
      (simp_all add: queue_at_def ex2(2) ex1(3,4) [unfolded queue_at_def] len TaskWaker_new_def Executor.QUEUE_CAPACITY_def
        del: One_nat_def)
  then have "queue_at items ex2 1 = map (turn i0) [Suc n..<Suc n + 3] \<and> capacity (task_queues ex2 ! 1) = Executor.QUEUE_CAPACITY"
    using upt_Suc_append [of "Suc n" "n + 3"] turn_mod(2) [of i0 n] by simp
  moreover have "queue_at items ex2 p = queue_at items ex p" if "p \<noteq> 1" for p
    using ex1(5) [OF that] that by (simp add: queue_at_def ex2(2) wake_by_ref_def TaskWaker_new_def)
  moreover have "\<exists>t. bt_get (tasks ex2) (turn i0 k) = Some t \<and> task_future t = (main_task_at k, awaits (Suc n) k)" if "k < 3" for k
  proof (cases "k = n mod 3")
    case True
    then show ?thesis
      by (simp add: ex2(3) turn_mod awaits_def mod_less_eq_dividend less_Suc_eq_le)
  next
    case False
    then have "turn i0 k \<noteq> turn i0 n"
      using turn_inject [OF that lt] by (simp add: turn_mod)
    with sched that awaits_other [OF that False] show ?thesis
      by (simp add: ex2(3) kernel_scheduled_def)
  qed
  ultimately show ?thesis
    using sched ex2(1,4) by (simp add: kernel_scheduled_def ex2(2) ex1 wake_by_ref_def)
qed

lemma kernel_at_poll:
  assumes st: "kernel_at items capacity E arr m i0 n (ex, s, 2)" and m: "SCANCODE_QUEUE (keyboard m) = None" "\<forall>ops. main_run E ops m \<noteq> None"
    and pop: "pop_task Q 1 ex = (ex1, r)" and poll: "poll_task Q (kernel_poll E arr) 1 (turn i0 n) ex1 s = (ex2, s2)"
  shows "kernel_at items capacity E arr m i0 (Suc n) (ex2, s2, 2)"
proof -
  obtain mn where mn: "main_run E (kernel_ops arr n) m = Some mn"
    using m(2) by (meson not_None_eq)
  then have s: "s = (Some mn, n)" "kernel_scheduled items capacity i0 n ex"
    using st by (simp_all add: kernel_at_def)
  have "s2 = (main_run E (poll_ops arr n) mn, Suc n) \<and> kernel_scheduled items capacity i0 (Suc n) ex2"
    using scheduled_poll [OF s(2) pop main_run_keyboard [OF m(1) mn]] poll s(1) by simp
  then show ?thesis
    by (simp add: kernel_at_def kernel_ops_Suc main_run_append mn)
qed

lemma scheduled_above:
  fixes ex :: "(main_future, 'q) Executor"
  assumes "kernel_scheduled items capacity i0 n ex" "pop_task Q p ex = (ex1, r)" "p = 2 \<or> p = 3"
  shows "r = None \<and> ex1 = ex"
proof -
  have "p < length (task_queues ex)" "queue_at items ex p = []"
    using assms(1,3) by (auto simp: kernel_scheduled_def)
  with assms(2) show ?thesis
    by (cases rule: pop_task_cases) simp_all
qed

lemma kernel_at_step:
  assumes st: "kernel_at items capacity E arr m i0 n (ex, s, c)"
    and m: "SCANCODE_QUEUE (keyboard m) = None" "\<forall>ops. main_run E ops m \<noteq> None"
    and step: "exec_step Q (kernel_poll E arr) {} (ex, s, c) e s'"
  shows "e = Polled (turn i0 n) \<and> kernel_at items capacity E arr m i0 (Suc n) s'
    \<or> e \<in> {NextQueue, Interrupt} \<and> kernel_at items capacity E arr m i0 n s'"
proof -
  have sched: "kernel_scheduled items capacity i0 n ex" and c: "c = Suc 1 \<or> c = Suc 2 \<or> c = Suc 3"
    using st by (auto simp: kernel_at_def)
  from step show ?thesis
  proof (cases rule: exec_step.cases)
    case (poll p ex1 i ex2 s2)
    then have p: "p = 1"
      using c scheduled_above [OF sched, of p] by auto
    have pop: "pop_task Q 1 ex = (ex1, Some i)" "poll_task Q (kernel_poll E arr) 1 i ex1 s = (ex2, s2)"
      using poll p by simp_all
    then have "i = turn i0 n"
      using scheduled_pop(1) [OF sched] by auto
    with poll p pop st kernel_at_poll [OF _ m pop(1), of arr i0 n s ex2 s2] show ?thesis
      by (simp add: numeral_2_eq_2)
  next
    case (skip p ex1 i)
    then have "p = 1"
      using c scheduled_above [OF sched, of p] by auto
    then show ?thesis
      using skip scheduled_pop(1,2) [OF sched, of ex1 "Some i"] by auto
  next
    case (next_queue p ex1)
    then have "p \<noteq> 1"
      using scheduled_pop(1) [OF sched, of ex1 None] by auto
    then have "p = 2 \<or> p = 3"
      using next_queue c by auto
    then show ?thesis
      using next_queue scheduled_above [OF sched, of p ex1 None] st by (auto simp: kernel_at_def)
  qed (use st in \<open>auto simp: kernel_at_def\<close>)
qed

lemma kernel_at_run:
  assumes "exec_run Q (kernel_poll E arr) {} st es st'" "kernel_at items capacity E arr m i0 n st"
    and m: "SCANCODE_QUEUE (keyboard m) = None" "\<forall>ops. main_run E ops m \<noteq> None"
  shows "kernel_at items capacity E arr m i0 (n + length (polled es)) st' \<and> (\<forall>b. Slept b \<notin> set es)
    \<and> polled es = map (turn i0) [n..<n + length (polled es)]"
  using assms(1,2)
proof (induction arbitrary: n rule: exec_run.induct)
  case (exec_nil st)
  then show ?case
    by (simp add: polled_def)
next
  case (exec_more st e st1 es st')
  obtain ex s c where st: "st = (ex, s, c)"
    by (cases st)
  from kernel_at_step [OF exec_more.prems [unfolded st] m exec_more.hyps(1) [unfolded st]]
  consider "e = Polled (turn i0 n)" "kernel_at items capacity E arr m i0 (Suc n) st1"
    | "e \<in> {NextQueue, Interrupt}" "kernel_at items capacity E arr m i0 n st1"
    by blast
  then show ?case
  proof cases
    case 1
    have "polled (e # es) = turn i0 n # polled es"
      by (simp add: polled_def 1)
    with exec_more.IH [OF 1(2)] show ?thesis
      by (simp add: 1(1) upt_conv_Cons [of n "Suc (n + length (polled es))"] del: upt_Suc)
  next
    case 2
    then have "polled (e # es) = polled es" "\<forall>b. Slept b \<noteq> e"
      by (auto simp: polled_def)
    with exec_more.IH [OF 2(2)] show ?thesis
      by simp
  qed
qed

lemma kernel_at_next:
  assumes "kernel_at items capacity E arr m i0 n st"
  shows "\<exists>es st'. exec_run Q (kernel_poll E arr) {} st es st' \<and> length (polled es) = 1"
proof -
  obtain ex s c where st: "st = (ex, s, c)" "kernel_scheduled items capacity i0 n ex" "c = 2 \<or> c = 3 \<or> c = 4"
    using assms by (cases st) (force simp: kernel_at_def)
  have above: "exec_step Q (kernel_poll E arr) {} (ex, s, Suc p) NextQueue (ex, s, p)" if "p = 2 \<or> p = 3" for p
  proof (cases "pop_task Q p ex")
    case (Pair ex1 r)
    with scheduled_above [OF st(2) Pair that] show ?thesis
      by (simp add: exec_step.next_queue)
  qed
  obtain ex1 r where pop: "pop_task Q 1 ex = (ex1, r)"
    by (cases "pop_task Q 1 ex")
  obtain ex2 s2 where poll: "poll_task Q (kernel_poll E arr) 1 (turn i0 n) ex1 s = (ex2, s2)"
    by (cases "poll_task Q (kernel_poll E arr) 1 (turn i0 n) ex1 s")
  have "exec_step Q (kernel_poll E arr) {} (ex, s, Suc 1) (Polled (turn i0 n)) (ex2, s2, Suc 1)"
    using scheduled_pop(1,2) [OF st(2) pop] by (intro exec_step.poll [OF _ _ poll]) (simp_all add: pop del: One_nat_def)
  then have run: "exec_run Q (kernel_poll E arr) {} (ex, s, 2) [Polled (turn i0 n)] (ex2, s2, 2)"
    by (auto simp: numeral_2_eq_2 intro: exec_run.intros)
  have run3: "exec_run Q (kernel_poll E arr) {} (ex, s, 3) [NextQueue, Polled (turn i0 n)] (ex2, s2, 2)"
    using exec_run.exec_more [OF above [of 2] run] by simp
  have run4: "exec_run Q (kernel_poll E arr) {} (ex, s, 4) [NextQueue, NextQueue, Polled (turn i0 n)] (ex2, s2, 2)"
    using exec_run.exec_more [OF above [of 3] run3] by simp
  have "length (polled [Polled (turn i0 n)]) = 1" "length (polled [NextQueue, Polled (turn i0 n)]) = 1"
      "length (polled [NextQueue, NextQueue, Polled (turn i0 n)]) = 1"
    by (simp_all add: polled_def)
  then show ?thesis
    using st(1,3) run run3 run4 by metis
qed

lemma polled_append: "polled (es @ es') = polled es @ polled es'"
  by (simp add: polled_def)

lemma kernel_at_progress:
  assumes "kernel_at items capacity E arr m i0 0 st"
    and m: "SCANCODE_QUEUE (keyboard m) = None" "\<forall>ops. main_run E ops m \<noteq> None"
  shows "\<exists>es st'. exec_run Q (kernel_poll E arr) {} st es st' \<and> length (polled es) = N"
proof (induction N)
  case 0
  show ?case
    by (intro exI [of _ "[]"] exI [of _ st] conjI exec_run.exec_nil) (simp add: polled_def)
next
  case (Suc N)
  then obtain es st' where es: "exec_run Q (kernel_poll E arr) {} st es st'" "length (polled es) = N"
    by blast
  then have "kernel_at items capacity E arr m i0 N st'"
    using kernel_at_run [OF es(1) assms(1) m] by simp
  from kernel_at_next [OF this] obtain es' st'' where "exec_run Q (kernel_poll E arr) {} st' es' st''" "length (polled es') = 1"
    by blast
  with es exec_run_append [OF es(1)] show ?case
    by (intro exI [of _ "es @ es'"] exI [of _ st'']) (simp add: polled_append)
qed

lemma spawn_normal:
  fixes ex :: "('f, 'q) Executor"
  assumes "length (task_queues ex) = 4" "capacity (task_queues ex ! 1) = Executor.QUEUE_CAPACITY" "length (queue_at items ex 1) < 3"
    and "\<not> bt_contains_key (tasks ex) (task_id t)" "task_priority t = Normal"
  shows "bt_get (tasks (fst (spawn Q t ex))) = (bt_get (tasks ex))(task_id t \<mapsto> t)"
    "queue_at items (fst (spawn Q t ex)) 1 = queue_at items ex 1 @ [task_id t]"
    "p \<noteq> 1 \<Longrightarrow> queue_at items (fst (spawn Q t ex)) p = queue_at items ex p"
    "capacity (task_queues (fst (spawn Q t ex)) ! 1) = Executor.QUEUE_CAPACITY"
    "length (task_queues (fst (spawn Q t ex))) = 4" "waker_cache (fst (spawn Q t ex)) = waker_cache ex"
proof -
  obtain ex' msg where sp: "spawn Q t ex = (ex', msg)"
    by (cases "spawn Q t ex")
  show "bt_get (tasks (fst (spawn Q t ex))) = (bt_get (tasks ex))(task_id t \<mapsto> t)"
    "queue_at items (fst (spawn Q t ex)) 1 = queue_at items ex 1 @ [task_id t]"
    "p \<noteq> 1 \<Longrightarrow> queue_at items (fst (spawn Q t ex)) p = queue_at items ex p"
    "capacity (task_queues (fst (spawn Q t ex)) ! 1) = Executor.QUEUE_CAPACITY"
    "length (task_queues (fst (spawn Q t ex))) = 4" "waker_cache (fst (spawn Q t ex)) = waker_cache ex"
    using assms by (auto intro: spawn_cases [OF sp assms(1)] simp: sp queue_at_def Executor.QUEUE_CAPACITY_def)
qed

end

section \<open>The executor that is run\<close>

definition spawned_task :: "u64 \<Rightarrow> nat \<Rightarrow> main_future Task" where
  "spawned_task i0 k = \<lparr>task_id = turn i0 k, task_priority = Normal, task_future = (main_task_at k, None)\<rparr>"

definition kernel_spawned ::
    "('rq \<Rightarrow> TaskId list) \<Rightarrow> ('rq \<Rightarrow> nat) \<Rightarrow> u64 \<Rightarrow> nat \<Rightarrow> (main_future, 'rq) Executor \<Rightarrow> bool" where
  "kernel_spawned items capacity i0 n ex \<longleftrightarrow>
     length (task_queues ex) = 4 \<and> capacity (task_queues ex ! 1) = Executor.QUEUE_CAPACITY
     \<and> queue_at items ex 1 = map (turn i0) [0..<n] \<and> (\<forall>p \<in> {0, 2, 3}. queue_at items ex p = [])
     \<and> (\<forall>k < 3. bt_get (tasks ex) (turn i0 k) = (if k < n then Some (spawned_task i0 k) else None)) \<and> waker_cache ex = []"

lemma kernel_tasks_eval: "kernel_tasks i0 = map (spawned_task i0) [0, 1, 2]"
  by (simp add: kernel_tasks_def spawned_task_def Task_new_def Task_with_priority_def TaskId_new_def fetch_add_one_def
      turn_def main_task_at_def)

context run_queues
begin

lemma kernel_spawned_next:
  assumes "kernel_spawned items capacity i0 n ex" "n < 3"
  shows "kernel_spawned items capacity i0 (Suc n) (fst (spawn Q (spawned_task i0 n) ex))"
proof -
  have "\<not> bt_contains_key (tasks ex) (task_id (spawned_task i0 n))" "length (queue_at items ex 1) < 3"
    using assms by (simp_all add: kernel_spawned_def spawned_task_def bt_contains_key_def)
  then have sp: "bt_get (tasks (fst (spawn Q (spawned_task i0 n) ex))) = (bt_get (tasks ex))(turn i0 n \<mapsto> spawned_task i0 n)"
      "queue_at items (fst (spawn Q (spawned_task i0 n) ex)) 1 = queue_at items ex 1 @ [turn i0 n]"
      "p \<noteq> 1 \<Longrightarrow> queue_at items (fst (spawn Q (spawned_task i0 n) ex)) p = queue_at items ex p"
      "capacity (task_queues (fst (spawn Q (spawned_task i0 n) ex)) ! 1) = Executor.QUEUE_CAPACITY"
      "length (task_queues (fst (spawn Q (spawned_task i0 n) ex))) = 4"
      "waker_cache (fst (spawn Q (spawned_task i0 n) ex)) = waker_cache ex" for p
    using assms(1) spawn_normal [of ex "spawned_task i0 n"] by (simp_all add: kernel_spawned_def spawned_task_def fun_upd_def)
  with assms turn_inject [OF _ assms(2), of _ i0] show ?thesis
    by (auto simp: kernel_spawned_def)
qed

lemma kernel_executor_scheduled: "kernel_scheduled items capacity i0 0 (kernel_executor Q i0)"
proof -
  have "kernel_spawned items capacity i0 0 (Executor_new Q)"
    using items_new [of Executor.QUEUE_CAPACITY] capacity_new [of Executor.QUEUE_CAPACITY]
    by (simp add: kernel_spawned_def Executor_new_def queue_at_def Executor.QUEUE_CAPACITY_def)
  from kernel_spawned_next [OF kernel_spawned_next [OF kernel_spawned_next [OF this]]]
  have "kernel_spawned items capacity i0 3 (kernel_executor Q i0)"
    by (simp add: kernel_executor_def kernel_tasks_eval numeral_2_eq_2 numeral_3_eq_3)
  then show ?thesis
    by (simp add: kernel_spawned_def kernel_scheduled_def spawned_task_def awaits_def)
qed

end

section \<open>A machine that runs\<close>

definition demo_run_env ::
    "(nat, unit, IpCidr list \<times> Ipv4Address list, sim_sockets, unit, nat \<times> u8 list, TaskWaker option, TaskWaker, unit, u8,
      (u8 list Caller, u8 list, host_call list, nat \<times> host_call list, u8 list, str, nat \<times> nat list, nat, u8 list) wasm_env) main_env" where
  "demo_run_env =
     \<lparr>smoltcp_of = sim_smoltcp [SocketConfigured demo_lease], wasm_of = demo_wasm_env,
      scancodes_of = list_queue_ops, waker_of = option_waker_ops,
      decoder_of = \<lparr>add_byte = (\<lambda>c d. (Some c, d)), process_keyevent = (\<lambda>c d. (Some (Unicode (unat c)), d))\<rparr>\<rparr>"

lemma demo_run_boots:
  "\<exists>m. kernel_boot demo_boot_env demo_run_env eight_mib 0 (\<lambda>_. None, {}) () 100 cleared_writer () demo_kernel = Some m"
proof -
  have "page_mapper (map_to_of demo_boot_env) fst (\<lambda>_ _. False)"
    by (simp add: demo_boot_env_def sm.page_mapper_axioms)
  moreover have "NetworkDevice_probe (nic_of demo_boot_env) 0 () = Some (Loopback QemuE1000_new, ())"
    by (simp add: demo_boot_env_def no_nic_probe)
  moreover have "buffer_wf (buffer cleared_writer)"
    using cleared_writer_shows by (simp add: shows_log_def)
  ultimately show ?thesis
    using kernel_boot_ok [OF _ eight_mib_ok(1), of demo_boot_env fst "\<lambda>_ _. False" "(\<lambda>_. None, {})" 0 "()" "Loopback QemuE1000_new" "()"
        cleared_writer demo_run_env 100 "()" demo_kernel] eight_mib_ok(2) by auto
qed

section \<open>Properties\<close>

text \<open>C5: The kernel runs for ever, round robin. Once it has booted and spawned its three tasks, every run of the
  executor polls them in turn, the network task first, and neither ends the pass nor halts the processor; the state is
  the one that the interrupts and the loop bodies reach in this order, and it is never a panic. And the run goes on:
  any number of polls is reached. Scancodes arrive, but as in the source nothing has created a scancode stream, so
  the terminal's loop body finds none.\<close>

theorem kernel_round_robin:
  assumes "kernel_boot B E mm off mapper n i w d k = Some m" "buffer_wf (buffer w)"
    and "smoltcp_sockets (smoltcp_of E) kinds" "array_queue RQ items capacity"
  shows "(\<forall>es ex s c. exec_run RQ (kernel_poll E arr) {} (kernel_executor RQ i0, (Some m, 0), 4) es (ex, s, c) \<longrightarrow>
      polled es = map (\<lambda>j. i0 + of_nat (j mod 3)) [0..<length (polled es)] \<and> (\<forall>b. Slept b \<notin> set es)
      \<and> (\<exists>m'. s = (Some m', length (polled es)) \<and> main_run E (kernel_ops arr (length (polled es))) m = Some m' \<and> main_wf kinds m'))
    \<and> (\<forall>N. \<exists>es st. exec_run RQ (kernel_poll E arr) {} (kernel_executor RQ i0, (Some m, 0), 4) es st \<and> length (polled es) = N)"
proof -
  note rq = run_queuesI [OF assms(4)]
  obtain ls where "shows_log (screen m) ls"
    using kernel_boot_shows [OF assms(1,2)] by blast
  note m = kernel_boot_wf(1,2) [OF assms(1) this]
  note quiet = main_run_quiet [OF assms(3) m]
  have total: "\<forall>ops. main_run E ops m \<noteq> None"
    using quiet by fastforce
  have at: "kernel_at items capacity E arr m i0 0 (kernel_executor RQ i0, (Some m, 0), 4)"
    using run_queues.kernel_executor_scheduled [OF rq, of i0]
    by (simp add: kernel_at_def kernel_ops_def main_run_simps)
  show ?thesis
  proof (intro conjI allI impI)
    fix es ex s c
    assume "exec_run RQ (kernel_poll E arr) {} (kernel_executor RQ i0, (Some m, 0), 4) es (ex, s, c)"
    from run_queues.kernel_at_run [OF rq this at m(2) total]
    have run: "s = (main_run E (kernel_ops arr (length (polled es))) m, length (polled es))"
        "\<forall>b. Slept b \<notin> set es" "polled es = map (turn i0) [0..<length (polled es)]"
      by (simp_all add: kernel_at_def)
    from run(3) show "polled es = map (\<lambda>j. i0 + of_nat (j mod 3)) [0..<length (polled es)]"
      by (simp add: turn_def [abs_def])
    from run(2) show "\<And>b. Slept b \<notin> set es"
      by blast
    show "\<exists>m'. s = (Some m', length (polled es)) \<and> main_run E (kernel_ops arr (length (polled es))) m = Some m' \<and> main_wf kinds m'"
      using quiet [of "kernel_ops arr (length (polled es))"] run(1) by auto
  next
    fix N
    show "\<exists>es st. exec_run RQ (kernel_poll E arr) {} (kernel_executor RQ i0, (Some m, 0), 4) es st \<and> length (polled es) = N"
      by (rule run_queues.kernel_at_progress [OF rq at m(2) total])
  qed
qed

theorem kernel_round_robin_witness:
  "\<exists>m es ex s c. kernel_boot demo_boot_env demo_run_env eight_mib 0 (\<lambda>_. None, {}) () 100 cleared_writer () demo_kernel = Some m
    \<and> exec_run list_queue_ops (kernel_poll demo_run_env (\<lambda>n. [30])) {} (kernel_executor list_queue_ops 0, (Some m, 0), 4) es (ex, s, c)
    \<and> polled es = [0, 1, 2, 0, 1, 2, 0] \<and> fst s \<noteq> None"
proof -
  obtain m where m: "kernel_boot demo_boot_env demo_run_env eight_mib 0 (\<lambda>_. None, {}) () 100 cleared_writer () demo_kernel = Some m"
    using demo_run_boots by blast
  have "buffer_wf (buffer cleared_writer)" "smoltcp_sockets (smoltcp_of demo_run_env) sim_kinds"
    using cleared_writer_shows by (simp_all add: shows_log_def demo_run_env_def ss.smoltcp_sockets_axioms)
  note robin = kernel_round_robin [OF m this lq.array_queue_axioms, of "\<lambda>n. [30]" 0]
  obtain es ex s c where es: "exec_run list_queue_ops (kernel_poll demo_run_env (\<lambda>n. [30])) {} (kernel_executor list_queue_ops 0, (Some m, 0), 4) es (ex, s, c)"
      "length (polled es) = 7"
    using robin [THEN conjunct2, THEN spec [where x = 7]] by (metis prod_cases3)
  from robin [THEN conjunct1, rule_format, OF es(1)] have "polled es = map (\<lambda>j. 0 + of_nat (j mod 3)) [0..<7]" "fst s \<noteq> None"
    by (auto simp: es(2))
  then have "polled es = [0, 1, 2, 0, 1, 2, 0]" "fst s \<noteq> None"
    by (simp_all add: upt_rec)
  with m es(1) show ?thesis
    by blast
qed

end
