(* ===== verification/Linking.thy ===== *)
theory Linking
  imports Sdk Wasm_Command
begin

text \<open>
  How a WebAssembly module meets the kernel: the functions that \<open>register_functions\<close> (\<open>wasm/host.rs\<close>) puts into the
  linker, with the types of their closures, the functions that the SDK imports (\<open>userspace/sdk/src/lib.rs\<close>), and the example
  application (\<open>userspace/apps/hello\<close>) built on it. Instantiation is the \<open>wasmi\<close> crate's: the locale \<open>wasm_linker\<close>
  states that it fails, before any code runs, when an import is not defined with its type.
\<close>

section \<open>The functions of the linker\<close>

datatype val_type = ValI32 | ValI64

type_synonym func_type = "val_type list \<times> val_type list"

definition register_debug_functions :: "(str \<times> func_type) list" where
  "register_debug_functions = [(''print'', [], [])]"

definition register_capability_functions :: "(str \<times> func_type) list" where
  "register_capability_functions = [(''sp_get_capabilities'', [ValI32, ValI32], [ValI32])]"

definition register_fs_functions :: "(str \<times> func_type) list" where
  "register_fs_functions =
     [(''sp_fs_open'', [ValI64, ValI32, ValI32], [ValI64]),
      (''sp_fs_read'', [ValI64, ValI32, ValI32, ValI32], [ValI32]),
      (''sp_fs_size'', [ValI64], [ValI32]),
      (''sp_fs_close'', [ValI64], []),
      (''sp_fs_mkdir'', [ValI64, ValI32, ValI32], [ValI32])]"

definition register_scheduler_functions :: "(str \<times> func_type) list" where
  "register_scheduler_functions = [(''sp_sched_yield'', [], [])]"

definition register_sync_functions :: "(str \<times> func_type) list" where
  "register_sync_functions =
     [(''sp_mutex_create'', [], [ValI64]),
      (''sp_mutex_lock'', [ValI64], [ValI32]),
      (''sp_mutex_try_lock'', [ValI64], [ValI32]),
      (''sp_mutex_unlock'', [ValI64], [ValI32]),
      (''sp_sem_create'', [ValI32], [ValI64]),
      (''sp_sem_acquire'', [ValI64], [ValI32]),
      (''sp_sem_try_acquire'', [ValI64], [ValI32]),
      (''sp_sem_release'', [ValI64], [ValI32])]"

text \<open>\<open>Linker::func_wrap\<close> refuses a name that is defined already (\<open>None\<close>).\<close>

definition func_wrap :: "str \<times> func_type \<Rightarrow> (str \<rightharpoonup> func_type) \<Rightarrow> (str \<rightharpoonup> func_type) option" where
  "func_wrap f l = (if l (fst f) = None then Some (l(fst f \<mapsto> snd f)) else None)"

definition linker_functions :: "(str \<times> func_type) list" where
  "linker_functions = register_debug_functions @ register_capability_functions @ register_fs_functions
     @ register_scheduler_functions @ register_sync_functions"

definition new_linker :: "(str \<rightharpoonup> func_type) option" where
  "new_linker = fold_option func_wrap linker_functions (\<lambda>_. None)"

primrec value_types :: "host_value \<Rightarrow> val_type list" where
  "value_types Unit = []"
| "value_types (I32 _) = [ValI32]"
| "value_types (I64 _) = [ValI64]"

text \<open>The closures themselves, by the types of their parameters (\<open>I\<close> for 32 and \<open>L\<close> for 64 bits) and of their
  result. \<open>func_wrap\<close> takes the type of a function from its closure; an entry of this table is well-typed only if the
  closure has the type that its constructor says.\<close>

type_synonym ('r, 'm, 'q, 'w) host_body = "'m Caller \<Rightarrow> ('q, 'w) Kernel \<Rightarrow> ('r, 'm, 'q, 'w) host_result"

datatype ('m, 'q, 'w) closure =
    Fn "(unit, 'm, 'q, 'w) host_body"
  | Fn_to_L "(i64, 'm, 'q, 'w) host_body"
  | Fn_L "i64 \<Rightarrow> (unit, 'm, 'q, 'w) host_body"
  | Fn_L_to_I "i64 \<Rightarrow> (i32, 'm, 'q, 'w) host_body"
  | Fn_I_to_L "i32 \<Rightarrow> (i64, 'm, 'q, 'w) host_body"
  | Fn_II_to_I "i32 \<Rightarrow> i32 \<Rightarrow> (i32, 'm, 'q, 'w) host_body"
  | Fn_LII_to_I "i64 \<Rightarrow> i32 \<Rightarrow> i32 \<Rightarrow> (i32, 'm, 'q, 'w) host_body"
  | Fn_LII_to_L "i64 \<Rightarrow> i32 \<Rightarrow> i32 \<Rightarrow> (i64, 'm, 'q, 'w) host_body"
  | Fn_LIII_to_I "i64 \<Rightarrow> i32 \<Rightarrow> i32 \<Rightarrow> i32 \<Rightarrow> (i32, 'm, 'q, 'w) host_body"

primrec closure_type :: "('m, 'q, 'w) closure \<Rightarrow> func_type" where
  "closure_type (Fn f) = ([], [])"
| "closure_type (Fn_to_L f) = ([], [ValI64])"
| "closure_type (Fn_L f) = ([ValI64], [])"
| "closure_type (Fn_L_to_I f) = ([ValI64], [ValI32])"
| "closure_type (Fn_I_to_L f) = ([ValI32], [ValI64])"
| "closure_type (Fn_II_to_I f) = ([ValI32, ValI32], [ValI32])"
| "closure_type (Fn_LII_to_I f) = ([ValI64, ValI32, ValI32], [ValI32])"
| "closure_type (Fn_LII_to_L f) = ([ValI64, ValI32, ValI32], [ValI64])"
| "closure_type (Fn_LIII_to_I f) = ([ValI64, ValI32, ValI32, ValI32], [ValI32])"

definition closures :: "('q, 'w, 'm) host_env \<Rightarrow> bool list \<Rightarrow> (str \<times> ('m, 'q, 'w) closure) list" where
  "closures E sp =
     [(''print'', Fn host_print),
      (''sp_get_capabilities'', Fn_II_to_I (sp_get_capabilities E)),
      (''sp_fs_open'', Fn_LII_to_L (sp_fs_open E)),
      (''sp_fs_read'', Fn_LIII_to_I (sp_fs_read E)),
      (''sp_fs_size'', Fn_L_to_I sp_fs_size),
      (''sp_fs_close'', Fn_L sp_fs_close),
      (''sp_fs_mkdir'', Fn_LII_to_I (sp_fs_mkdir E)),
      (''sp_sched_yield'', Fn sp_sched_yield),
      (''sp_mutex_create'', Fn_to_L (sp_mutex_create E)),
      (''sp_mutex_lock'', Fn_L_to_I (sp_mutex_lock E)),
      (''sp_mutex_try_lock'', Fn_L_to_I (sp_mutex_try_lock E)),
      (''sp_mutex_unlock'', Fn_L_to_I sp_mutex_unlock),
      (''sp_sem_create'', Fn_I_to_L (sp_sem_create E)),
      (''sp_sem_acquire'', Fn_L_to_I (sp_sem_acquire sp)),
      (''sp_sem_try_acquire'', Fn_L_to_I (sp_sem_try_acquire sp)),
      (''sp_sem_release'', Fn_L_to_I (sp_sem_release E sp))]"

section \<open>The imports of the SDK\<close>

text \<open>The types of the \<open>extern\<close> block. In the data model of \<open>wasm32\<close> a pointer and a \<open>usize\<close> have 32 bits.\<close>

datatype ffi_type = Pointer | Usize | FfiI32 | FfiI64

primrec wasm32_type :: "ffi_type \<Rightarrow> val_type" where
  "wasm32_type Pointer = ValI32"
| "wasm32_type Usize = ValI32"
| "wasm32_type FfiI32 = ValI32"
| "wasm32_type FfiI64 = ValI64"

definition sdk_externs :: "(str \<times> ffi_type list \<times> ffi_type list) list" where
  "sdk_externs =
     [(''print'', [Pointer, Usize], []),
      (''sp_fs_open'', [FfiI64, Pointer, Usize], [FfiI64]),
      (''sp_fs_read'', [FfiI64, Pointer, Usize, FfiI32], [FfiI32]),
      (''sp_fs_mkdir'', [FfiI64, Pointer, Usize], [FfiI32]),
      (''sp_fs_close'', [FfiI64], []),
      (''sp_sched_yield'', [], []),
      (''sp_mutex_create'', [], [FfiI64]),
      (''sp_mutex_lock'', [FfiI64], [FfiI32]),
      (''sp_mutex_try_lock'', [FfiI64], [FfiI32]),
      (''sp_mutex_unlock'', [FfiI64], [FfiI32]),
      (''sp_sem_create'', [FfiI32], [FfiI64]),
      (''sp_sem_acquire'', [FfiI64], [FfiI32]),
      (''sp_sem_try_acquire'', [FfiI64], [FfiI32]),
      (''sp_sem_release'', [FfiI64], [FfiI32])]"

definition sdk_imports :: "(str \<times> func_type) list" where
  "sdk_imports = map (\<lambda>(n, ps, rs). (n, map wasm32_type ps, map wasm32_type rs)) sdk_externs"

definition links :: "str \<times> func_type \<Rightarrow> bool" where
  "links f \<longleftrightarrow> map_of linker_functions (fst f) = Some (snd f)"

section \<open>The example application\<close>

text \<open>What its entry points call, as calls of imports. \<open>print_str\<close> passes the address and the length of its string,
  which lies at \<open>ptr s\<close>.\<close>

datatype import_call = ImportCall str "host_value list"

definition print_str :: "(str \<Rightarrow> i32) \<Rightarrow> str \<Rightarrow> import_call list" where
  "print_str ptr s = [ImportCall ''print'' [I32 (ptr s), I32 (of_nat (length s))]]"

definition yield_now_call :: "import_call list" where
  "yield_now_call = [ImportCall ''sp_sched_yield'' []]"

definition nl :: str where "nl = [CHR 0x0A]"

definition hello_start :: "(str \<Rightarrow> i32) \<Rightarrow> import_call list" where
  "hello_start ptr =
     print_str ptr (''Hello from WASM!'' @ nl) @ yield_now_call
     @ print_str ptr (''Yielded and resumed successfully!'' @ nl)"

definition hello_run_with_cap :: "(str \<Rightarrow> i32) \<Rightarrow> i64 \<Rightarrow> import_call list" where
  "hello_run_with_cap ptr dir_cap =
     print_str ptr (''Running with granted capability!'' @ nl)
     @ (if 0 \<le> sint dir_cap then print_str ptr (''Directory capability received.'' @ nl) else [])
     @ yield_now_call @ print_str ptr (''Done!'' @ nl)"

primrec called :: "import_call \<Rightarrow> str" where
  "called (ImportCall n _) = n"

text \<open>A call passes the types that the SDK declares.\<close>

definition call_typed :: "import_call \<Rightarrow> bool" where
  "call_typed c \<longleftrightarrow> (case c of ImportCall n vs \<Rightarrow> map_option fst (map_of sdk_imports n) = Some (concat (map value_types vs)))"

text \<open>The imports of a module built from the SDK: those of the functions it calls.\<close>

definition module_imports :: "import_call list \<Rightarrow> (str \<times> func_type) list" where
  "module_imports calls = filter (\<lambda>f. fst f \<in> called ` set calls) sdk_imports"

section \<open>Linking\<close>

locale wasm_linker =
  fixes M :: "('s, 'inst, 'fn, 'inv, 'mod, 'err, ('q, 'w) Kernel) wasmi_ops"
    and imports_of :: "'mod \<Rightarrow> (str \<times> func_type) list"
  assumes instantiate_checks: "\<not> list_all links (imports_of md) \<Longrightarrow> \<exists>e s'. wm_instantiate M md s k = (Inl e, s', k)"
begin

lemma unlinked_spawn_fails:
  assumes "wm_module_new M bytes = Inr md" "\<not> list_all links (imports_of md)"
  shows "\<exists>e. spawn_process_with_caps M bytes initial_caps k = (Inl e, k)"
  using instantiate_checks [OF assms(2), of "wm_store_new M (with_capabilities initial_caps)" k] assms(1)
  by (auto simp: spawn_process_with_caps_def Let_def)

end

text \<open>The engine that runs scripts, with modules that have imports.\<close>

definition linked_ops ::
    "(u8 list \<Rightarrow> (str \<times> func_type) list) \<Rightarrow> ('q, 'w, 'm) host_env \<Rightarrow> 'm \<Rightarrow> (str \<rightharpoonup> host_call list)
     \<Rightarrow> ('m Caller, unit, host_call list, nat \<times> host_call list, (str \<times> func_type) list, str, ('q, 'w) Kernel) wasmi_ops" where
  "linked_ops imps E mem funcs = \<lparr>
     wm_module_new = (\<lambda>bytes. if bytes = [] then Inl ''empty module'' else Inr (imps bytes)),
     wm_store_new = wm_store_new (script_ops E mem funcs),
     wm_instantiate = (\<lambda>md c k. if list_all links md then wm_instantiate (script_ops E mem funcs) () c k
        else (Inl ''cannot find definition for import'', c, k)),
     wm_add_fuel = wm_add_fuel (script_ops E mem funcs),
     wm_data = wm_data (script_ops E mem funcs),
     wm_set_data = wm_set_data (script_ops E mem funcs),
     wm_get_func = wm_get_func (script_ops E mem funcs),
     wm_call = wm_call (script_ops E mem funcs),
     wm_call_resumable = wm_call_resumable (script_ops E mem funcs),
     wm_resume = wm_resume (script_ops E mem funcs),
     wm_unreachable = wm_unreachable (script_ops E mem funcs),
     wm_debug = wm_debug (script_ops E mem funcs)\<rparr>"

interpretation sl: wasm_linker "linked_ops imps E mem funcs" "\<lambda>md. md"
  by unfold_locales (simp add: linked_ops_def)

section \<open>Lemmas\<close>

lemmas linker_function_defs = linker_functions_def register_debug_functions_def register_capability_functions_def
  register_fs_functions_def register_scheduler_functions_def register_sync_functions_def

lemma func_wraps:
  "distinct (map fst fs) \<Longrightarrow> \<forall>f \<in> set fs. l (fst f) = None \<Longrightarrow> fold_option func_wrap fs l = Some (l ++ map_of fs)"
proof (induction fs arbitrary: l)
  case (Cons f fs)
  have "func_wrap f l = Some (l(fst f \<mapsto> snd f))"
    using Cons.prems(2) by (simp add: func_wrap_def)
  moreover have "fold_option func_wrap fs (l(fst f \<mapsto> snd f)) = Some (l(fst f \<mapsto> snd f) ++ map_of fs)"
    using Cons.prems by (intro Cons.IH) (auto simp: image_iff)
  moreover have "l(fst f \<mapsto> snd f) ++ map_of fs = l ++ map_of (f # fs)"
    using Cons.prems(1) by (cases f) (simp add: map_add_upd_left dom_map_of_conv_image_fst)
  ultimately show ?case
    by (simp del: map_of.simps)
qed simp

lemma new_linker_map: "new_linker = Some (map_of linker_functions)"
proof -
  have "distinct (map fst linker_functions)"
    by code_simp
  then show ?thesis
    by (simp add: new_linker_def func_wraps)
qed

text \<open>The linker has the types of the closures.\<close>

lemma closure_types: "linker_functions = map (map_prod id closure_type) (closures E sp)"
  by (simp add: linker_function_defs closures_def)

lemma sdk_imports_links: "list_all (\<lambda>f. links f \<longleftrightarrow> fst f \<noteq> ''print'') sdk_imports"
  by code_simp

lemma module_imports_unlinked:
  assumes "''print'' \<in> called ` set calls"
  shows "\<not> list_all links (module_imports calls)"
proof -
  have "(''print'', [ValI32, ValI32], []) \<in> set (module_imports calls)"
    using assms by (simp add: module_imports_def sdk_imports_def sdk_externs_def)
  moreover have "\<not> links (''print'', [ValI32, ValI32], [])"
    by (simp add: links_def linker_function_defs)
  ultimately show ?thesis
    by (auto simp: list_all_iff)
qed

lemma hello_calls_typed: "list_all call_typed (hello_start ptr)" "list_all call_typed (hello_run_with_cap ptr dir_cap)"
  by (simp_all add: hello_start_def hello_run_with_cap_def print_str_def yield_now_call_def call_typed_def sdk_imports_def
      sdk_externs_def)

section \<open>Properties\<close>

text \<open>C34: The example application does not start. Every import of the SDK is registered with its type but for \<open>print\<close>,
  which the SDK declares with an address and a length and the kernel registers without parameters; the calls of both entry
  points have the types that the SDK declares. So a module with the imports of either entry point is refused: spawning
  it fails and leaves the kernel as it was, and the command that runs it prints the error.\<close>

theorem hello_does_not_start:
  assumes "wasm_linker M imports_of" "wm_module_new M bytes = Inr md"
    and "set (module_imports (hello_start ptr)) \<subseteq> set (imports_of md)
      \<or> set (module_imports (hello_run_with_cap ptr dir_cap)) \<subseteq> set (imports_of md)"
  shows "filter (\<lambda>f. \<not> links f) sdk_imports = [(''print'', [ValI32, ValI32], [])]
    \<and> list_all call_typed (hello_start ptr @ hello_run_with_cap ptr dir_cap)
    \<and> (\<exists>e. spawn_process_with_caps M bytes initial_caps k = (Inl e, k))
    \<and> (\<exists>e. run_module M bytes k = (map Println (console k) @ [SetColor LightRed Black,
          Println (''WASM test failed: '' @ wm_debug M e), SetColor White Black, Println []], k\<lparr>console := []\<rparr>))"
proof -
  have "\<not> list_all links (module_imports (hello_start ptr))" "\<not> list_all links (module_imports (hello_run_with_cap ptr dir_cap))"
    by (rule module_imports_unlinked, simp add: hello_start_def hello_run_with_cap_def print_str_def)+
  with assms(3) have "\<not> list_all links (imports_of md)"
    by (auto simp: list_all_iff)
  note fails = wasm_linker.unlinked_spawn_fails [OF assms(1,2) this]
  have "filter (\<lambda>f. \<not> links f) sdk_imports = [(''print'', [ValI32, ValI32], [])]"
    by code_simp
  moreover have "\<exists>e. run_module M bytes k = (map Println (console k) @ [SetColor LightRed Black,
      Println (''WASM test failed: '' @ wm_debug M e), SetColor White Black, Println []], k\<lparr>console := []\<rparr>)"
    using fails [of "[]" k] by (auto simp: run_module_def take_console_def)
  ultimately show ?thesis
    using fails [of initial_caps k] hello_calls_typed by auto
qed

theorem hello_does_not_start_witness:
  "spawn_process_with_caps (linked_ops (\<lambda>_. module_imports (hello_start (\<lambda>_. 0))) demo_env [] (\<lambda>_. None)) [0] [demo_cap] demo_kernel
     = (Inl ''cannot find definition for import'', demo_kernel)"
proof -
  obtain e where e: "spawn_process_with_caps (linked_ops (\<lambda>_. module_imports (hello_start (\<lambda>_. 0))) demo_env [] (\<lambda>_. None)) [0] [demo_cap] demo_kernel
     = (Inl e, demo_kernel)"
    using hello_does_not_start [OF sl.wasm_linker_axioms, of "\<lambda>_. module_imports (hello_start (\<lambda>_. 0))" demo_env "[]" "\<lambda>_. None" "[0]"
        "module_imports (hello_start (\<lambda>_. 0))" "\<lambda>_. 0" 0 "[demo_cap]" demo_kernel]
    by (auto simp: linked_ops_def)
  then have "e = ''cannot find definition for import''"
    by (auto simp: spawn_process_with_caps_def linked_ops_def script_ops_def grant_fuel_def Let_def split: if_splits)
  with e show ?thesis
    by simp
qed

end
