(* ===== verification/Interrupts.thy ===== *)
theory Interrupts
  imports Kernel_Main
begin

text \<open>
  The interrupt table and its handlers (\<open>arch/x86_64/interrupts.rs\<close>, \<open>arch/x86_64/pic.rs\<close>). What the processor
  pushes, and how it is printed, is a parameter; a handler returns what it prints and whether the interrupted code
  goes on. The two chained PICs of the \<open>pic8259\<close> crate are a parameter too: an interrupt line is in service from its
  interrupt to the end-of-interrupt message, and blocks itself meanwhile.
\<close>

section \<open>The controllers\<close>

definition PIC_1_OFFSET :: u8 where "PIC_1_OFFSET = 32"
definition PIC_2_OFFSET :: u8 where "PIC_2_OFFSET = PIC_1_OFFSET + 8"

datatype InterruptIndex = TimerIndex | KeyboardIndex

primrec as_u8 :: "InterruptIndex \<Rightarrow> u8" where
  "as_u8 TimerIndex = PIC_1_OFFSET"
| "as_u8 KeyboardIndex = PIC_1_OFFSET + 1"

definition as_usize :: "InterruptIndex \<Rightarrow> nat" where
  "as_usize i = unat (as_u8 i)"

section \<open>The table\<close>

datatype handler =
    breakpoint_handler | double_fault_handler | page_fault_handler | general_protection_fault_handler
  | divide_error_handler | timer_interrupt_handler | keyboard_handler

definition DOUBLE_FAULT_IST_INDEX :: nat where "DOUBLE_FAULT_IST_INDEX = 0"

text \<open>The handler of a vector, with the stack of the interrupt stack table it runs on.\<close>

definition IDT :: "nat \<Rightarrow> (handler \<times> nat option) option" where
  "IDT = (\<lambda>_. None)
     (3 \<mapsto> (breakpoint_handler, None),
      8 \<mapsto> (double_fault_handler, Some DOUBLE_FAULT_IST_INDEX),
      14 \<mapsto> (page_fault_handler, None),
      13 \<mapsto> (general_protection_fault_handler, None),
      0 \<mapsto> (divide_error_handler, None),
      as_usize TimerIndex \<mapsto> (timer_interrupt_handler, None),
      as_usize KeyboardIndex \<mapsto> (keyboard_handler, None))"

section \<open>Exceptions\<close>

text \<open>How an exception ends: the interrupted code goes on, the processor halts for ever, or the kernel panics.\<close>

datatype exception_end = Resumed | Halted | Panicked str

record exception_frame =
  frame_debug :: str
  instruction_pointer_hex :: str
  error_debug :: str
  cr2_debug :: str

definition newline :: str where "newline = [CHR 0x0A]"

fun handle_exception :: "handler \<Rightarrow> exception_frame \<Rightarrow> console_op list \<times> exception_end" where
  "handle_exception breakpoint_handler f =
     ([SerialPrintln (''EXCEPTION: BREAKPOINT at '' @ instruction_pointer_hex f)], Resumed)"
| "handle_exception double_fault_handler f = ([], Panicked (''EXCEPTION: DOUBLE FAULT'' @ newline @ frame_debug f))"
| "handle_exception page_fault_handler f =
     ([Println ''EXCEPTION: PAGE FAULT'', Println (''Accessed Address: '' @ cr2_debug f),
       Println (''Error Code: '' @ error_debug f), Println (frame_debug f)], Halted)"
| "handle_exception general_protection_fault_handler f =
     ([Println ''EXCEPTION: GENERAL PROTECTION FAULT'', Println (''Error Code: '' @ error_debug f), Println (frame_debug f)], Halted)"
| "handle_exception divide_error_handler f = ([Println (''EXCEPTION: DIVIDE ERROR'' @ newline @ frame_debug f)], Halted)"
| "handle_exception _ f = ([], Resumed)"

section \<open>Hardware interrupts\<close>

record 'p pic_ops =
  pics_initialize :: "'p \<Rightarrow> 'p"
  notify_end_of_interrupt :: "u8 \<Rightarrow> 'p \<Rightarrow> 'p"

text \<open>A hardware interrupt of a vector, with the scancode that port 0x60 holds.\<close>

definition handle_irq ::
    "'p pic_ops \<Rightarrow> ('h, 'qh, 'i, 's, 'n, 'q, 'a, 'w, 'd, 'e, 'x) main_env \<Rightarrow> nat \<Rightarrow> u8
     \<Rightarrow> 'p \<times> ('h, 'qh, 'i, 's, 'n, 'q, 'a, 'd, 'k) main_state
     \<Rightarrow> ('p \<times> ('h, 'qh, 'i, 's, 'n, 'q, 'a, 'd, 'k) main_state) option" where
  "handle_irq P E vector scancode = (\<lambda>(p, m).
     case IDT vector of
       Some (timer_interrupt_handler, _) \<Rightarrow> Some (notify_end_of_interrupt P (as_u8 TimerIndex) p, m)
     | Some (keyboard_handler, _) \<Rightarrow>
         Some (notify_end_of_interrupt P (as_u8 KeyboardIndex) p, keyboard_interrupt_handler E scancode m)
     | _ \<Rightarrow> None)"

locale chained_pics =
  fixes P :: "'p pic_ops"
    and in_service :: "'p \<Rightarrow> u8 set"
  assumes initialized: "in_service (pics_initialize P p) = {}"
    and end_of_interrupt: "PIC_1_OFFSET \<le> v \<Longrightarrow> v < PIC_1_OFFSET + 16 \<Longrightarrow>
      in_service (notify_end_of_interrupt P v p) = in_service p - {v}"
begin

lemma irq_serviced:
  assumes "v = as_u8 i"
  shows "\<exists>p' m'. handle_irq P E (unat v) c (p, m) = Some (p', m') \<and> in_service p' = in_service p - {v}"
  using assms
  by (cases i)
    (simp_all add: handle_irq_def IDT_def as_usize_def PIC_1_OFFSET_def end_of_interrupt [unfolded PIC_1_OFFSET_def])

end

definition set_pics :: "u8 set pic_ops" where
  "set_pics = \<lparr>pics_initialize = (\<lambda>_. {}), notify_end_of_interrupt = (\<lambda>v s. s - {v})\<rparr>"

interpretation pic: chained_pics set_pics "\<lambda>s. s"
  by unfold_locales (simp_all add: set_pics_def)

end
