(* ===== verification/Startup.thy ===== *)
theory Startup
  imports Interrupts
begin

text \<open>
  What happens before the kernel has a heap: the segments and the task state (\<open>arch/x86_64/gdt.rs\<close>), loading the
  interrupt table (\<open>init_idt\<close>), \<open>lib.rs::init\<close>, which calls them, and the page mapper (\<open>memory.rs\<close>). The code's effects
  on the machine are a list of operations; \<open>None\<close> is a panic. Addresses and descriptor tables are those of the \<open>x86_64\<close>
  crate: a parameter, whose documented behaviour the locale \<open>x86_tables\<close> states. A small machine that executes the
  operations is the specification.
\<close>

section \<open>Segments\<close>

text \<open>A TSS is its interrupt stack table.\<close>

type_synonym TaskStateSegment = "u64 list"

datatype Descriptor = KernelCodeSegment | TssSegment TaskStateSegment

record 'g x86_ops =
  va_new :: "u64 \<Rightarrow> u64 option"
  va_add :: "u64 \<Rightarrow> u64 \<Rightarrow> u64 option"
  gdt_new :: 'g
  gdt_add_entry :: "Descriptor \<Rightarrow> 'g \<Rightarrow> (u16 \<times> 'g) option"

definition STACK_SIZE :: u64 where "STACK_SIZE = 4096 * 5"

definition TSS :: "'g x86_ops \<Rightarrow> u64 \<Rightarrow> TaskStateSegment option" where
  "TSS X stack =
     Option.bind (va_new X stack) (\<lambda>stack_start.
       map_option (\<lambda>top. (replicate 7 0)[DOUBLE_FAULT_IST_INDEX := top]) (va_add X stack_start STACK_SIZE))"

record Selectors =
  code_selector :: u16
  tss_selector :: u16

definition GDT :: "'g x86_ops \<Rightarrow> u64 \<Rightarrow> ('g \<times> Selectors) option" where
  "GDT X stack =
     Option.bind (gdt_add_entry X KernelCodeSegment (gdt_new X)) (\<lambda>(code, g).
     Option.bind (TSS X stack) (\<lambda>tss.
     map_option (\<lambda>(tss, g). (g, \<lparr>code_selector = code, tss_selector = tss\<rparr>)) (gdt_add_entry X (TssSegment tss) g)))"

section \<open>Initialisation\<close>

datatype 'g startup_op =
    SerialInit | VgaInit | LoadGdt 'g | SetCs u16 | LoadTss u16
  | LoadIdt "nat \<Rightarrow> (handler \<times> nat option) option" | PicsInitialize u8 u8 | EnableInterrupts

definition gdt_init :: "'g x86_ops \<Rightarrow> u64 \<Rightarrow> 'g startup_op list option" where
  "gdt_init X stack =
     map_option (\<lambda>(g, sel). [LoadGdt g, SetCs (code_selector sel), LoadTss (tss_selector sel)]) (GDT X stack)"

definition init_idt :: "'g startup_op list" where
  "init_idt = [LoadIdt IDT, PicsInitialize PIC_1_OFFSET PIC_2_OFFSET, EnableInterrupts]"

text \<open>\<open>init\<close> of \<open>lib.rs\<close>; \<open>stack\<close> is the address of the static stack for double faults.\<close>

definition kernel_init :: "'g x86_ops \<Rightarrow> u64 \<Rightarrow> 'g startup_op list option" where
  "kernel_init X stack = map_option (\<lambda>ops. [SerialInit, VgaInit] @ ops @ init_idt) (gdt_init X stack)"

section \<open>The page mapper\<close>

record OffsetPageTable =
  level_4_table :: u64
  physical_memory_offset :: u64

text \<open>\<open>level_4_frame\<close> is the start address of the frame in the register CR3.\<close>

definition active_level_4_table :: "'g x86_ops \<Rightarrow> u64 \<Rightarrow> u64 \<Rightarrow> u64 option" where
  "active_level_4_table X level_4_frame off = va_add X off level_4_frame"

definition init_mapper :: "'g x86_ops \<Rightarrow> u64 \<Rightarrow> u64 \<Rightarrow> OffsetPageTable option" where
  "init_mapper X level_4_frame off =
     map_option (\<lambda>t. \<lparr>level_4_table = t, physical_memory_offset = off\<rparr>) (active_level_4_table X level_4_frame off)"

text \<open>\<open>kernel_main\<close> from its first line to the executor; \<open>tables\<close> is the mapper that works on the tables at an address.\<close>

definition kernel_entry ::
    "'g x86_ops \<Rightarrow> u64 \<Rightarrow> u64 \<Rightarrow> (OffsetPageTable \<Rightarrow> 'm)
     \<Rightarrow> ('m, 'n) boot_env \<Rightarrow> ('h, 'qh, 'i, 's, 'n, 'q, 'a, 'w, 'd, 'e, 'x) main_env
     \<Rightarrow> MemoryMap \<Rightarrow> u64 \<Rightarrow> 'n \<Rightarrow> u32 \<Rightarrow> Writer \<Rightarrow> 'd \<Rightarrow> ('kq, 'kw) Kernel
     \<Rightarrow> ('g startup_op list \<times> ('h, 'qh, 'i, 's, 'n, 'q, 'a, 'd, ('kq, 'kw) Kernel) main_state) option" where
  "kernel_entry X stack level_4_frame tables B E mm off n table_index w d k =
     Option.bind (kernel_init X stack) (\<lambda>ops.
     Option.bind (va_new X off) (\<lambda>phys_mem_offset.
     Option.bind (init_mapper X level_4_frame phys_mem_offset) (\<lambda>mapper.
       map_option (Pair ops) (kernel_boot B E mm off (tables mapper) n table_index w d k))))"

section \<open>The parameters\<close>

definition canonical :: "u64 \<Rightarrow> bool" where
  "canonical a \<longleftrightarrow> unat a < 2 ^ 47 \<or> 2 ^ 64 - 2 ^ 47 \<le> unat a"

text \<open>A table has eight slots, of which the null descriptor takes one.\<close>

primrec slots :: "Descriptor \<Rightarrow> nat" where
  "slots KernelCodeSegment = 1"
| "slots (TssSegment _) = 2"

locale x86_tables =
  fixes X :: "'g x86_ops"
    and entry :: "'g \<Rightarrow> u16 \<Rightarrow> Descriptor option"
    and free_slots :: "'g \<Rightarrow> nat"
  assumes new_canonical: "canonical a \<Longrightarrow> va_new X a = Some a"
    and add_canonical: "canonical a \<Longrightarrow> canonical (a + n) \<Longrightarrow> a \<le> a + n \<Longrightarrow> va_add X a n = Some (a + n)"
    and new_slots: "free_slots (gdt_new X) = 7"
    and add_entry: "slots d \<le> free_slots g \<Longrightarrow>
      \<exists>sel g'. gdt_add_entry X d g = Some (sel, g') \<and> entry g' sel = Some d \<and> free_slots g' = free_slots g - slots d
        \<and> (\<forall>s e. entry g s = Some e \<longrightarrow> entry g' s = Some e)"
begin

lemma GDT_entries:
  assumes "canonical stack" "canonical (stack + STACK_SIZE)" "stack \<le> stack + STACK_SIZE"
  obtains g sel where "GDT X stack = Some (g, sel)" "entry g (code_selector sel) = Some KernelCodeSegment"
    "entry g (tss_selector sel) = Some (TssSegment ((replicate 7 0)[DOUBLE_FAULT_IST_INDEX := stack + STACK_SIZE]))"
proof -
  let ?tss = "(replicate 7 0)[DOUBLE_FAULT_IST_INDEX := stack + STACK_SIZE]"
  obtain code g1 where g1: "gdt_add_entry X KernelCodeSegment (gdt_new X) = Some (code, g1)" "entry g1 code = Some KernelCodeSegment"
      "free_slots g1 = 6"
    using add_entry [of KernelCodeSegment "gdt_new X"] by (auto simp: new_slots)
  obtain tss g2 where "gdt_add_entry X (TssSegment ?tss) g1 = Some (tss, g2)" "entry g2 tss = Some (TssSegment ?tss)"
      "entry g2 code = Some KernelCodeSegment"
    using add_entry [of "TssSegment ?tss" g1] g1(2,3) by auto
  moreover have "TSS X stack = Some ?tss"
    using new_canonical [OF assms(1)] add_canonical [OF assms] by (simp add: TSS_def)
  ultimately show thesis
    using that [of g2 "\<lparr>code_selector = code, tss_selector = tss\<rparr>"] g1(1) by (simp add: GDT_def)
qed

text \<open>The mapper works on the active table, at its address in the direct mapping.\<close>

lemma init_mapper_exact:
  assumes "canonical off" "canonical (off + frame)" "off \<le> off + frame"
  shows "init_mapper X frame off = Some \<lparr>level_4_table = off + frame, physical_memory_offset = off\<rparr>"
  by (simp add: init_mapper_def active_level_4_table_def add_canonical [OF assms])

lemma kernel_init_some:
  assumes "canonical stack" "canonical (stack + STACK_SIZE)" "stack \<le> stack + STACK_SIZE"
  shows "\<exists>ops. kernel_init X stack = Some ops"
  by (rule GDT_entries [OF assms]) (simp add: kernel_init_def gdt_init_def)

text \<open>So what precedes the heap adds no panic: the kernel boots as if it had started there.\<close>

lemma kernel_entry_boots:
  assumes "canonical stack" "canonical (stack + STACK_SIZE)" "stack \<le> stack + STACK_SIZE"
    and "canonical off" "canonical (off + frame)" "off \<le> off + frame"
  shows "\<exists>ops. kernel_entry X stack frame tables B E mm off n i w d k
    = map_option (Pair ops) (kernel_boot B E mm off (tables \<lparr>level_4_table = off + frame, physical_memory_offset = off\<rparr>) n i w d k)"
  using kernel_init_some [OF assms(1-3)]
  by (auto simp: kernel_entry_def new_canonical [OF assms(4)] init_mapper_exact [OF assms(4-6)])

end

text \<open>A table as the list of its descriptors, a selector as eight times the index.\<close>

definition slots_of :: "Descriptor list \<Rightarrow> nat" where
  "slots_of ds = sum_list (map slots ds)"

fun entry_from :: "nat \<Rightarrow> Descriptor list \<Rightarrow> u16 \<Rightarrow> Descriptor option" where
  "entry_from n [] s = None"
| "entry_from n (d # ds) s = (if s = of_nat (8 * n) then Some d else entry_from (n + slots d) ds s)"

definition list_x86 :: "Descriptor list x86_ops" where
  "list_x86 = \<lparr>va_new = (\<lambda>a. if canonical a then Some a else None),
     va_add = (\<lambda>a n. if canonical (a + n) \<and> a \<le> a + n then Some (a + n) else None),
     gdt_new = [],
     gdt_add_entry = (\<lambda>d ds. if slots_of ds + slots d \<le> 7 then Some (of_nat (8 * (1 + slots_of ds)), ds @ [d]) else None)\<rparr>"

lemma slots_pos: "0 < slots d"
  by (cases d) simp_all

lemma entry_beyond: "n + slots_of ds \<le> m \<Longrightarrow> m \<le> 8 \<Longrightarrow> entry_from n ds (of_nat (8 * m)) = None"
proof (induction ds arbitrary: n)
  case (Cons d ds)
  have "n < m"
    using Cons.prems slots_pos [of d] by (simp add: slots_of_def)
  then have "(of_nat (8 * m) :: u16) \<noteq> of_nat (8 * n)"
    using Cons.prems(2) by (simp add: word_of_nat_eq_iff take_bit_eq_mod del: of_nat_mult)
  with Cons show ?case
    by (simp add: slots_of_def)
qed simp

lemma entry_append:
  "n + slots_of ds \<le> 8 \<Longrightarrow> entry_from n (ds @ [d]) s
     = (case entry_from n ds s of Some e \<Rightarrow> Some e | None \<Rightarrow> if s = of_nat (8 * (n + slots_of ds)) then Some d else None)"
  by (induction ds arbitrary: n) (auto simp: slots_of_def add.assoc)

interpretation lx: x86_tables list_x86 "entry_from 1" "\<lambda>ds. 7 - slots_of ds"
proof
  fix d ds
  assume "slots d \<le> 7 - slots_of ds"
  then have room: "1 + slots_of ds \<le> 8" "slots_of ds + slots d \<le> 7"
    using slots_pos [of d] by simp_all
  then show "\<exists>sel g'. gdt_add_entry list_x86 d ds = Some (sel, g') \<and> entry_from 1 g' sel = Some d
      \<and> 7 - slots_of g' = 7 - slots_of ds - slots d \<and> (\<forall>s e. entry_from 1 ds s = Some e \<longrightarrow> entry_from 1 g' s = Some e)"
    using entry_beyond [of 1 ds "1 + slots_of ds"]
    by (auto simp: list_x86_def entry_append slots_of_def)
qed (simp_all add: list_x86_def slots_of_def)

section \<open>The machine\<close>

record 'g machine =
  loaded_gdt :: "'g option"
  loaded_cs :: "u16 option"
  loaded_tss :: "TaskStateSegment option"
  loaded_idt :: "(nat \<Rightarrow> (handler \<times> nat option) option) option"
  pic_offsets :: "(u8 \<times> u8) option"
  interrupts_on :: bool

definition machine_reset :: "'g machine" where
  "machine_reset = \<lparr>loaded_gdt = None, loaded_cs = None, loaded_tss = None, loaded_idt = None, pic_offsets = None,
     interrupts_on = False\<rparr>"

text \<open>Loading a selector that does not select a descriptor of the right kind is a fault (\<open>None\<close>).\<close>

fun machine_step :: "('g \<Rightarrow> u16 \<Rightarrow> Descriptor option) \<Rightarrow> 'g startup_op \<Rightarrow> 'g machine \<Rightarrow> 'g machine option" where
  "machine_step entry (LoadGdt g) m = Some (m\<lparr>loaded_gdt := Some g\<rparr>)"
| "machine_step entry (SetCs s) m =
     (case Option.bind (loaded_gdt m) (\<lambda>g. entry g s) of
        Some KernelCodeSegment \<Rightarrow> Some (m\<lparr>loaded_cs := Some s\<rparr>)
      | _ \<Rightarrow> None)"
| "machine_step entry (LoadTss s) m =
     (case Option.bind (loaded_gdt m) (\<lambda>g. entry g s) of
        Some (TssSegment tss) \<Rightarrow> Some (m\<lparr>loaded_tss := Some tss\<rparr>)
      | _ \<Rightarrow> None)"
| "machine_step entry (LoadIdt t) m = Some (m\<lparr>loaded_idt := Some t\<rparr>)"
| "machine_step entry (PicsInitialize a b) m = Some (m\<lparr>pic_offsets := Some (a, b)\<rparr>)"
| "machine_step entry EnableInterrupts m = Some (m\<lparr>interrupts_on := True\<rparr>)"
| "machine_step entry _ m = Some m"

definition machine_run :: "('g \<Rightarrow> u16 \<Rightarrow> Descriptor option) \<Rightarrow> 'g startup_op list \<Rightarrow> 'g machine option" where
  "machine_run entry ops = fold_option (machine_step entry) ops machine_reset"

text \<open>The handler of a vector, and the stack it is given unless it stays on the current one; \<open>None\<close> is a fault.\<close>

definition deliver :: "'g machine \<Rightarrow> nat \<Rightarrow> (handler \<times> u64 option) option" where
  "deliver m v =
     (case Option.bind (loaded_idt m) (\<lambda>t. t v) of
        None \<Rightarrow> None
      | Some (h, None) \<Rightarrow> Some (h, None)
      | Some (h, Some i) \<Rightarrow>
          (case loaded_tss m of
             Some tss \<Rightarrow> if i < length tss then Some (h, Some (tss ! i)) else None
           | None \<Rightarrow> None))"

text \<open>The vector of an interrupt line.\<close>

definition line_vector :: "'g machine \<Rightarrow> nat \<Rightarrow> nat option" where
  "line_vector m n = map_option (\<lambda>(a, b). if n < 8 then unat a + n else unat b + (n - 8)) (pic_offsets m)"

lemma machine_stays_off:
  assumes "EnableInterrupts \<notin> set ops" "machine_run entry ops = Some m"
  shows "\<not> interrupts_on m"
proof -
  have "\<not> interrupts_on m" if "fold_option (machine_step entry) ops m0 = Some m" "\<not> interrupts_on m0" for m0
    using that assms(1)
  proof (induction ops arbitrary: m0)
    case (Cons op ops)
    then obtain m1 where m1: "machine_step entry op m0 = Some m1" "fold_option (machine_step entry) ops m1 = Some m"
      by (auto simp: bind_eq_Some_conv)
    have "\<not> interrupts_on m1"
      using m1(1) Cons.prems(2,3) by (cases op) (auto split: option.splits Descriptor.splits)
    with Cons m1(2) show ?case
      by simp
  qed simp
  with assms(2) show ?thesis
    by (simp add: machine_run_def machine_reset_def)
qed

section \<open>Properties\<close>

text \<open>C23: The kernel starts up safely. Initialisation neither panics nor faults: the selectors it loads select the code
  segment and the task state in the table it has loaded. Interrupts are enabled last, in a machine in which the lines of
  timer and keyboard reach their handlers, a double fault gets a stack of its own, whose top is the end of the static
  stack, and no interrupt line uses the vector of an exception.\<close>

theorem startup_safe:
  assumes "x86_tables X entry free_slots"
    and "canonical stack" "canonical (stack + STACK_SIZE)" "stack \<le> stack + STACK_SIZE"
  shows "\<exists>ops m. kernel_init X stack = Some ops \<and> machine_run entry ops = Some m \<and> interrupts_on m
    \<and> (\<forall>n m'. n < length ops \<and> machine_run entry (take n ops) = Some m' \<longrightarrow> \<not> interrupts_on m')
    \<and> Option.bind (line_vector m 0) (deliver m) = Some (timer_interrupt_handler, None)
    \<and> Option.bind (line_vector m 1) (deliver m) = Some (keyboard_handler, None)
    \<and> deliver m 8 = Some (double_fault_handler, Some (stack + STACK_SIZE))
    \<and> (\<forall>n < 16. \<exists>v. line_vector m n = Some v \<and> 32 \<le> v \<and> v < 48)"
proof -
  obtain g sel where g: "GDT X stack = Some (g, sel)" "entry g (code_selector sel) = Some KernelCodeSegment"
      "entry g (tss_selector sel) = Some (TssSegment ((replicate 7 0)[DOUBLE_FAULT_IST_INDEX := stack + STACK_SIZE]))"
    using x86_tables.GDT_entries [OF assms] .
  define ops where "ops = [SerialInit, VgaInit, LoadGdt g, SetCs (code_selector sel), LoadTss (tss_selector sel), LoadIdt IDT,
    PicsInitialize PIC_1_OFFSET PIC_2_OFFSET, EnableInterrupts]"
  have init: "kernel_init X stack = Some ops"
    by (simp add: kernel_init_def gdt_init_def init_idt_def ops_def g(1))
  have run: "machine_run entry ops = Some \<lparr>loaded_gdt = Some g, loaded_cs = Some (code_selector sel),
      loaded_tss = Some ((replicate 7 0)[DOUBLE_FAULT_IST_INDEX := stack + STACK_SIZE]), loaded_idt = Some IDT,
      pic_offsets = Some (PIC_1_OFFSET, PIC_2_OFFSET), interrupts_on = True\<rparr>" (is "_ = Some ?m")
    by (simp add: machine_run_def ops_def machine_reset_def g(2,3))
  have off: "\<not> interrupts_on m'" if "n < length ops" "machine_run entry (take n ops) = Some m'" for n m'
  proof -
    have "EnableInterrupts \<notin> set (take n ops)"
      using that(1) by (auto simp: ops_def take_Cons' less_Suc_eq)
    with that(2) show ?thesis
      by (simp add: machine_stays_off)
  qed
  have lines: "Option.bind (line_vector ?m 0) (deliver ?m) = Some (timer_interrupt_handler, None)"
      "Option.bind (line_vector ?m 1) (deliver ?m) = Some (keyboard_handler, None)"
      "deliver ?m 8 = Some (double_fault_handler, Some (stack + STACK_SIZE))"
    by (simp_all add: line_vector_def deliver_def IDT_def as_usize_def PIC_1_OFFSET_def DOUBLE_FAULT_IST_INDEX_def)
  have "\<exists>v. line_vector ?m n = Some v \<and> 32 \<le> v \<and> v < 48" if "n < 16" for n
    using that by (simp add: line_vector_def PIC_1_OFFSET_def PIC_2_OFFSET_def)
  with init run off lines show ?thesis
    by (intro exI [of _ ops] exI [of _ ?m]) auto
qed

theorem startup_safe_witness:
  "\<exists>ops m. kernel_init list_x86 0x200000 = Some ops \<and> machine_run (entry_from 1) ops = Some m \<and> interrupts_on m
    \<and> deliver m 8 = Some (double_fault_handler, Some 0x205000)"
  using startup_safe [OF lx.x86_tables_axioms, of "0x200000"]
  by (auto simp: canonical_def STACK_SIZE_def)

end
