(* ===== verification/Unit_Tests.thy ===== *)
theory Unit_Tests
  imports Sync_Registry
begin

text \<open>
  The unit tests of the repository (the \<open>tests\<close> modules of \<open>sync/mutex.rs\<close>, \<open>sync/semaphore.rs\<close> and
  \<open>sync/registry.rs\<close>) on the model of what they test. A test is the conjunction of its assertions; a panic fails it.
  Their outcome is the same for every queue and whatever compare-and-exchange fails spuriously; all pass but one.
\<close>

section \<open>Mutex\<close>

definition test_mutex_uncontended :: "('q, 'w) queue_ops \<Rightarrow> bool" where
  "test_mutex_uncontended Q =
     (let mutex = AsyncMutex_new Q (42 :: i32);
          (ok, mutex) = AsyncMutex_try_lock mutex;
          value1 = AsyncMutexGuard_deref mutex;
          (_, mutex) = AsyncMutexGuard_drop Q mutex;
          (ok2, mutex) = AsyncMutex_try_lock mutex;
          value2 = AsyncMutexGuard_deref mutex
      in ok \<and> value1 = 42 \<and> ok2 \<and> value2 = 42)"

definition test_mutex_try_lock_fails_when_locked :: "('q, 'w) queue_ops \<Rightarrow> bool" where
  "test_mutex_try_lock_fails_when_locked Q =
     (let mutex = AsyncMutex_new Q (42 :: i32);
          (ok, mutex) = AsyncMutex_try_lock mutex;
          (ok2, mutex) = AsyncMutex_try_lock mutex
      in ok \<and> \<not> ok2)"

definition test_mutex_guard_deref_mut :: "('q, 'w) queue_ops \<Rightarrow> bool" where
  "test_mutex_guard_deref_mut Q =
     (let mutex = AsyncMutex_new Q (0 :: u32);
          (ok, mutex) = AsyncMutex_try_lock mutex;
          mutex = AsyncMutexGuard_deref_mut mutex (\<lambda>_. 100);
          (_, mutex) = AsyncMutexGuard_drop Q mutex;
          (ok2, mutex) = AsyncMutex_try_lock mutex
      in ok \<and> ok2 \<and> AsyncMutexGuard_deref mutex = 100)"

section \<open>Semaphore\<close>

text \<open>The statements of the tests, each with the compare-and-exchanges that fail spuriously.\<close>

datatype sem_statement = AssertTryAcquire bool | ReleasePermit | AssertPermits usize

fun sem_test :: "('q, 'w) queue_ops \<Rightarrow> (bool list \<times> sem_statement) list \<Rightarrow> 'q Semaphore \<Rightarrow> bool" where
  "sem_test Q [] sem = True"
| "sem_test Q ((sp, AssertTryAcquire b) # xs) sem =
     (let (ok, sem) = try_acquire sp sem in ok = b \<and> sem_test Q xs sem)"
| "sem_test Q ((sp, ReleasePermit) # xs) sem =
     (case Semaphore_release Q sp sem of None \<Rightarrow> False | Some (_, sem) \<Rightarrow> sem_test Q xs sem)"
| "sem_test Q ((sp, AssertPermits n) # xs) sem = (available_permits sem = n \<and> sem_test Q xs sem)"

definition test_semaphore_try_acquire :: "('q, 'w) queue_ops \<Rightarrow> (nat \<Rightarrow> bool list) \<Rightarrow> bool" where
  "test_semaphore_try_acquire Q sp =
     sem_test Q [(sp 0, AssertTryAcquire True), (sp 1, AssertTryAcquire True), (sp 2, AssertTryAcquire False)] (Semaphore_new Q 2)"

definition test_semaphore_release :: "('q, 'w) queue_ops \<Rightarrow> (nat \<Rightarrow> bool list) \<Rightarrow> bool" where
  "test_semaphore_release Q sp =
     sem_test Q [(sp 0, AssertTryAcquire True), (sp 1, AssertTryAcquire False), (sp 2, ReleasePermit), (sp 3, AssertTryAcquire True)]
       (Semaphore_new Q 1)"

definition test_semaphore_max_permits :: "('q, 'w) queue_ops \<Rightarrow> (nat \<Rightarrow> bool list) \<Rightarrow> bool" where
  "test_semaphore_max_permits Q sp =
     sem_test Q [(sp 0, ReleasePermit), (sp 1, ReleasePermit), (sp 2, ReleasePermit), ([], AssertPermits 2)] (Semaphore_new Q 2)"

definition test_semaphore_with_max :: "('q, 'w) queue_ops \<Rightarrow> (nat \<Rightarrow> bool list) \<Rightarrow> bool" where
  "test_semaphore_with_max Q sp =
     (case Semaphore_with_max Q 1 5 of
        None \<Rightarrow> False
      | Some sem \<Rightarrow>
          sem_test Q [([], AssertPermits 1), (sp 0, AssertTryAcquire True), (sp 1, AssertTryAcquire False),
            (sp 2, ReleasePermit), (sp 3, ReleasePermit), (sp 4, ReleasePermit), ([], AssertPermits 4)] sem)"

section \<open>Registry\<close>

definition test_mutex_registry :: "('q, 'w) queue_ops \<Rightarrow> 'q Registry \<Rightarrow> bool" where
  "test_mutex_registry Q r =
     (let (h1, r) = create_mutex Q r;
          (h2, r) = create_mutex Q r;
          found = (get_mutex r h1 \<noteq> None \<and> get_mutex r h2 \<noteq> None \<and> get_mutex r 9999 = None);
          (destroyed, r) = destroy_mutex r h1;
          gone = (get_mutex r h1 = None);
          (again, r) = destroy_mutex r h1
      in h1 \<noteq> h2 \<and> found \<and> destroyed \<and> gone \<and> \<not> again)"

definition test_semaphore_registry :: "('q, 'w) queue_ops \<Rightarrow> 'q Registry \<Rightarrow> bool" where
  "test_semaphore_registry Q r =
     (let (h1, r) = create_semaphore Q 3 r;
          (h2, r) = create_semaphore Q 1 r;
          sem1 = get_semaphore r h1;
          sem2 = get_semaphore r h2;
          (destroyed, r) = destroy_semaphore r h1
      in h1 \<noteq> h2 \<and> map_option available_permits sem1 = Some 3 \<and> map_option available_permits sem2 = Some 1
         \<and> destroyed \<and> get_semaphore r h1 = None)"

section \<open>Their outcome\<close>

lemma mutex_tests_pass:
  "test_mutex_uncontended Q" "test_mutex_try_lock_fails_when_locked Q" "test_mutex_guard_deref_mut Q"
  by (simp_all add: test_mutex_uncontended_def test_mutex_try_lock_fails_when_locked_def test_mutex_guard_deref_mut_def
      AsyncMutex_new_def AsyncMutex_try_lock_def AsyncMutexGuard_deref_def AsyncMutexGuard_deref_mut_def AsyncMutexGuard_drop_def
      AsyncMutex_wake_next_def compare_exchange_def split: prod.split)

lemmas semaphore_test_defs = test_semaphore_try_acquire_def test_semaphore_release_def test_semaphore_max_permits_def
  test_semaphore_with_max_def Semaphore_new_def Semaphore_with_max_def try_acquire_once Semaphore_release_def
  release_permits_once available_permits_def

lemma semaphore_tests_pass: "test_semaphore_try_acquire Q sp" "test_semaphore_release Q sp" "test_semaphore_max_permits Q sp"
  by (simp_all add: semaphore_test_defs split: prod.split)

text \<open>A permit is taken and three are released: there are three, but the test expects four.\<close>

lemma semaphore_test_fails: "\<not> test_semaphore_with_max Q sp"
  by (simp add: semaphore_test_defs split: prod.split)

lemma semaphore_with_max_permits:
  "\<exists>sem. Semaphore_with_max Q 1 5 = Some sem
    \<and> sem_test Q [([], AssertPermits 1), (sp 0, AssertTryAcquire True), (sp 1, AssertTryAcquire False),
         (sp 2, ReleasePermit), (sp 3, ReleasePermit), (sp 4, ReleasePermit), ([], AssertPermits 3)] sem"
  by (simp add: semaphore_test_defs split: prod.split)

text \<open>The tests of the registry run on the global registries, in any state in which the next handle of each is not 9999
  or just below, and nothing is registered under 9999.\<close>

lemma registry_tests_pass:
  "get_mutex r 9999 = None \<Longrightarrow> next_mutex_id r \<noteq> 9999 \<Longrightarrow> next_mutex_id r + 1 \<noteq> 9999 \<Longrightarrow> test_mutex_registry Q r"
  "test_semaphore_registry Q r"
  by (simp_all add: test_mutex_registry_def test_semaphore_registry_def create_mutex_def create_semaphore_def get_mutex_def
      get_semaphore_def destroy_mutex_def destroy_semaphore_def fetch_add_one_def Semaphore_new_def available_permits_def Let_def)

text \<open>Of the nine unit tests eight pass, for every waiter queue and whatever compare-and-exchange fails spuriously; in
  \<open>test_semaphore_with_max\<close> the last assertion fails, since a semaphore with one permit has three after one acquisition
  and three releases, and the test expects four.\<close>

theorem unit_tests_outcome:
  "test_mutex_uncontended Q \<and> test_mutex_try_lock_fails_when_locked Q \<and> test_mutex_guard_deref_mut Q
    \<and> test_semaphore_try_acquire Q sp \<and> test_semaphore_release Q sp \<and> test_semaphore_max_permits Q sp
    \<and> \<not> test_semaphore_with_max Q sp
    \<and> test_mutex_registry Q init_registries \<and> test_semaphore_registry Q init_registries"
  by (simp add: mutex_tests_pass semaphore_tests_pass semaphore_test_fails registry_tests_pass get_mutex_def init_registries_def)

end
