(* ===== verification/Spec2Isabelle.thy ===== *)
theory Spec2Isabelle
  imports Sync_Tasks Host_Spec Executor_Spec Wasm_Runtime_Spec Wasm_Command Shell_Spec Dns_Resolver Sdk Keyboard
    E1000_Spec Sockets Serial_Port Kernel_Run Linking Startup Unit_Tests
begin

text \<open>
  A verification of SovelmaOS, a small x86-64 kernel in Rust that runs WebAssembly processes under object capabilities.
  Paths below are relative to \<open>src/src/kernel/src/\<close> unless they name another crate.

  \<^bold>\<open>The program.\<close> The bootloader calls \<open>kernel_main\<close> (\<open>main.rs\<close>), which initialises the serial port, the text console, the
  processor's tables and interrupts (\<open>lib.rs\<close>, \<open>arch/x86_64\<close>), maps a heap (\<open>memory.rs\<close>, \<open>allocator.rs\<close>), prints a boot
  log (\<open>boot\<close>), puts a file into the RAM filesystem (\<open>fs\<close>), runs self-tests (\<open>tests.rs\<close>), looks for a network card on the
  PCI bus and builds a network stack on it (\<open>net\<close>). It then spawns three tasks on a cooperative executor (\<open>task\<close>): one
  polls the network stack, one the DHCP client, one reads keys for the shell (\<open>terminal\<close>). The shell can start a
  WebAssembly process (\<open>wasm\<close>). A process acts only by calling host functions, which check the capabilities it was given
  (\<open>common/src/capability.rs\<close>), charge fuel, and use the filesystem and the registries of mutexes and semaphores (\<open>sync\<close>).
  Programs call them through the SDK (\<open>userspace/sdk\<close>).

  \<^bold>\<open>The form of the model.\<close> Structs are records, enums datatypes, machine integers words of their width. A function that
  changes state takes and returns it. A panic is \<open>None\<close> (in the host functions \<open>Panic\<close>, beside \<open>Ret\<close> and \<open>Trap\<close>), an
  error result a sum. Global statics and atomic counters are fields of the state they belong to. \<open>Once\<close> cells and spin
  locks leave no trace where a lock is released before the task can be interrupted by another one. What is printed is a
  list of console calls. Interrupts and other tasks are steps of their own in the step relations (\<open>exec_step\<close>,
  \<open>mutex_step\<close>, \<open>sem_micro_step\<close>, \<open>fs_step\<close>, \<open>ring_run\<close>), and arguments where the code can be interrupted inside a
  function (\<open>poll_next\<close>); spurious failures of weak compare-and-exchange are arguments too.

  Code of other crates and the hardware are records of operations, and locales state what their documentation promises:
  \<open>array_queue\<close> (\<open>crossbeam_queue\<close>), \<open>atomic_waker\<close> (\<open>futures_util\<close>), \<open>linear_memory\<close>, \<open>wasm_engine\<close>, \<open>empty_module\<close> and \<open>wasm_linker\<close>
  (\<open>wasmi\<close>), \<open>page_mapper\<close> and \<open>x86_tables\<close> (\<open>x86_64\<close>), \<open>config_mechanism\<close> (the PCI ports), \<open>nic_registers\<close> and \<open>nic\<close> (the e1000
  controller), \<open>smoltcp\<close>, \<open>smoltcp_sockets\<close> and \<open>smoltcp_routes\<close> (\<open>smoltcp\<close>), \<open>uart\<close> (\<open>uart_16550\<close>), \<open>chained_pics\<close> (\<open>pic8259\<close>). Each is interpreted on an executable
  instance, on which the witnesses run. The locales \<open>ordered_map\<close> and \<open>file_system\<close> are contracts between components of
  the kernel and are interpreted on the model of \<open>BTreeMap\<close> and on the RAM filesystem.

  \<^bold>\<open>The theories.\<close>

  \<^item> \<open>Prelude\<close>: integers, casts, byte encodings, strings; \<open>fold_option\<close>, a loop that may panic. \<open>BTree_Map\<close>, \<open>Array_Queue\<close>: the
    containers. \<open>Text\<close>: formatting and splitting.
  \<^item> \<open>Capabilities\<close> (\<open>common/src/capability.rs\<close>, \<open>capability/mod.rs\<close>): identifiers, rights, the table. \<open>has_access\<close> answers exactly what
    grants and revocations left.
  \<^item> \<open>Ram_Fs\<close>, \<open>Ram_Fs_Spec\<close> (\<open>fs\<close>): every operation on an arena of nodes and a table of handles. \<open>mkdir\<close> and \<open>add_file\<close> refine
    operations on a map from paths to entries, \<open>open_at\<close> and \<open>mkdir_at\<close> stay below their base, files are read back exactly, and
    a handle that is not closed reads the same for as long as the two counters of handles do not meet.
  \<^item> \<open>Sync\<close>, \<open>Sync_Tasks\<close>, \<open>Sync_Registry\<close>, \<open>Unit_Tests\<close> (\<open>sync\<close>): mutex, semaphore, registries and their unit tests. Mutual
    exclusion in every interleaving of any number of tasks, and conservation of permits in every interleaving of their
    atomic instructions, whoever releases; a schedule that loses a wakeup.
  \<^item> \<open>Wasm_Memory\<close>, \<open>Host\<close>, \<open>Host_Calls\<close>, \<open>Host_Confinement\<close>, \<open>Host_Spec\<close> (\<open>wasm/host.rs\<close>): every host function, and systems of
    processes that call them in any order. Processes are confined to what they were given; what calls deliver and cost.
  \<^item> \<open>Executor\<close>, \<open>Executor_Spec\<close> (\<open>task/mod.rs\<close>, \<open>task/executor.rs\<close>): the executor as functions and as a step relation, which agree.
    Order by priority, no ready task forgotten in a pass that ends, termination if wakes are bounded.
  \<^item> \<open>Wasm_Runtime\<close>, \<open>Wasm_Runtime_Spec\<close>, \<open>Wasm_Command\<close> (\<open>wasm/mod.rs\<close>, \<open>terminal/commands.rs\<close>): processes as tasks, and the command
    that runs one, with everything it prints; on the file that the kernel stores at boot it never panics. \<open>Sdk\<close>, \<open>Linking\<close>
    (\<open>userspace\<close>): the SDK, its imports against the functions of the linker, the example application. The types of the
    linker's functions are those of the definitions that model them; the import \<open>print\<close> does not match.
  \<^item> \<open>Vga\<close>, \<open>Console\<close>, \<open>Serial_Port\<close> (\<open>arch/x86_64/vga.rs\<close>, \<open>serial.rs\<close>, \<open>boot\<close>, \<open>testutil\<close>): the screen refines a log of lines.
  \<^item> \<open>Commands\<close>, \<open>Shell\<close>, \<open>Shell_Spec\<close>, \<open>Command_Exec\<close> (\<open>terminal\<close>): parsing, line editing, history and every command. The editing keys
    refine a line editor, and lines entered one after another yield the commands their words parse to.
  \<^item> \<open>Keyboard\<close> (\<open>task/keyboard.rs\<close>): the scancode queue; no wakeup is lost.
  \<^item> \<open>Pci\<close>, \<open>E1000\<close>, \<open>E1000_Spec\<close>, \<open>Net_Device\<close> (\<open>arch/x86_64/pci.rs\<close>, \<open>net/e1000.rs\<close>, \<open>net/device.rs\<close>, \<open>net/mod.rs\<close>): scanning is exact and
    the descriptor rings, driven by driver and controller in any order, are queues. The controller reaches descriptors and buffers
    by the addresses in its registers and in the descriptors, so that this depends on what the set-up programs. It needs
    the boxes of the driver to be in the direct mapping of physical memory; the boxes of the kernel's heap are not, and
    then the addresses are wrong.
  \<^item> \<open>Net_Stack\<close>, \<open>Sockets\<close>, \<open>Dhcp\<close>, \<open>Dns_Resolver\<close> (\<open>net\<close>): the stack and its clients. Setting an address that is
    not unicast panics, as in \<open>smoltcp\<close>. A DHCP client that has been started follows the leases its socket reports, in the
    addresses, name servers and default route of the stack, and gives up after ten seconds; the resolver asks every query once per poll; ports cycle through their range.
  \<^item> \<open>Memory\<close> (\<open>memory.rs\<close>, \<open>allocator.rs\<close>): frames are handed out once, the heap is mapped exactly. \<open>Startup\<close>, \<open>Interrupts\<close>
    (\<open>arch/x86_64/gdt.rs\<close>, \<open>interrupts.rs\<close>, \<open>pic.rs\<close>, \<open>lib.rs\<close>): tables and handlers, loaded in a safe order.
  \<^item> \<open>Self_Tests\<close>, \<open>Kernel_Main\<close>, \<open>Kernel_Run\<close> (\<open>tests.rs\<close>, \<open>main.rs\<close>): the composition. The kernel boots, printing each message where
    the source does, its tasks never panic, and under the executor they run in turn for ever; the network is never configured.

  \<^bold>\<open>Loops.\<close> Loops over data are structural recursions and so terminate; \<open>poll_loop\<close> of the resolver has a measure. The two loops
  that other code can keep going are partial functions whose \<open>None\<close> means that they do not return: \<open>drain_queue\<close> of the
  executor, which returns if the wakes that polls can still make are bounded (\<open>run_ready_tasks_terminates\<close>), and does not
  with the kernel's own tasks (\<open>kernel_round_robin\<close>); and \<open>print_keypresses_loop\<close>, which returns when the queue is empty
  (\<open>print_keypresses_drains\<close>). The executor's outer loop, which never ends, is the step relation \<open>exec_step\<close>. The retry loops
  of the semaphore take the list of spurious failures, however long. No definition has a fuel of its own; fuel in the
  model is the fuel of WebAssembly processes.

  \<^bold>\<open>Bounds.\<close> Numerical bounds in the properties come from the code: 1024 usable frames suffice for the 256 pages of the
  heap, since mapping a page takes at most four frames; the queues of the executor hold 100 tasks.

  \<^bold>\<open>Not modelled.\<close> The insides of the crates above, among them the interpreter, the TCP/IP stack and the allocator of the heap, which
  are not part of the repository. \<open>hlt\<close> and \<open>halt_loop\<close>, which are processor instructions: where they are called, the model
  says that the processor halts. That memory is available to small allocations, except where a process determines their size.
  Timing: interrupts and controllers act at any moment, and time is the counter of \<open>main.rs\<close>. Memory ordering: atomic
  operations interleave, the orderings \<open>Acquire\<close> and \<open>Release\<close> being strong enough on this processor. The text of values
  that only other crates can format (addresses of faults, errors of \<open>wasmi\<close>) is a parameter. The lines of the network drivers
  on the serial port are left out.
\<close>

end
